(* ===== verification/Prelude.thy ===== *)
theory Prelude
  imports Complex_Main "HOL-Library.Word"
begin

text \<open>
  Shared vocabulary of the development.

  \<^item> machine integers (\<open>octet\<close>, \<open>u16\<close>, \<open>u32\<close>, \<open>u64\<close>, \<open>i32\<close>) as words;
  \<^item> the faults of the C++ program as values (\<open>fault\<close>, \<open>'a res\<close>) with the sequencing
    operator \<open>rbind\<close>;
  \<^item> byte buffers as lists of octets with bounds-checked reads and writes (\<open>peek\<close>,
    \<open>poke\<close>), and the little-endian integer codec the program gets from
    \<open>reinterpret_cast\<close> on x86-64;
  \<^item> the locale \<open>wire_field\<close>, the contract every fixed-width field satisfies, and the
    lemmas on loads after stores that its clients use;
  \<^item> the locale \<open>event_machine\<close>, the contract of a state machine with an invariant, and
    its lift to runs.
\<close>

unbundle bit_operations_syntax

named_theorems res_simps \<open>unfolding the fault monad\<close>
named_theorems buf_simps \<open>loads after stores\<close>
named_theorems wp \<open>total-correctness rules for computations that may fault\<close>

section \<open>Machine integers\<close>

type_synonym octet = "8 word"
type_synonym u16 = "16 word"
type_synonym u32 = "32 word"
type_synonym u64 = "64 word"
type_synonym i32 = "32 word"
type_synonym i64 = "64 word"

lemma unat_bound: "unat (v :: 'a::len word) < 2 ^ LENGTH('a)"
  by (rule unsigned_less)

section \<open>Faults\<close>

text \<open>
  What the C++ program does beyond returning: a write or read outside a buffer, a call
  through a null pointer, a failed \<open>assert\<close>, an integer division by zero, a conversion of a
  floating-point value outside the target's range, a signed overflow, \<open>exit(EXIT_FAILURE)\<close>,
  an uncaught exception or \<open>std::terminate\<close>. \<open>Blocked\<close> is not an error of the program: it says that
  a waiting loop is still waiting when the observations a model step was given are used up.
\<close>

datatype fault =
    OutOfBounds | NullDeref | AssertFail | DivByZero | BadCast | SignedOverflow | ExitFailure
  | Terminate | Blocked

type_synonym 'a res = "fault + 'a"

definition rbind :: "'a res \<Rightarrow> ('a \<Rightarrow> 'b res) \<Rightarrow> 'b res" where
  "rbind m f = (case m of Inl e \<Rightarrow> Inl e | Inr x \<Rightarrow> f x)"

definition guard :: "fault \<Rightarrow> bool \<Rightarrow> unit res" where
  "guard e b = (if b then Inr () else Inl e)"

definition rmap :: "('a \<Rightarrow> 'b) \<Rightarrow> 'a res \<Rightarrow> 'b res" where
  "rmap f m = (case m of Inl e \<Rightarrow> Inl e | Inr x \<Rightarrow> Inr (f x))"

fun rfold :: "('a \<Rightarrow> 'b \<Rightarrow> 'b res) \<Rightarrow> 'a list \<Rightarrow> 'b \<Rightarrow> 'b res" where
  "rfold f [] s = Inr s"
| "rfold f (x # xs) s = rbind (f x s) (rfold f xs)"

lemma rbind_Inr [simp, res_simps]: "rbind (Inr x) f = f x"
  by (simp add: rbind_def)

lemma rbind_Inl [simp, res_simps]: "rbind (Inl e) f = Inl e"
  by (simp add: rbind_def)

lemma rmap_simps [simp, res_simps]: "rmap f (Inr x) = Inr (f x)" "rmap f (Inl e) = Inl e"
  by (simp_all add: rmap_def)

lemma guard_simps [simp, res_simps]: "guard e True = Inr ()" "guard e False = Inl e"
  by (simp_all add: guard_def)

lemma guard_eq_Inr [simp]: "guard e b = Inr u \<longleftrightarrow> b"
  by (simp add: guard_def)

lemma rbind_eq_Inr: "rbind m f = Inr y \<longleftrightarrow> (\<exists>x. m = Inr x \<and> f x = Inr y)"
  by (cases m) auto

lemma rbind_eq_Inl: "rbind m f = Inl e \<longleftrightarrow> m = Inl e \<or> (\<exists>x. m = Inr x \<and> f x = Inl e)"
  by (cases m) auto

lemma rbindE: "rbind m f = Inr y \<Longrightarrow> (\<And>x. m = Inr x \<Longrightarrow> f x = Inr y \<Longrightarrow> P) \<Longrightarrow> P"
  by (auto simp: rbind_eq_Inr)

lemma rmap_eq_Inr: "rmap f m = Inr y \<longleftrightarrow> (\<exists>x. m = Inr x \<and> y = f x)"
  by (cases m) auto

lemma rmap_eq_Inl [simp]: "rmap f m = Inl e \<longleftrightarrow> m = Inl e"
  by (cases m) auto

lemma rfold_append: "rfold f (xs @ ys) s = rbind (rfold f xs s) (rfold f ys)"
proof (induction xs arbitrary: s)
  case Nil
  then show ?case by simp
next
  case (Cons x xs)
  then show ?case by (cases "f x s") simp_all
qed

text \<open>An invariant kept by the body of a loop is kept by the loop.\<close>

lemma rfold_invariant:
  assumes "rfold f xs s = Inr t" and "P s"
    and "\<And>x s t. x \<in> set xs \<Longrightarrow> P s \<Longrightarrow> f x s = Inr t \<Longrightarrow> P t"
  shows "P t"
  using assms
proof (induction xs arbitrary: s)
  case Nil
  then show ?case by simp
next
  case (Cons x xs)
  from Cons.prems(1) obtain s' where s': "f x s = Inr s'" "rfold f xs s' = Inr t"
    by (auto simp: rbind_eq_Inr)
  have "P s'" using Cons.prems(2,3) s'(1) by auto
  then show ?case using Cons.IH [OF s'(2)] Cons.prems(3) by auto
qed

text \<open>
  \<open>returns m Q\<close>: the computation does not fault and its result satisfies \<open>Q\<close>. The rules in
  \<open>wp\<close> reduce such a goal to the steps of the computation.
\<close>

definition returns :: "'a res \<Rightarrow> ('a \<Rightarrow> bool) \<Rightarrow> bool" where
  "returns m Q \<longleftrightarrow> (\<exists>x. m = Inr x \<and> Q x)"

lemma returns_Inr [wp]: "Q x \<Longrightarrow> returns (Inr x) Q"
  by (simp add: returns_def)

lemma returns_bind [wp]: "returns m (\<lambda>x. returns (f x) Q) \<Longrightarrow> returns (rbind m f) Q"
  by (auto simp: returns_def)

lemma returns_rmap [wp]: "returns m (\<lambda>x. Q (f x)) \<Longrightarrow> returns (rmap f m) Q"
  by (auto simp: returns_def)

lemma returns_guard [wp]: "b \<Longrightarrow> Q () \<Longrightarrow> returns (guard e b) Q"
  by (simp add: returns_def)

lemma returns_if [wp]:
  "(b \<Longrightarrow> returns m Q) \<Longrightarrow> (\<not> b \<Longrightarrow> returns n Q) \<Longrightarrow> returns (if b then m else n) Q"
  by simp

lemma returns_prod [wp]: "returns (f a b) Q \<Longrightarrow> returns (case (a, b) of (x, y) \<Rightarrow> f x y) Q"
  by simp

lemma returns_Inl [simp]: "\<not> returns (Inl e) Q"
  by (simp add: returns_def)

lemma returns_mono: "returns m P \<Longrightarrow> (\<And>x. P x \<Longrightarrow> Q x) \<Longrightarrow> returns m Q"
  by (auto simp: returns_def)

lemma returnsE:
  assumes "returns m Q"
  obtains x where "m = Inr x" and "Q x"
  using assms by (auto simp: returns_def)

lemma returns_unique: "returns m Q \<Longrightarrow> m = Inr x \<Longrightarrow> Q x"
  by (simp add: returns_def)

section \<open>Byte buffers\<close>

definition peek :: "octet list \<Rightarrow> nat \<Rightarrow> nat \<Rightarrow> octet list res" where
  "peek bs off n = (if off + n \<le> length bs then Inr (take n (drop off bs)) else Inl OutOfBounds)"

definition overwrite :: "octet list \<Rightarrow> nat \<Rightarrow> octet list \<Rightarrow> octet list" where
  "overwrite bs off vs = take off bs @ vs @ drop (off + length vs) bs"

definition poke :: "octet list \<Rightarrow> nat \<Rightarrow> octet list \<Rightarrow> octet list res" where
  "poke bs off vs = (if off + length vs \<le> length bs then Inr (overwrite bs off vs) else Inl OutOfBounds)"

lemma poke_ok [buf_simps]: "off + length vs \<le> length bs \<Longrightarrow> poke bs off vs = Inr (overwrite bs off vs)"
  by (simp add: poke_def)

lemma peek_ok: "off + n \<le> length bs \<Longrightarrow> peek bs off n = Inr (take n (drop off bs))"
  by (simp add: peek_def)

lemma poke_defined: "(\<exists>cs. poke bs off vs = Inr cs) \<longleftrightarrow> off + length vs \<le> length bs"
  by (simp add: poke_def)

lemma peek_defined: "(\<exists>vs. peek bs off n = Inr vs) \<longleftrightarrow> off + n \<le> length bs"
  by (simp add: peek_def)

lemma poke_eq_Inr: "poke bs off vs = Inr cs \<longleftrightarrow> off + length vs \<le> length bs \<and> cs = overwrite bs off vs"
  by (auto simp: poke_def)

lemma length_overwrite [buf_simps]: "off + length vs \<le> length bs \<Longrightarrow> length (overwrite bs off vs) = length bs"
  by (simp add: overwrite_def)

lemma nth_overwrite [buf_simps]:
  "off + length vs \<le> length bs \<Longrightarrow> i < length bs \<Longrightarrow>
     overwrite bs off vs ! i = (if off \<le> i \<and> i < off + length vs then vs ! (i - off) else bs ! i)"
  by (auto simp: overwrite_def nth_append min_def)

lemma peek_overwrite_same [buf_simps]:
  "off + length vs \<le> length bs \<Longrightarrow> n = length vs \<Longrightarrow> peek (overwrite bs off vs) off n = Inr vs"
  by (simp add: overwrite_def peek_def)

lemma peek_overwrite_other [buf_simps]:
  assumes "off + length vs \<le> length bs" and "off' + n \<le> off \<or> off + length vs \<le> off'"
  shows "peek (overwrite bs off vs) off' n = peek bs off' n"
proof -
  have "take n (drop off' (overwrite bs off vs)) = take n (drop off' bs)"
  proof (rule nth_equalityI)
    show "length (take n (drop off' (overwrite bs off vs))) = length (take n (drop off' bs))"
      using assms(1) by (simp add: length_overwrite)
    fix i assume "i < length (take n (drop off' (overwrite bs off vs)))"
    then have i: "i < n" "off' + i < length bs" using assms(1) by (auto simp: length_overwrite)
    then show "take n (drop off' (overwrite bs off vs)) ! i = take n (drop off' bs) ! i"
      using assms by (auto simp: nth_overwrite length_overwrite)
  qed
  then show ?thesis using assms(1) by (simp add: peek_def length_overwrite)
qed

lemma peek_append_left [buf_simps]: "off + n \<le> length bs \<Longrightarrow> peek (bs @ cs) off n = peek bs off n"
  by (simp add: peek_def)

lemma peek_take [buf_simps]: "off + n \<le> k \<Longrightarrow> k \<le> length bs \<Longrightarrow> peek (take k bs) off n = peek bs off n"
  by (simp add: peek_def take_drop min_def)

lemma peek_drop [buf_simps]: "k \<le> length bs \<Longrightarrow> peek (drop k bs) off n = peek bs (k + off) n"
  by (auto simp: peek_def add.commute add.left_commute)

section \<open>Little-endian integers\<close>

fun le_bytes :: "nat \<Rightarrow> nat \<Rightarrow> octet list" where
  "le_bytes 0 x = []"
| "le_bytes (Suc n) x = word_of_nat x # le_bytes n (x div 256)"

fun le_val :: "octet list \<Rightarrow> nat" where
  "le_val [] = 0"
| "le_val (b # bs) = unat b + 256 * le_val bs"

lemma length_le_bytes [simp]: "length (le_bytes n x) = n"
  by (induction n arbitrary: x) auto

lemma le_val_le_bytes: "le_val (le_bytes n x) = x mod 256 ^ n"
proof (induction n arbitrary: x)
  case 0
  then show ?case by simp
next
  case (Suc n)
  have "unat (word_of_nat x :: octet) = x mod 256" by (simp add: unat_of_nat)
  then show ?case by (simp add: Suc.IH mod_mult2_eq)
qed

lemma le_val_bound: "le_val bs < 256 ^ length bs"
proof (induction bs)
  case Nil
  then show ?case by simp
next
  case (Cons b bs)
  have "unat b < 256" using unsigned_less [of b] by simp
  moreover have "Suc (le_val bs) \<le> 256 ^ length bs" using Cons.IH by simp
  then have "256 * le_val bs + 256 \<le> 256 * 256 ^ length bs" by simp
  ultimately show ?case by simp
qed

lemma le_bytes_le_val: "le_bytes (length bs) (le_val bs) = bs"
proof (induction bs)
  case Nil
  then show ?case by simp
next
  case (Cons b bs)
  have "unat b < 256" using unsigned_less [of b] by simp
  then have "(unat b + 256 * le_val bs) div 256 = le_val bs" by simp
  moreover have "(word_of_nat (unat b + 256 * le_val bs) :: octet) = b"
  proof -
    have "(of_nat (unat b + 256 * le_val bs) :: octet) = of_nat (unat b) + 256 * of_nat (le_val bs)"
      by simp
    also have "(256 :: octet) = 0" by simp
    finally show ?thesis by simp
  qed
  ultimately show ?case by (simp add: Cons.IH)
qed

definition enc16 :: "u16 \<Rightarrow> octet list" where "enc16 v = le_bytes 2 (unat v)"
definition enc32 :: "u32 \<Rightarrow> octet list" where "enc32 v = le_bytes 4 (unat v)"
definition enc64 :: "u64 \<Rightarrow> octet list" where "enc64 v = le_bytes 8 (unat v)"

definition dec16 :: "octet list \<Rightarrow> u16" where "dec16 bs = word_of_nat (le_val bs)"
definition dec32 :: "octet list \<Rightarrow> u32" where "dec32 bs = word_of_nat (le_val bs)"
definition dec64 :: "octet list \<Rightarrow> u64" where "dec64 bs = word_of_nat (le_val bs)"

definition store8 :: "octet list \<Rightarrow> nat \<Rightarrow> octet \<Rightarrow> octet list res" where
  "store8 bs off v = poke bs off [v]"

definition store16 :: "octet list \<Rightarrow> nat \<Rightarrow> u16 \<Rightarrow> octet list res" where
  "store16 bs off v = poke bs off (enc16 v)"

definition store32 :: "octet list \<Rightarrow> nat \<Rightarrow> u32 \<Rightarrow> octet list res" where
  "store32 bs off v = poke bs off (enc32 v)"

definition store64 :: "octet list \<Rightarrow> nat \<Rightarrow> u64 \<Rightarrow> octet list res" where
  "store64 bs off v = poke bs off (enc64 v)"

definition load8 :: "octet list \<Rightarrow> nat \<Rightarrow> octet res" where
  "load8 bs off = rmap hd (peek bs off 1)"

definition load16 :: "octet list \<Rightarrow> nat \<Rightarrow> u16 res" where
  "load16 bs off = rmap dec16 (peek bs off 2)"

definition load32 :: "octet list \<Rightarrow> nat \<Rightarrow> u32 res" where
  "load32 bs off = rmap dec32 (peek bs off 4)"

definition load64 :: "octet list \<Rightarrow> nat \<Rightarrow> u64 res" where
  "load64 bs off = rmap dec64 (peek bs off 8)"

section \<open>The contract of a fixed-width field\<close>

text \<open>
  A field of a wire structure is a codec of constant width. The laws are what a client of the
  buffers needs; the lemmas are proved once and used for every width of the protocol.
\<close>

locale wire_field =
  fixes enc :: "'v \<Rightarrow> octet list" and dec :: "octet list \<Rightarrow> 'v" and width :: nat
  assumes enc_length: "length (enc v) = width"
    and dec_enc: "dec (enc v) = v"
    and enc_dec: "length bs = width \<Longrightarrow> enc (dec bs) = bs"
begin

lemma store_ok: "off + width \<le> length bs \<Longrightarrow> poke bs off (enc v) = Inr (overwrite bs off (enc v))"
  by (simp add: poke_ok enc_length)

lemma store_overrun: "length bs < off + width \<Longrightarrow> poke bs off (enc v) = Inl OutOfBounds"
  by (simp add: poke_def enc_length)

lemma load_overwrite_same:
  "off + width \<le> length bs \<Longrightarrow> rmap dec (peek (overwrite bs off (enc v)) off width) = Inr v"
  by (simp add: peek_overwrite_same enc_length dec_enc)

lemma load_overwrite_other:
  "off + length vs \<le> length bs \<Longrightarrow> off' + width \<le> off \<or> off + length vs \<le> off' \<Longrightarrow>
     rmap dec (peek (overwrite bs off vs) off' width) = rmap dec (peek bs off' width)"
  by (simp add: peek_overwrite_other)

lemma load_after_store:
  "poke bs off (enc v) = Inr cs \<Longrightarrow> rmap dec (peek cs off width) = Inr v"
  using enc_length load_overwrite_same [of off bs v] by (auto simp: poke_eq_Inr)

lemma store_after_load:
  "rmap dec (peek bs off width) = Inr v \<Longrightarrow> poke bs off (enc v) = Inr bs"
  by (auto simp: peek_def poke_def overwrite_def rmap_def enc_length enc_dec split: if_splits)
    (metis append.assoc append_take_drop_id take_add)

end

interpretation f8: wire_field "\<lambda>v. [v]" hd 1
  by unfold_locales (auto simp: length_Suc_conv)

interpretation f16: wire_field enc16 dec16 2
proof
  show "length (enc16 v) = 2" for v by (simp add: enc16_def)
  show "dec16 (enc16 v) = v" for v
    using unat_bound [of v] by (simp add: enc16_def dec16_def le_val_le_bytes)
  show "enc16 (dec16 bs) = bs" if "length bs = 2" for bs
    using le_val_bound [of bs] le_bytes_le_val [of bs] that by (simp add: enc16_def dec16_def unat_of_nat)
qed

interpretation f32: wire_field enc32 dec32 4
proof
  show "length (enc32 v) = 4" for v by (simp add: enc32_def)
  show "dec32 (enc32 v) = v" for v
    using unat_bound [of v] by (simp add: enc32_def dec32_def le_val_le_bytes)
  show "enc32 (dec32 bs) = bs" if "length bs = 4" for bs
    using le_val_bound [of bs] le_bytes_le_val [of bs] that by (simp add: enc32_def dec32_def unat_of_nat)
qed

interpretation f64: wire_field enc64 dec64 8
proof
  show "length (enc64 v) = 8" for v by (simp add: enc64_def)
  show "dec64 (enc64 v) = v" for v
    using unat_bound [of v] by (simp add: enc64_def dec64_def le_val_le_bytes)
  show "enc64 (dec64 bs) = bs" if "length bs = 8" for bs
    using le_val_bound [of bs] le_bytes_le_val [of bs] that by (simp add: enc64_def dec64_def unat_of_nat)
qed

lemmas enc_lengths [simp] = f16.enc_length f32.enc_length f64.enc_length

lemmas store_defs = store8_def store16_def store32_def store64_def
lemmas load_defs = load8_def load16_def load32_def load64_def

lemmas load_overwrite [buf_simps] =
  f8.load_overwrite_same [folded load8_def] f8.load_overwrite_other [folded load8_def]
  f16.load_overwrite_same [folded load16_def] f16.load_overwrite_other [folded load16_def]
  f32.load_overwrite_same [folded load32_def] f32.load_overwrite_other [folded load32_def]
  f64.load_overwrite_same [folded load64_def] f64.load_overwrite_other [folded load64_def]

lemmas store_oks [buf_simps] =
  f8.store_ok [folded store8_def] f16.store_ok [folded store16_def]
  f32.store_ok [folded store32_def] f64.store_ok [folded store64_def]

lemmas store_overruns =
  f8.store_overrun [folded store8_def] f16.store_overrun [folded store16_def]
  f32.store_overrun [folded store32_def] f64.store_overrun [folded store64_def]

lemma load_take [buf_simps]:
  "k \<le> length bs \<Longrightarrow> off + 1 \<le> k \<Longrightarrow> load8 (take k bs) off = load8 bs off"
  "k \<le> length bs \<Longrightarrow> off + 2 \<le> k \<Longrightarrow> load16 (take k bs) off = load16 bs off"
  "k \<le> length bs \<Longrightarrow> off + 4 \<le> k \<Longrightarrow> load32 (take k bs) off = load32 bs off"
  "k \<le> length bs \<Longrightarrow> off + 8 \<le> k \<Longrightarrow> load64 (take k bs) off = load64 bs off"
  by (simp_all add: load_defs peek_take)

lemma load_drop [buf_simps]:
  "k \<le> length bs \<Longrightarrow> load8 (drop k bs) off = load8 bs (k + off)"
  "k \<le> length bs \<Longrightarrow> load16 (drop k bs) off = load16 bs (k + off)"
  "k \<le> length bs \<Longrightarrow> load32 (drop k bs) off = load32 bs (k + off)"
  "k \<le> length bs \<Longrightarrow> load64 (drop k bs) off = load64 bs (k + off)"
  by (simp_all add: load_defs peek_drop)

section \<open>Bit-fields\<close>

definition put_bit :: "nat \<Rightarrow> bool \<Rightarrow> octet \<Rightarrow> octet" where
  "put_bit n b w = (if b then set_bit n w else unset_bit n w)"

lemma bit_put_bit [buf_simps]: "n < 8 \<Longrightarrow> bit (put_bit n b w) m \<longleftrightarrow> (if m = n then b else bit w m)"
  by (auto simp: put_bit_def bit_simps)

section \<open>State machines\<close>

text \<open>
  A component that reacts to events: its step may fault. An invariant that every step keeps is
  kept by every finite run, whatever the order of the events.
\<close>

definition run_events :: "('s \<Rightarrow> 'e \<Rightarrow> 's res) \<Rightarrow> 'e list \<Rightarrow> 's \<Rightarrow> 's res" where
  "run_events step es s = rfold (\<lambda>e s. step s e) es s"

lemma run_events_simps [simp]:
  "run_events step [] s = Inr s"
  "run_events step (e # es) s = rbind (step s e) (run_events step es)"
  by (auto simp: run_events_def intro!: arg_cong2 [where f = rbind])

locale event_machine =
  fixes step :: "'s \<Rightarrow> 'e \<Rightarrow> 's res" and inv :: "'s \<Rightarrow> bool"
  assumes step_inv: "inv s \<Longrightarrow> step s e = Inr t \<Longrightarrow> inv t"
begin

lemma run_inv: "inv s \<Longrightarrow> run_events step es s = Inr t \<Longrightarrow> inv t"
  unfolding run_events_def by (rule rfold_invariant [where P = inv]) (auto intro: step_inv)

end

end
