(* ===== verification/Floats.thy ===== *)
theory Floats
  imports Prelude
begin

text \<open>
  The \<open>float\<close> and \<open>double\<close> arithmetic of the program (IEEE 754 binary32 and binary64,
  round to nearest even, as x86-64 SSE evaluates it). A finite value is the rational number it
  denotes, and every arithmetic operation rounds its exact result to the format: \<open>rnd\<close>.
  Subnormals come out of the lower bound on the quantum exponent, overflow gives an infinity,
  a zero divisor gives an infinity or NaN. The sign of zero is not represented: no expression of
  the program produces a negative zero it later divides by.

  Conversions to integer types truncate; outside the target's range they are undefined in C++,
  which is the fault \<open>BadCast\<close>.
\<close>

section \<open>Formats and rounding\<close>

datatype fmt = Single | Double

fun prec :: "fmt \<Rightarrow> nat" where
  "prec Single = 24"
| "prec Double = 53"

fun qmin :: "fmt \<Rightarrow> int" where
  "qmin Single = -149"
| "qmin Double = -1074"

fun emax :: "fmt \<Rightarrow> int" where
  "emax Single = 128"
| "emax Double = 1024"

fun bitlen :: "int \<Rightarrow> nat" where
  "bitlen n = (if n \<le> 0 then 0 else Suc (bitlen (n div 2)))"

declare bitlen.simps [simp del]

text \<open>The exponent of the leading bit of a non-zero rational.\<close>

definition expo :: "rat \<Rightarrow> int" where
  "expo x =
     (let (n, d) = quotient_of \<bar>x\<bar>; k = int (bitlen n) - int (bitlen d)
      in if 2 powi k \<le> \<bar>x\<bar> then k else k - 1)"

definition round_even :: "rat \<Rightarrow> int" where
  "round_even r =
     (let f = \<lfloor>r\<rfloor>; d = r - of_int f
      in if d < 1 / 2 then f else if d > 1 / 2 then f + 1 else if even f then f else f + 1)"

definition quantum :: "fmt \<Rightarrow> rat \<Rightarrow> int" where
  "quantum f x = max (expo x - int (prec f) + 1) (qmin f)"

definition rnd :: "fmt \<Rightarrow> rat \<Rightarrow> rat" where
  "rnd f x = (if x = 0 then 0 else of_int (round_even (x / 2 powi quantum f x)) * 2 powi quantum f x)"

section \<open>Values and operations\<close>

datatype flt = Fin rat | PInf | NInf | NaN

definition fl :: "fmt \<Rightarrow> rat \<Rightarrow> flt" where
  "fl f x =
     (let r = rnd f x
      in if r \<noteq> 0 \<and> emax f \<le> expo r then (if r > 0 then PInf else NInf) else Fin r)"

definition fl_int :: "fmt \<Rightarrow> int \<Rightarrow> flt" where
  "fl_int f n = fl f (of_int n)"

fun fsign :: "flt \<Rightarrow> int" where
  "fsign (Fin x) = (if x > 0 then 1 else if x < 0 then -1 else 0)"
| "fsign PInf = 1"
| "fsign NInf = -1"
| "fsign NaN = 0"

definition inf_of :: "int \<Rightarrow> flt" where
  "inf_of s = (if s > 0 then PInf else if s < 0 then NInf else NaN)"

definition fmul :: "fmt \<Rightarrow> flt \<Rightarrow> flt \<Rightarrow> flt" where
  "fmul f a b =
     (case (a, b) of
        (Fin x, Fin y) \<Rightarrow> fl f (x * y)
      | (NaN, _) \<Rightarrow> NaN
      | (_, NaN) \<Rightarrow> NaN
      | _ \<Rightarrow> inf_of (fsign a * fsign b))"

definition fdiv :: "fmt \<Rightarrow> flt \<Rightarrow> flt \<Rightarrow> flt" where
  "fdiv f a b =
     (case (a, b) of
        (Fin x, Fin y) \<Rightarrow> (if y = 0 then inf_of (fsign a) else fl f (x / y))
      | (NaN, _) \<Rightarrow> NaN
      | (_, NaN) \<Rightarrow> NaN
      | (Fin x, _) \<Rightarrow> Fin 0
      | (_, Fin y) \<Rightarrow> (if y < 0 then inf_of (- fsign a) else inf_of (fsign a))
      | _ \<Rightarrow> NaN)"

definition fadd :: "fmt \<Rightarrow> flt \<Rightarrow> flt \<Rightarrow> flt" where
  "fadd f a b =
     (case (a, b) of
        (Fin x, Fin y) \<Rightarrow> fl f (x + y)
      | (NaN, _) \<Rightarrow> NaN
      | (_, NaN) \<Rightarrow> NaN
      | (Fin x, _) \<Rightarrow> b
      | (_, Fin y) \<Rightarrow> a
      | _ \<Rightarrow> (if a = b then a else NaN))"

definition fless :: "flt \<Rightarrow> flt \<Rightarrow> bool" where
  "fless a b =
     (case (a, b) of
        (Fin x, Fin y) \<Rightarrow> x < y
      | (NaN, _) \<Rightarrow> False
      | (_, NaN) \<Rightarrow> False
      | (NInf, NInf) \<Rightarrow> False
      | (NInf, _) \<Rightarrow> True
      | (_, PInf) \<Rightarrow> a \<noteq> PInf
      | _ \<Rightarrow> False)"

text \<open>\<open>std::round\<close>: half away from zero.\<close>

definition fround :: "fmt \<Rightarrow> flt \<Rightarrow> flt" where
  "fround f a =
     (case a of
        Fin x \<Rightarrow> fl f (of_int (if x < 0 then - \<lfloor>- x + 1 / 2\<rfloor> else \<lfloor>x + 1 / 2\<rfloor>))
      | _ \<Rightarrow> a)"

definition trunc0 :: "rat \<Rightarrow> int" where
  "trunc0 x = (if x < 0 then - \<lfloor>- x\<rfloor> else \<lfloor>x\<rfloor>)"

definition fcast :: "int \<Rightarrow> int \<Rightarrow> flt \<Rightarrow> int res" where
  "fcast lo hi a =
     (case a of
        Fin x \<Rightarrow> (if lo \<le> trunc0 x \<and> trunc0 x < hi then Inr (trunc0 x) else Inl BadCast)
      | _ \<Rightarrow> Inl BadCast)"

definition to_u32 :: "flt \<Rightarrow> u32 res" where
  "to_u32 a = rmap word_of_int (fcast 0 (2 ^ 32) a)"

definition to_u64 :: "flt \<Rightarrow> u64 res" where
  "to_u64 a = rmap word_of_int (fcast 0 (2 ^ 64) a)"

definition to_i32 :: "flt \<Rightarrow> int res" where
  "to_i32 a = fcast (- (2 ^ 31)) (2 ^ 31) a"

definition to_i64 :: "flt \<Rightarrow> int res" where
  "to_i64 a = fcast (- (2 ^ 63)) (2 ^ 63) a"

section \<open>The exponent\<close>

lemma bitlen_bounds: "n > 0 \<Longrightarrow> 2 ^ bitlen n \<le> 2 * n \<and> n < 2 ^ bitlen n"
proof (induction n rule: bitlen.induct)
  case (1 n)
  show ?case
  proof (cases "n = 1")
    case True
    then show ?thesis by (simp add: bitlen.simps [of 1] bitlen.simps [of 0])
  next
    case False
    with "1.prems" have "n div 2 > 0" by auto
    with "1.IH" "1.prems" have "2 ^ bitlen (n div 2) \<le> 2 * (n div 2) \<and> n div 2 < 2 ^ bitlen (n div 2)"
      by simp
    then have "2 ^ bitlen (n div 2) \<le> n \<and> n < 2 * 2 ^ bitlen (n div 2)" by linarith
    with "1.prems" show ?thesis by (subst (1 2) bitlen.simps) simp
  qed
qed

lemma bitlen_bounds_rat:
  assumes "m > 0"
  shows "(2::rat) ^ bitlen m \<le> 2 * of_int m" and "(of_int m :: rat) < 2 ^ bitlen m"
proof -
  have "(of_int (2 ^ bitlen m) :: rat) \<le> of_int (2 * m)"
    using bitlen_bounds [OF assms] by (simp only: of_int_le_iff)
  then show "(2::rat) ^ bitlen m \<le> 2 * of_int m" by simp
  have "(of_int m :: rat) < of_int (2 ^ bitlen m)"
    using bitlen_bounds [OF assms] by (simp only: of_int_less_iff)
  then show "(of_int m :: rat) < 2 ^ bitlen m" by simp
qed

lemma expo_bounds:
  assumes "x \<noteq> 0"
  shows "2 powi expo x \<le> \<bar>x\<bar>" and "\<bar>x\<bar> < 2 powi (expo x + 1)"
proof -
  obtain n d where q: "quotient_of \<bar>x\<bar> = (n, d)" by (cases "quotient_of \<bar>x\<bar>")
  have d: "d > 0" using quotient_of_denom_pos [OF q] .
  have x: "\<bar>x\<bar> = of_int n / of_int d" using quotient_of_div [OF q] .
  have n: "n > 0" using assms d x by (metis divide_eq_0_iff not_less_iff_gr_or_eq of_int_0
        of_int_0_less_iff of_int_pos zero_less_abs_iff zero_less_divide_iff)
  define a b where "a = bitlen n" and "b = bitlen d"
  define k where "k = int a - int b"
  have nr: "(2::rat) ^ a \<le> 2 * of_int n" "(of_int n :: rat) < 2 ^ a" "(0::rat) < of_int n"
    and dr: "(2::rat) ^ b \<le> 2 * of_int d" "(of_int d :: rat) < 2 ^ b" "(0::rat) < of_int d"
    using bitlen_bounds_rat [of n] bitlen_bounds_rat [of d] n d by (simp_all add: a_def b_def)
  have k2: "(2::rat) powi k = 2 ^ a / 2 ^ b"
    by (simp add: k_def power_int_diff)
  have "(2::rat) ^ a * of_int d \<le> (2 * of_int n) * 2 ^ b"
    using nr(1,3) dr(2,3) by (intro mult_mono) auto
  then have lo: "2 powi k \<le> 2 * \<bar>x\<bar>"
    using dr(3) by (simp add: k2 x field_simps)
  have "of_int n * (2::rat) ^ b \<le> 2 ^ a * (2 * of_int d)"
    using nr dr n by (intro mult_mono) auto
  moreover have "of_int n * (2::rat) ^ b < 2 ^ a * (2 * of_int d)"
    using nr dr n by (intro mult_less_le_imp_less) auto
  ultimately have hi: "\<bar>x\<bar> < 2 * 2 powi k"
    using dr(3) by (simp add: k2 x field_simps)
  have e: "expo x = (if 2 powi k \<le> \<bar>x\<bar> then k else k - 1)"
    by (simp add: expo_def q k_def a_def b_def Let_def)
  show "2 powi expo x \<le> \<bar>x\<bar>" using lo by (simp add: e power_int_diff)
  show "\<bar>x\<bar> < 2 powi (expo x + 1)" using hi by (simp add: e power_int_add power_int_diff not_le mult.commute)
qed

lemma powi2_mono: "a \<le> b \<Longrightarrow> (2::rat) powi a \<le> 2 powi b"
  by (rule power_int_increasing) auto

lemma powi2_less_imp: "(2::rat) powi a < 2 powi b \<Longrightarrow> a < b"
  using powi2_mono [of b a] by (cases "a < b") auto

lemma expo_unique:
  assumes "2 powi e \<le> \<bar>x\<bar>" and "\<bar>x\<bar> < 2 powi (e + 1)"
  shows "expo x = e"
proof -
  have "(0::rat) < 2 powi e" by simp
  from this assms(1) have "0 < \<bar>x\<bar>" by (rule less_le_trans)
  then have "x \<noteq> 0" by simp
  then have "2 powi expo x < (2::rat) powi (e + 1)" "2 powi e < (2::rat) powi (expo x + 1)"
    using expo_bounds [of x] assms by (auto intro: le_less_trans)
  then show ?thesis by (auto dest!: powi2_less_imp)
qed

section \<open>Rounding\<close>

lemma round_even_of_int [simp]: "round_even (of_int n) = n"
  by (simp add: round_even_def)

lemma round_even_error: "\<bar>of_int (round_even r) - r\<bar> \<le> 1 / 2"
  using floor_correct [of r] by (auto simp: round_even_def Let_def abs_if simp del: of_int_floor_le)

lemma round_even_mono:
  assumes "r \<le> s"
  shows "round_even r \<le> round_even s"
proof (cases "\<lfloor>r\<rfloor> = \<lfloor>s\<rfloor>")
  case True
  with assms show ?thesis by (auto simp: round_even_def Let_def)
next
  case False
  with floor_mono [OF assms] have "\<lfloor>r\<rfloor> + 1 \<le> \<lfloor>s\<rfloor>" by simp
  moreover have "round_even r \<le> \<lfloor>r\<rfloor> + 1" "\<lfloor>s\<rfloor> \<le> round_even s"
    by (simp_all add: round_even_def Let_def)
  ultimately show ?thesis by linarith
qed

lemma rnd_zero [simp]: "rnd f 0 = 0"
  by (simp add: rnd_def)

lemma round_even_minus: "round_even (- r) = - round_even r"
proof (cases "r \<in> \<int>")
  case True
  then obtain n where "r = of_int n" by (auto elim: Ints_cases)
  then show ?thesis using round_even_of_int [of "- n"] by simp
next
  case False
  then have "of_int \<lfloor>r\<rfloor> \<noteq> r" by (metis Ints_of_int)
  then have "of_int \<lfloor>r\<rfloor> < r" "r < of_int \<lfloor>r\<rfloor> + 1" using floor_correct [of r] by linarith+
  then have "\<lfloor>- r\<rfloor> = - \<lfloor>r\<rfloor> - 1" by (intro floor_unique) auto
  then show ?thesis by (auto simp: round_even_def Let_def)
qed

lemma expo_minus [simp]: "expo (- x) = expo x"
  by (simp add: expo_def)

lemma rnd_minus: "rnd f (- x) = - rnd f x"
  using round_even_minus [of "x / 2 powi quantum f x"] by (simp add: rnd_def quantum_def)

text \<open>A value with an exponent above the subnormal range loses at most half a unit in the last place.\<close>

lemma rnd_error_quantum:
  assumes "x \<noteq> 0"
  shows "\<bar>rnd f x - x\<bar> \<le> 2 powi quantum f x / 2"
proof -
  let ?q = "(2::rat) powi quantum f x"
  have "rnd f x - x = (of_int (round_even (x / ?q)) - x / ?q) * ?q"
    using assms by (simp add: rnd_def left_diff_distrib)
  then have "\<bar>rnd f x - x\<bar> = \<bar>of_int (round_even (x / ?q)) - x / ?q\<bar> * ?q"
    by (simp add: abs_mult)
  also have "\<dots> \<le> 1 / 2 * ?q" by (intro mult_right_mono round_even_error) simp
  finally show ?thesis by simp
qed

lemma rnd_error:
  assumes "2 powi (qmin f + int (prec f) - 1) \<le> \<bar>x\<bar>"
  shows "\<bar>rnd f x - x\<bar> \<le> \<bar>x\<bar> / 2 ^ prec f"
proof -
  have "(0::rat) < 2 powi (qmin f + int (prec f) - 1)" by simp
  from this assms have "0 < \<bar>x\<bar>" by (rule less_le_trans)
  then have x: "x \<noteq> 0" by simp
  have "2 powi (qmin f + int (prec f) - 1) < (2::rat) powi (expo x + 1)"
    using assms expo_bounds(2) [OF x] by (rule le_less_trans)
  then have "quantum f x = expo x - int (prec f) + 1"
    by (auto dest!: powi2_less_imp simp: quantum_def)
  then have "2 powi quantum f x / 2 = (2::rat) powi expo x / 2 ^ prec f"
    by (simp add: power_int_add power_int_diff)
  also have "\<dots> \<le> \<bar>x\<bar> / 2 ^ prec f"
    by (intro divide_right_mono expo_bounds(1) x) simp
  finally show ?thesis using rnd_error_quantum [OF x, of f] by linarith
qed

lemma prec_pos: "0 < prec f" "qmin f \<le> - int (prec f)"
  by (cases f; simp)+

text \<open>Integers up to two to the precision are represented exactly.\<close>

lemma rnd_int_exact:
  assumes "\<bar>n\<bar> < 2 ^ prec f"
  shows "rnd f (of_int n) = of_int n"
proof (cases "n = 0")
  case False
  let ?x = "of_int n :: rat"
  have x: "?x \<noteq> 0" using False by simp
  have "(2::rat) powi expo ?x \<le> \<bar>?x\<bar>" by (rule expo_bounds(1) [OF x])
  also have "\<dots> < 2 ^ prec f" using assms by (simp flip: of_int_abs of_int_power)
  finally have "(2::rat) powi expo ?x < 2 powi int (prec f)" by simp
  then have "expo ?x < int (prec f)" by (rule powi2_less_imp)
  then have "quantum f ?x \<le> 0" using prec_pos [of f] by (simp add: quantum_def)
  then obtain k where k: "quantum f ?x = - int k" by (metis int_nat_eq minus_le_iff minus_minus neg_le_0_iff_le nat_0_le)
  then have "?x / 2 powi quantum f ?x = of_int (n * 2 ^ k)"
    by (simp add: power_int_minus divide_simps)
  then have "round_even (?x / 2 powi quantum f ?x) = n * 2 ^ k"
    by (simp only: round_even_of_int)
  then show ?thesis using x by (simp add: rnd_def k power_int_minus)
qed simp

lemma fl_finite:
  assumes "\<bar>rnd f x\<bar> < 2 powi emax f"
  shows "fl f x = Fin (rnd f x)"
proof (cases "rnd f x = 0")
  case False
  have "2 powi expo (rnd f x) < (2::rat) powi emax f"
    using expo_bounds(1) [OF False] assms by (rule le_less_trans)
  then have "expo (rnd f x) < emax f" by (rule powi2_less_imp)
  then show ?thesis by (simp add: fl_def)
qed (simp add: fl_def)

lemma fl_int_exact:
  assumes "\<bar>n\<bar> < 2 ^ prec f"
  shows "fl_int f n = Fin (of_int n)"
proof -
  have "(of_int \<bar>n\<bar> :: rat) < of_int (2 ^ prec f)" using assms by (simp only: of_int_less_iff)
  also have "\<dots> \<le> 2 powi emax f"
    by (cases f; simp)
  finally show ?thesis
    unfolding fl_int_def using rnd_int_exact [OF assms] by (subst fl_finite) auto
qed

text \<open>The rounding error of a value of ordinary size, in the form the clients use.\<close>

lemma fl_error:
  assumes "2 powi (qmin f + int (prec f) - 1) \<le> \<bar>x\<bar>" and "\<bar>x\<bar> \<le> 2 powi (emax f - 1)"
  obtains r where "fl f x = Fin r" and "\<bar>r - x\<bar> \<le> \<bar>x\<bar> / 2 ^ prec f"
proof -
  have err: "\<bar>rnd f x - x\<bar> \<le> \<bar>x\<bar> / 2 ^ prec f" by (rule rnd_error [OF assms(1)])
  have "(0::rat) < 2 powi (emax f - 1)" by simp
  moreover have "\<bar>x\<bar> / 2 ^ prec f < 2 powi (emax f - 1)"
  proof -
    have "\<bar>x\<bar> / 2 ^ prec f \<le> 2 powi (emax f - 1) / 2 ^ prec f"
      using assms(2) by (intro divide_right_mono) auto
    also have "\<dots> < 2 powi (emax f - 1)" by (cases f) (simp_all add: field_simps)
    finally show ?thesis .
  qed
  ultimately have "\<bar>rnd f x\<bar> < 2 powi (emax f - 1) + 2 powi (emax f - 1)"
    using err assms(2) by linarith
  also have "\<dots> = 2 powi emax f" by (cases f) simp_all
  finally show thesis using err fl_finite that by blast
qed

end
