(* ===== verification/Config.thy ===== *)
theory Config
  imports Floats
begin

text \<open>
  \<open>iperf_common.h\<close> and \<open>iperf_common.cc\<close>: the roles, the protocol predicates, the interface
  address lookup, the report data, the configuration and its wire form.

  The operating system's interface list is a parameter of \<open>ReadIPAddress\<close>. Fields that the C++
  leaves uninitialised (\<open>TestInterval::start_seq\<close>) start at 0 here; the program writes them
  before it reads them.
\<close>

section \<open>Roles and protocols\<close>

datatype TestRole =
    ROLE_NONE | ROLE_SENDER | ROLE_RECEIVER | ROLE_FILE_SENDER | ROLE_FILE_RECEIVER | ROLE_OBSERVER

definition isSenderRole :: "TestRole \<Rightarrow> bool" where
  "isSenderRole role \<longleftrightarrow> role = ROLE_SENDER \<or> role = ROLE_FILE_SENDER"

definition isReceiverRole :: "TestRole \<Rightarrow> bool" where
  "isReceiverRole role \<longleftrightarrow> role = ROLE_RECEIVER \<or> role = ROLE_FILE_RECEIVER"

fun RoleString :: "TestRole \<Rightarrow> string" where
  "RoleString ROLE_SENDER = ''BATS sender''"
| "RoleString ROLE_RECEIVER = ''BATS receiver''"
| "RoleString ROLE_FILE_SENDER = ''BATS file sender''"
| "RoleString ROLE_FILE_RECEIVER = ''BATS file receiver''"
| "RoleString ROLE_OBSERVER = ''Observer''"
| "RoleString _ = ''unknown''"

text \<open>
  \<open>BATSTransMode\<close> has the underlying type \<open>uint8_t\<close>: the cast of an \<open>int\<close> keeps its low eight
  bits, so the first two comparisons are modulo 256 and the last one is not.
\<close>

definition BATSTransMode_of_int :: "int \<Rightarrow> octet" where
  "BATSTransMode_of_int protocol = word_of_int protocol"

definition BTP :: octet where "BTP = 0"
definition BRTP :: octet where "BRTP = 1"
definition BRCTP :: octet where "BRCTP = 2"
definition TRANSPARENT :: octet where "TRANSPARENT = 3"

definition IsSupportedProtocol :: "int \<Rightarrow> bool" where
  "IsSupportedProtocol protocol = True"

definition IsReliableProtocol :: "int \<Rightarrow> bool" where
  "IsReliableProtocol protocol \<longleftrightarrow>
     BATSTransMode_of_int protocol = BRTP \<or> BATSTransMode_of_int protocol = BRCTP \<or> protocol = 10"

section \<open>Interface addresses\<close>

text \<open>
  One entry of the list \<open>getifaddrs\<close> returns: its name, and, unless \<open>ifa_addr\<close> is null, whether
  the family is \<open>AF_INET\<close> and what \<open>inet_ntop\<close> makes of the address.
\<close>

record ifaddr =
  ifa_name :: string
  ifa_addr :: "(bool \<times> string option) option"

fun find_ipv4 :: "string \<Rightarrow> ifaddr list \<Rightarrow> string" where
  "find_ipv4 name [] = ''''"
| "find_ipv4 name (ifa # rest) =
     (case ifa_addr ifa of
        None \<Rightarrow> find_ipv4 name rest
      | Some (is_inet, text) \<Rightarrow>
          if ifa_name ifa = name \<and> is_inet
          then (case text of Some host_ip \<Rightarrow> host_ip | None \<Rightarrow> find_ipv4 name rest)
          else find_ipv4 name rest)"

definition ReadIPAddress :: "ifaddr list option \<Rightarrow> string \<Rightarrow> string" where
  "ReadIPAddress getifaddrs interface_name =
     (if interface_name = '''' then ''''
      else if interface_name = ''loopback'' \<or> interface_name = ''lo'' then ''127.0.0.1''
      else case getifaddrs of None \<Rightarrow> '''' | Some ifs \<Rightarrow> find_ipv4 interface_name ifs)"

section \<open>Reports\<close>

record TestInterval =
  start_seq :: u64
  bytes :: u64
  datagrams :: u64
  lost_datagrams :: int
  bitrate :: flt
  jitter :: flt
  loss :: flt

definition TestInterval_init :: TestInterval where
  "TestInterval_init = \<lparr>start_seq = 0, bytes = 0, datagrams = 0, lost_datagrams = 0,
     bitrate = Fin 0, jitter = Fin 0, loss = Fin 0\<rparr>"

text \<open>\<open>intervals[0]\<close> is the last snapshot, \<open>intervals[1]\<close> the last interval.\<close>

record TestReport =
  last_snapshot_time :: u64
  rep_interval :: flt
  snapshot_cnt :: int
  summary :: TestInterval
  LastInterval :: TestInterval
  LastSnapshot :: TestInterval

definition TestReport_init :: TestReport where
  "TestReport_init = \<lparr>last_snapshot_time = 0, rep_interval = Fin 1, snapshot_cnt = 0,
     summary = TestInterval_init, LastInterval = TestInterval_init, LastSnapshot = TestInterval_init\<rparr>"

record TestReportOfStream =
  stream_id :: int
  sender_report :: TestReport
  receiver_report :: TestReport

section \<open>Printing of quantities\<close>

definition digit_char :: "nat \<Rightarrow> char" where
  "digit_char d = char_of (48 + d)"

fun show_nat :: "nat \<Rightarrow> string" where
  "show_nat n = (if n < 10 then [digit_char n] else show_nat (n div 10) @ [digit_char (n mod 10)])"

declare show_nat.simps [simp del]

definition show_int :: "int \<Rightarrow> string" where
  "show_int n = (if n < 0 then ''-'' @ show_nat (nat (- n)) else show_nat (nat n))"

fun pad_zeros :: "nat \<Rightarrow> string \<Rightarrow> string" where
  "pad_zeros n s = replicate (n - length s) (CHR ''0'') @ s"

text \<open>\<open>std::fixed << std::setprecision(p)\<close>: the exact value rounded to \<open>p\<close> decimals, ties to even.\<close>

definition show_fixed :: "nat \<Rightarrow> flt \<Rightarrow> string" where
  "show_fixed p v =
     (case v of
        Fin x \<Rightarrow>
          (let k = nat (round_even (\<bar>x\<bar> * 10 ^ p));
               whole = show_nat (k div 10 ^ p); frac = pad_zeros p (show_nat (k mod 10 ^ p))
           in (if x < 0 then ''-'' else '''') @ whole @ (if p = 0 then '''' else ''.'' @ frac))
      | PInf \<Rightarrow> ''inf'' | NInf \<Rightarrow> ''-inf'' | NaN \<Rightarrow> ''nan'')"

definition KILO :: flt where "KILO = Fin 1000"
definition MEGA :: flt where "MEGA = Fin 1000000"
definition GIGA :: flt where "GIGA = Fin 1000000000"

definition get_bitrate_string :: "TestInterval \<Rightarrow> string" where
  "get_bitrate_string ti =
     (let bits_per_second = fmul Double (bitrate ti) (Fin 8)
      in if bits_per_second = Fin 0 then show_fixed 2 (Fin 0) @ '' bits/sec''
         else if \<not> fless bits_per_second GIGA \<and> bits_per_second \<noteq> NaN
         then show_fixed 2 (fdiv Double bits_per_second GIGA) @ '' Gbits/sec''
         else if \<not> fless bits_per_second MEGA \<and> bits_per_second \<noteq> NaN
         then show_fixed 2 (fdiv Double bits_per_second MEGA) @ '' Mbits/sec''
         else show_fixed 2 (fdiv Double bits_per_second KILO) @ '' Kbits/sec'')"

definition get_bytes_string :: "TestInterval \<Rightarrow> string" where
  "get_bytes_string ti =
     (let b = fl_int Double (uint (bytes ti))
      in if bytes ti = 0 then show_fixed 2 (Fin 0) @ '' Bytes''
         else if \<not> fless b GIGA then show_fixed 2 (fdiv Double b GIGA) @ '' GBytes''
         else if \<not> fless b MEGA then show_fixed 2 (fdiv Double b MEGA) @ '' MBytes''
         else show_fixed 2 (fdiv Double b KILO) @ '' KBytes'')"

section \<open>The configuration and its wire form\<close>

record TestConfig =
  interval :: flt
  time :: flt
  resolution :: flt
  num_streams :: int
  protocol :: int
  is_reverse_enabled :: bool
  is_compression_enabled :: bool
  is_debug_mode :: bool
  is_precise_time_enabled :: bool
  port :: int
  max_allowed_sending_rate :: int
  peer_host :: string
  files :: "string list"
  total_bytes_in_files :: int
  num_files :: int
  role :: TestRole

definition TestConfig_init :: TestConfig where
  "TestConfig_init = \<lparr>interval = Fin 1, time = Fin 10, resolution = Fin 1, num_streams = 1,
     protocol = 0, is_reverse_enabled = False, is_compression_enabled = False,
     is_debug_mode = False, is_precise_time_enabled = False, port = 5201,
     max_allowed_sending_rate = 0, peer_host = '''', files = [], total_bytes_in_files = 0,
     num_files = 0, role = ROLE_NONE\<rparr>"

text \<open>\<open>static_cast<uint32_t>(interval * 100)\<close> and its inverse \<open>n / 100.0f\<close>.\<close>

definition seconds_to_wire :: "flt \<Rightarrow> u32 res" where
  "seconds_to_wire x = to_u32 (fmul Single x (fl_int Single 100))"

definition seconds_of_wire :: "u32 \<Rightarrow> flt" where
  "seconds_of_wire n = fdiv Single (fl_int Single (uint n)) (Fin 100)"

definition Serialize :: "TestConfig \<Rightarrow> octet list \<Rightarrow> nat \<Rightarrow> (octet list \<times> nat) res" where
  "Serialize c to_buffer p =
     rbind (seconds_to_wire (interval c)) (\<lambda>i.
     rbind (store32 to_buffer p i) (\<lambda>b.
     rbind (seconds_to_wire (time c)) (\<lambda>t.
     rbind (store32 b (p + 4) t) (\<lambda>b.
     rbind (store8 b (p + 8) (word_of_int (protocol c))) (\<lambda>b.
     rbind (store8 b (p + 9) (if is_reverse_enabled c then 1 else 0)) (\<lambda>b.
     rbind (store16 b (p + 10) (word_of_int (port c))) (\<lambda>b.
     Inr (b, p + 12))))))))"

definition Deserialize :: "TestConfig \<Rightarrow> octet list \<Rightarrow> nat \<Rightarrow> TestConfig res" where
  "Deserialize c from_buffer p =
     rbind (load32 from_buffer p) (\<lambda>i.
     rbind (load32 from_buffer (p + 4)) (\<lambda>t.
     rbind (load8 from_buffer (p + 8)) (\<lambda>proto.
     rbind (load8 from_buffer (p + 9)) (\<lambda>rev.
     rbind (load16 from_buffer (p + 10)) (\<lambda>prt.
     Inr (c\<lparr>interval := seconds_of_wire i, time := seconds_of_wire t, protocol := uint proto,
            is_reverse_enabled := (rev \<noteq> 0), port := uint prt\<rparr>))))))"

section \<open>Lemmas\<close>

lemma roles_exclusive: "\<not> (isSenderRole r \<and> isReceiverRole r)"
  by (cases r) (auto simp: isSenderRole_def isReceiverRole_def)

lemma find_ipv4_from_list:
  "find_ipv4 name ifs \<noteq> '''' \<Longrightarrow>
     \<exists>ifa \<in> set ifs. ifa_name ifa = name \<and> ifa_addr ifa = Some (True, Some (find_ipv4 name ifs))"
  by (induction ifs) (auto split: option.splits if_splits)

text \<open>The seconds codec: the loss is the truncation to a hundredth plus two roundings.\<close>

lemma single_error:
  assumes "1 / 100 \<le> x" and "x \<le> 100000000"
  obtains r where "fl Single x = Fin r" and "\<bar>r - x\<bar> \<le> x / 2 ^ 24"
proof -
  have "(2::rat) powi (qmin Single + int (prec Single) - 1) \<le> 1 / 100" by (simp add: power_int_minus)
  then have "(2::rat) powi (qmin Single + int (prec Single) - 1) \<le> \<bar>x\<bar>" using assms by linarith
  moreover have "\<bar>x\<bar> \<le> 2 powi (emax Single - 1)"
  proof -
    have "(100000000::rat) \<le> 2 powi (emax Single - 1)" by simp
    then show ?thesis using assms by linarith
  qed
  ultimately obtain r where "fl Single x = Fin r" "\<bar>r - x\<bar> \<le> \<bar>x\<bar> / 2 ^ prec Single"
    by (rule fl_error)
  then show thesis using that [of r] assms by simp
qed

lemma seconds_wire_error:
  assumes "1 / 100 \<le> x" and "x \<le> 100000"
  obtains n y where "seconds_to_wire (Fin x) = Inr n" and "seconds_of_wire n = Fin y"
    and "\<bar>y - x\<bar> \<le> 1 / 100 + x / 2 ^ 22"
proof -
  have h: "fl_int Single 100 = Fin 100" using fl_int_exact [of 100 Single] by simp
  obtain r where r: "fl Single (x * 100) = Fin r" "\<bar>r - x * 100\<bar> \<le> x * 100 / 2 ^ 24"
    using single_error [of "x * 100"] assms by auto
  have r2: "r - x * 100 \<le> x * 100 / 2 ^ 24" "x * 100 - r \<le> x * 100 / 2 ^ 24" using r(2) by linarith+
  then have rb: "0 \<le> r" "r < 2 ^ 24 - 1" using assms by simp_all
  define m where "m = \<lfloor>r\<rfloor>"
  have m: "0 \<le> m" "of_int m \<le> r" "r < of_int m + 1" using rb floor_correct [of r] by (simp_all add: m_def)
  have "rat_of_int m < of_int (2 ^ 24)" using m(2) rb(2) by simp
  then have m24: "m < 2 ^ 24" by (simp only: of_int_less_iff)
  have enc: "seconds_to_wire (Fin x) = Inr (word_of_int m)"
    using m m24 rb by (simp add: seconds_to_wire_def h fmul_def r(1) to_u32_def fcast_def trunc0_def m_def)
  have "uint (word_of_int m :: u32) = m"
    using m m24 by (simp add: uint_word_of_int)
  then have dec: "seconds_of_wire (word_of_int m) = fl Single (of_int m / 100)"
    using fl_int_exact [of m Single] m m24 by (simp add: seconds_of_wire_def fdiv_def)
  show thesis
  proof (cases "m = 0")
    case True
    have "seconds_of_wire (word_of_int m) = Fin 0" using dec True by (simp add: fl_def)
    moreover have "\<bar>0 - x\<bar> \<le> 1 / 100 + x / 2 ^ 22" using True m r(2) assms by (simp add: abs_le_iff)
    ultimately show ?thesis using enc that by blast
  next
    case False
    then have "(1::rat) \<le> of_int m" using m(1) by simp
    then obtain y where y: "fl Single (of_int m / 100) = Fin y" "\<bar>y - of_int m / 100\<bar> \<le> of_int m / 100 / 2 ^ 24"
      using single_error [of "of_int m / 100"] m(2) rb(2) by auto
    have "y - of_int m / 100 \<le> of_int m / 100 / 2 ^ 24" "of_int m / 100 - y \<le> of_int m / 100 / 2 ^ 24"
      using y(2) by linarith+
    then have "\<bar>y - x\<bar> \<le> 1 / 100 + x / 2 ^ 22"
      unfolding abs_le_iff using m(2,3) r2 assms by simp
    then show ?thesis using enc dec y(1) that by auto
  qed
qed

text \<open>Serialising needs twelve bytes and touches nothing else.\<close>

lemma Serialize_ok:
  assumes "seconds_to_wire (interval c) = Inr i" and "seconds_to_wire (time c) = Inr t"
    and "p + 12 \<le> length b"
  shows "\<exists>b'. Serialize c b p = Inr (b', p + 12) \<and> length b' = length b
    \<and> load32 b' p = Inr i \<and> load32 b' (p + 4) = Inr t
    \<and> load8 b' (p + 8) = Inr (word_of_int (protocol c))
    \<and> load8 b' (p + 9) = Inr (if is_reverse_enabled c then 1 else 0)
    \<and> load16 b' (p + 10) = Inr (word_of_int (port c))
    \<and> (\<forall>q n. q + n \<le> p \<or> p + 12 \<le> q \<longrightarrow> peek b' q n = peek b q n)"
  using assms by (auto simp: Serialize_def buf_simps)

lemma Deserialize_ok:
  assumes "p + 12 \<le> length b"
  shows "\<exists>c'. Deserialize c b p = Inr c'"
  using assms by (simp add: Deserialize_def load_defs peek_ok)

end
