(* ===== verification/Wire.thy ===== *)
theory Wire
  imports Config
begin

text \<open>
  The four wire structures of the tool, at the offsets the x86-64 ABI gives them:
  \<open>iperf_control_data\<close> (\<open>iperf_test_api.h\<close>), \<open>iperf_test_header\<close> (\<open>iperf_stream.cc\<close>),
  \<open>file_bk_header\<close> and \<open>file_meta\<close> (\<open>iperf_file_transfer.cc\<close>, packed). A \<open>reinterpret_cast\<close>
  read of a structure is a bounds-checked read of its fields.
\<close>

section \<open>The control message header\<close>

definition bats_iperf_magic_code :: u64 where
  "bats_iperf_magic_code = 0xa1b2c3d4a5b6c7d8"

record iperf_control_data =
  ctl_magic :: u64
  ctl_test_id :: u32
  ctl_action_code :: octet
  ctl_num_of_streams :: octet
  ctl_param0 :: u32
  ctl_param1 :: u32
  ctl_param2 :: u32
  ctl_param3 :: u32

definition sizeof_control :: nat where "sizeof_control = 32"

definition zero_control :: iperf_control_data where
  "zero_control = \<lparr>ctl_magic = 0, ctl_test_id = 0, ctl_action_code = 0, ctl_num_of_streams = 0,
     ctl_param0 = 0, ctl_param1 = 0, ctl_param2 = 0, ctl_param3 = 0\<rparr>"

definition write_control :: "octet list \<Rightarrow> iperf_control_data \<Rightarrow> octet list res" where
  "write_control b h =
     rbind (store64 b 0 (ctl_magic h)) (\<lambda>b.
     rbind (store32 b 8 (ctl_test_id h)) (\<lambda>b.
     rbind (store8 b 12 (ctl_action_code h)) (\<lambda>b.
     rbind (store8 b 13 (ctl_num_of_streams h)) (\<lambda>b.
     rbind (store32 b 16 (ctl_param0 h)) (\<lambda>b.
     rbind (store32 b 20 (ctl_param1 h)) (\<lambda>b.
     rbind (store32 b 24 (ctl_param2 h)) (\<lambda>b.
     store32 b 28 (ctl_param3 h))))))))"

definition read_control :: "octet list \<Rightarrow> iperf_control_data res" where
  "read_control b =
     rbind (load64 b 0) (\<lambda>m.
     rbind (load32 b 8) (\<lambda>i.
     rbind (load8 b 12) (\<lambda>a.
     rbind (load8 b 13) (\<lambda>n.
     rbind (load32 b 16) (\<lambda>p0.
     rbind (load32 b 20) (\<lambda>p1.
     rbind (load32 b 24) (\<lambda>p2.
     rbind (load32 b 28) (\<lambda>p3.
     Inr \<lparr>ctl_magic = m, ctl_test_id = i, ctl_action_code = a, ctl_num_of_streams = n,
          ctl_param0 = p0, ctl_param1 = p1, ctl_param2 = p2, ctl_param3 = p3\<rparr>))))))))"

section \<open>The data block header\<close>

record iperf_test_header =
  th_magic :: u64
  th_stream_identifier :: u64
  th_seq :: u64
  th_time :: u64
  th_grp_id :: bool
  th_last :: bool
  th_ack :: bool
  th_has_interval :: bool

definition sizeof_test_header :: nat where "sizeof_test_header = 40"

definition read_test_header :: "octet list \<Rightarrow> iperf_test_header res" where
  "read_test_header b =
     rbind (load64 b 0) (\<lambda>m.
     rbind (load64 b 8) (\<lambda>i.
     rbind (load64 b 16) (\<lambda>s.
     rbind (load64 b 24) (\<lambda>t.
     rbind (load8 b 32) (\<lambda>f.
     Inr \<lparr>th_magic = m, th_stream_identifier = i, th_seq = s, th_time = t, th_grp_id = bit f 0,
          th_last = bit f 1, th_ack = bit f 2, th_has_interval = bit f 3\<rparr>)))))"

text \<open>One assignment to a bit-field of the header leaves the other bits of the byte alone.\<close>

definition set_header_flag :: "nat \<Rightarrow> bool \<Rightarrow> octet list \<Rightarrow> octet list res" where
  "set_header_flag n v b = rbind (load8 b 32) (\<lambda>f. store8 b 32 (put_bit n v f))"

abbreviation set_grp_id :: "bool \<Rightarrow> octet list \<Rightarrow> octet list res" where
  "set_grp_id \<equiv> set_header_flag 0"

abbreviation set_last :: "bool \<Rightarrow> octet list \<Rightarrow> octet list res" where
  "set_last \<equiv> set_header_flag 1"

abbreviation set_ack :: "bool \<Rightarrow> octet list \<Rightarrow> octet list res" where
  "set_ack \<equiv> set_header_flag 2"

abbreviation set_has_interval :: "bool \<Rightarrow> octet list \<Rightarrow> octet list res" where
  "set_has_interval \<equiv> set_header_flag 3"

section \<open>The file block header and the file meta data\<close>

definition bats_iperf_file_code :: u64 where
  "bats_iperf_file_code = 0xa1b2ffff626174"

definition max_hash_length :: nat where "max_hash_length = 64"
definition max_name_length :: nat where "max_name_length = 256"
definition max_extension_length :: nat where "max_extension_length = 16"

record file_bk_header =
  syn :: bool
  fin :: bool
  has_sum :: bool
  has_comp :: bool
  file_seq :: nat

definition sizeof_bk_header :: nat where "sizeof_bk_header = 1"

definition enc_bk_header :: "file_bk_header \<Rightarrow> octet" where
  "enc_bk_header h =
     put_bit 0 (syn h) (put_bit 1 (fin h) (put_bit 2 (has_sum h) (put_bit 3 (has_comp h)
       (push_bit 4 (word_of_nat (file_seq h))))))"

definition dec_bk_header :: "octet \<Rightarrow> file_bk_header" where
  "dec_bk_header w = \<lparr>syn = bit w 0, fin = bit w 1, has_sum = bit w 2, has_comp = bit w 3,
     file_seq = unat (drop_bit 4 w)\<rparr>"

record file_meta =
  fm_magic :: u64
  fm_stream_identifier :: u64
  fm_compression :: u64
  fm_reserved :: u64
  fm_file_length :: u64
  fm_sha256sum :: "octet list"
  fm_file_name :: "octet list"
  fm_file_extension :: "octet list"

definition sizeof_file_meta :: nat where "sizeof_file_meta = 360"

text \<open>The three bit-fields share one 64-bit unit: 3 bits, 5 bits, 56 bits from the low end.\<close>

definition pack_length :: "u64 \<Rightarrow> u64 \<Rightarrow> u64 \<Rightarrow> u64" where
  "pack_length cmp rsv len =
     take_bit 3 cmp OR push_bit 3 (take_bit 5 rsv) OR push_bit 8 (take_bit 56 len)"

definition unpack_length :: "u64 \<Rightarrow> u64" where
  "unpack_length w = drop_bit 8 w"

definition enc_file_meta :: "file_meta \<Rightarrow> octet list" where
  "enc_file_meta m =
     enc64 (fm_magic m) @ enc64 (fm_stream_identifier m) @
     enc64 (pack_length (fm_compression m) (fm_reserved m) (fm_file_length m)) @
     fm_sha256sum m @ fm_file_name m @ fm_file_extension m"

section \<open>Lemmas\<close>

lemma write_control_ok:
  assumes "32 \<le> length b"
  shows "\<exists>b'. write_control b h = Inr b' \<and> length b' = length b \<and> read_control b' = Inr h
    \<and> (\<forall>q. 32 \<le> q \<longrightarrow> q < length b \<longrightarrow> b' ! q = b ! q)"
  using assms by (auto simp: write_control_def read_control_def buf_simps)

lemma read_control_cong:
  "(\<And>q n. q + n \<le> 32 \<Longrightarrow> peek b' q n = peek b q n) \<Longrightarrow> read_control b' = read_control b"
  by (simp add: read_control_def load_defs)

lemma read_control_defined: "32 \<le> length b \<Longrightarrow> \<exists>h. read_control b = Inr h"
  by (simp add: read_control_def load_defs peek_ok)

lemma read_test_header_defined: "(\<exists>h. read_test_header b = Inr h) \<longleftrightarrow> 33 \<le> length b"
proof
  assume "\<exists>h. read_test_header b = Inr h"
  then show "33 \<le> length b"
    by (auto simp: read_test_header_def load_defs rbind_eq_Inr rmap_eq_Inr peek_def split: if_splits)
next
  assume "33 \<le> length b"
  then show "\<exists>h. read_test_header b = Inr h"
    by (simp add: read_test_header_def load_defs peek_ok)
qed

lemma dec_enc_bk_header:
  assumes "file_seq h < 16"
  shows "dec_bk_header (enc_bk_header h) = h"
proof -
  let ?w = "enc_bk_header h"
  have low: "bit (push_bit 4 x :: octet) n = (4 \<le> n \<and> n < 8 \<and> bit x (n - 4))" for n x
    by (auto simp: bit_simps)
  have "drop_bit 4 ?w = word_of_nat (file_seq h)"
  proof (rule bit_word_eqI)
    fix n assume "n < LENGTH(8)"
    have "file_seq h = take_bit 4 (file_seq h)"
      using assms by (simp add: take_bit_nat_eq_self)
    then have hi: "bit (file_seq h) n \<Longrightarrow> n < 4" by (metis bit_take_bit_iff)
    have "bit (drop_bit 4 ?w) n \<longleftrightarrow> n < 4 \<and> bit (file_seq h) n"
      by (auto simp: bit_drop_bit_eq enc_bk_header_def bit_put_bit bit_simps)
    then show "bit (drop_bit 4 ?w) n = bit (word_of_nat (file_seq h) :: octet) n"
      using hi by (auto simp: bit_simps)
  qed
  then have "unat (drop_bit 4 ?w) = file_seq h"
    using assms by (simp add: unat_of_nat)
  then show ?thesis
    by (simp add: dec_bk_header_def enc_bk_header_def bit_put_bit)
qed

lemma unpack_pack_length:
  assumes "unat len < 2 ^ 56"
  shows "unpack_length (pack_length cmp rsv len) = len"
proof (rule bit_word_eqI)
  fix n assume n: "n < LENGTH(64)"
  have "unat (take_bit 56 len) = unat len"
    using assms by (simp add: unsigned_take_bit_eq take_bit_nat_eq_self)
  then have "take_bit 56 len = len" by (simp add: word_unat_eq_iff)
  then have "bit len n \<Longrightarrow> n < 56" by (metis bit_take_bit_iff)
  then show "bit (unpack_length (pack_length cmp rsv len)) n = bit len n"
    using n by (auto simp: unpack_length_def pack_length_def bit_simps)
qed

lemma length_enc_file_meta:
  "length (fm_sha256sum m) = 64 \<Longrightarrow> length (fm_file_name m) = 256 \<Longrightarrow> length (fm_file_extension m) = 16 \<Longrightarrow>
     length (enc_file_meta m) = 360"
  by (simp add: enc_file_meta_def)

end
