(* ===== verification/Report.thy ===== *)
theory Report
  imports Wire
begin

text \<open>
  The report arithmetic of \<open>iperf_stream.cc\<close>: taking a snapshot, generating the two summaries,
  the wire forms of a stream report and of an interval, and the printed lines. These functions
  work on \<open>TestReport\<close> values; \<open>Iperf_Stream\<close> applies them to a stream.
\<close>

section \<open>Snapshots\<close>

definition interval_rate :: "u64 \<Rightarrow> u64 \<Rightarrow> flt" where
  "interval_rate nbytes ms =
     (let rate = fdiv Double (fl_int Double (uint nbytes)) (fdiv Double (fl_int Double (uint ms)) (Fin 1000))
      in fdiv Double (fround Double (fmul Double rate (Fin 100))) (Fin 100))"

definition SnapshotRxTxReport :: "TestReport \<Rightarrow> u64 \<Rightarrow> u64 \<Rightarrow> TestReport" where
  "SnapshotRxTxReport r current ms =
     (let s = summary r; snap = LastSnapshot r;
          new_interval = (LastInterval r)
            \<lparr>bitrate := interval_rate (bytes s - bytes snap) ms,
             bytes := bytes s - bytes snap,
             datagrams := datagrams s - datagrams snap,
             start_seq := datagrams snap\<rparr>;
          new_snap = snap\<lparr>bytes := bytes s, datagrams := datagrams s, jitter := jitter s\<rparr>
      in r\<lparr>LastInterval := new_interval, LastSnapshot := new_snap,
           last_snapshot_time := current, snapshot_cnt := snapshot_cnt r + 1\<rparr>)"

text \<open>\<open>std::llabs\<close> of the difference of two clock values read as \<open>int64_t\<close>.\<close>

definition elapsed_ms :: "u64 \<Rightarrow> u64 \<Rightarrow> int" where
  "elapsed_ms current last_time = \<bar>sint current - sint last_time\<bar>"

section \<open>Summaries\<close>

definition summary_rate :: "TestReport \<Rightarrow> flt \<Rightarrow> flt" where
  "summary_rate r ival =
     fdiv Double (fl_int Double (uint (bytes (summary r))))
                 (fmul Single (fl_int Single (snapshot_cnt r)) ival)"

definition GenSendSummary :: "TestConfig \<Rightarrow> TestReportOfStream \<Rightarrow> TestReportOfStream" where
  "GenSendSummary c rep =
     (let r = sender_report rep
      in rep\<lparr>sender_report := r\<lparr>summary := (summary r)\<lparr>bitrate := summary_rate r (interval c)\<rparr>\<rparr>\<rparr>)"

definition GenReceiveSummary :: "TestConfig \<Rightarrow> TestReportOfStream \<Rightarrow> TestReportOfStream" where
  "GenReceiveSummary c rep =
     (let r = receiver_report rep; sent = datagrams (summary (sender_report rep));
          diff = sint (sent - datagrams (summary r));
          lost = (if diff < 0 then 0 else diff);
          s = (summary r)\<lparr>bitrate := summary_rate r (interval c), lost_datagrams := lost,
                datagrams := sent,
                loss := fdiv Double (fl_int Double lost) (fl_int Double (uint sent))\<rparr>
      in rep\<lparr>receiver_report := r\<lparr>summary := s\<rparr>\<rparr>)"

section \<open>Wire forms\<close>

definition rate_to_wire :: "flt \<Rightarrow> u64 res" where
  "rate_to_wire x = to_u64 (fmul Double x (Fin 100))"

definition rate_of_wire :: "u64 \<Rightarrow> flt" where
  "rate_of_wire n = fdiv Double (fl_int Double (uint n)) (Fin 100)"

definition write_report :: "u64 \<Rightarrow> TestReport \<Rightarrow> octet list \<Rightarrow> nat \<Rightarrow> (octet list \<times> nat) res" where
  "write_report ident r to_buffer p =
     rbind (store64 to_buffer p ident) (\<lambda>b.
     rbind (store64 b (p + 8) (bytes (summary r))) (\<lambda>b.
     rbind (store64 b (p + 16) (datagrams (summary r))) (\<lambda>b.
     rbind (rate_to_wire (bitrate (summary r))) (\<lambda>w.
     rbind (store64 b (p + 24) w) (\<lambda>b.
     Inr (b, p + 32))))))"

definition read_report :: "TestReport \<Rightarrow> octet list \<Rightarrow> nat \<Rightarrow> (TestReport \<times> nat) res" where
  "read_report r from_buffer p =
     rbind (load64 from_buffer p) (\<lambda>nb.
     rbind (load64 from_buffer (p + 8)) (\<lambda>nd.
     rbind (load64 from_buffer (p + 16)) (\<lambda>w.
     Inr (r\<lparr>summary := (summary r)\<lparr>bytes := nb, datagrams := nd, bitrate := rate_of_wire w\<rparr>\<rparr>, p + 24))))"

definition SerializeInterval :: "octet list \<Rightarrow> nat \<Rightarrow> TestInterval \<Rightarrow> (octet list \<times> nat) res" where
  "SerializeInterval to_buffer p itv =
     rbind (store64 to_buffer p (bytes itv)) (\<lambda>b.
     rbind (store64 b (p + 8) (datagrams itv)) (\<lambda>b.
     rbind (store64 b (p + 16) (start_seq itv)) (\<lambda>b.
     rbind (rate_to_wire (bitrate itv)) (\<lambda>w.
     rbind (store64 b (p + 24) w) (\<lambda>b.
     Inr (b, p + 32))))))"

definition DeserializeInterval :: "octet list \<Rightarrow> nat \<Rightarrow> TestInterval res" where
  "DeserializeInterval from_buffer p =
     rbind (load64 from_buffer p) (\<lambda>nb.
     rbind (load64 from_buffer (p + 8)) (\<lambda>nd.
     rbind (load64 from_buffer (p + 16)) (\<lambda>sq.
     rbind (load64 from_buffer (p + 24)) (\<lambda>w.
     Inr (TestInterval_init\<lparr>bytes := nb, datagrams := nd, start_seq := sq, bitrate := rate_of_wire w\<rparr>)))))"

section \<open>Printed lines\<close>

text \<open>
  \<open>stamp\<close> is the text of the wall clock and the uptime that the precise-time option prints first.
\<close>

definition PrintLastInterval_text :: "TestInterval \<Rightarrow> int \<Rightarrow> flt \<Rightarrow> int \<Rightarrow> bool \<Rightarrow> string \<Rightarrow> string" where
  "PrintLastInterval_text last_interval sid ival num precise stamp =
     (if precise then stamp else '''') @
     ''[ '' @ show_int sid @ '']  '' @
     show_fixed 2 (fmul Single (fl_int Single (num - 1)) ival) @ ''-'' @
     show_fixed 2 (fmul Single (fl_int Single num) ival) @ '' sec   '' @
     get_bytes_string last_interval @ ''  '' @ get_bitrate_string last_interval @ ''  '' @
     show_fixed 3 (jitter last_interval) @ '' ms   0/'' @ show_nat (unat (datagrams last_interval)) @
     '' (0%)'' @ [CHR 0x0A]"

definition PrintSummary_text :: "TestInterval \<Rightarrow> string \<Rightarrow> int \<Rightarrow> string" where
  "PrintSummary_text s who sid =
     ''[ '' @ show_int sid @ '']  .00-.00  sec   '' @ get_bytes_string s @ ''  '' @
     get_bitrate_string s @ ''  '' @ show_fixed 3 (jitter s) @ '' ms   '' @
     show_int (lost_datagrams s) @ ''/'' @ show_nat (unat (datagrams s)) @ '' ('' @
     show_fixed 1 (fmul Double (loss s) (Fin 100)) @ ''%) '' @ who @ [CHR 0x0A]"

section \<open>Lemmas\<close>

lemma SnapshotRxTxReport_simps [simp]:
  "summary (SnapshotRxTxReport r t ms) = summary r"
  "snapshot_cnt (SnapshotRxTxReport r t ms) = snapshot_cnt r + 1"
  "last_snapshot_time (SnapshotRxTxReport r t ms) = t"
  "bytes (LastSnapshot (SnapshotRxTxReport r t ms)) = bytes (summary r)"
  "datagrams (LastSnapshot (SnapshotRxTxReport r t ms)) = datagrams (summary r)"
  "bytes (LastInterval (SnapshotRxTxReport r t ms)) = bytes (summary r) - bytes (LastSnapshot r)"
  "datagrams (LastInterval (SnapshotRxTxReport r t ms)) = datagrams (summary r) - datagrams (LastSnapshot r)"
  "start_seq (LastInterval (SnapshotRxTxReport r t ms)) = datagrams (LastSnapshot r)"
  by (simp_all add: SnapshotRxTxReport_def Let_def)

lemma write_report_ok:
  assumes "rate_to_wire (bitrate (summary r)) = Inr w" and "p + 32 \<le> length b"
  shows "\<exists>b'. write_report ident r b p = Inr (b', p + 32) \<and> length b' = length b
    \<and> load64 b' p = Inr ident \<and> load64 b' (p + 8) = Inr (bytes (summary r))
    \<and> load64 b' (p + 16) = Inr (datagrams (summary r)) \<and> load64 b' (p + 24) = Inr w
    \<and> (\<forall>q n. q + n \<le> p \<or> p + 32 \<le> q \<longrightarrow> peek b' q n = peek b q n)"
  using assms by (auto simp: write_report_def buf_simps)

lemma write_report_overrun:
  assumes "length b < p + 32"
  shows "\<exists>e. write_report ident r b p = Inl e"
proof (cases "write_report ident r b p")
  case (Inr a)
  then have "p + 32 \<le> length b"
    by (auto simp: write_report_def rbind_eq_Inr store64_def poke_eq_Inr length_overwrite)
  with assms show ?thesis by simp
qed simp

lemma SerializeInterval_ok:
  assumes "rate_to_wire (bitrate i) = Inr w" and "p + 32 \<le> length b"
  shows "\<exists>b'. SerializeInterval b p i = Inr (b', p + 32) \<and> length b' = length b
    \<and> DeserializeInterval b' p = Inr (TestInterval_init\<lparr>bytes := bytes i, datagrams := datagrams i,
         start_seq := start_seq i, bitrate := rate_of_wire w\<rparr>)
    \<and> (\<forall>q n. q + n \<le> p \<or> p + 32 \<le> q \<longrightarrow> peek b' q n = peek b q n)
    \<and> (\<forall>q. q < p \<or> p + 32 \<le> q \<longrightarrow> q < length b \<longrightarrow> b' ! q = b ! q)"
  using assms by (auto simp: SerializeInterval_def DeserializeInterval_def buf_simps)

lemma SerializeInterval_frame:
  assumes "SerializeInterval b p i = Inr (b', p')"
  shows "length b' = length b \<and> p' = p + 32
    \<and> (\<forall>q n. q + n \<le> p \<or> p + 32 \<le> q \<longrightarrow> peek b' q n = peek b q n)
    \<and> (\<forall>q. q < p \<or> p + 32 \<le> q \<longrightarrow> q < length b \<longrightarrow> b' ! q = b ! q)"
  using assms by (auto simp: SerializeInterval_def rbind_eq_Inr store64_def poke_eq_Inr buf_simps)

end
