(* ===== verification/Bats_Api.thy ===== *)
theory Bats_Api
  imports Wire
begin

text \<open>
  The vocabulary of the BATS protocol library (\<open>include/cpp\<close>): events, flags, the
  configuration. The library itself is not part of the repository; a connection is an opaque
  handle, and what a call of it returns is an argument of the model.
\<close>

datatype BatsListenEvent =
    BATS_LISTEN_NONE | BATS_LISTEN_NEW_CONNECTION | BATS_LISTEN_FAILED | BATS_LISTEN_SUCCESS
  | BATS_LISTEN_ACCEPTED_ERROR | BATS_LISTEN_ALREADY_IN_LISTEN | BATS_LISTEN_STOPPED

datatype BatsConnEvent =
    BATS_CONNECTION_NONE | BATS_CONNECTION_FAILED | BATS_CONNECTION_ESTABLISHED
  | BATS_CONNECTION_TIMEOUT | BATS_CONNECTION_SHUTDOWN_BY_PEER | BATS_CONNECTION_WRITABLE
  | BATS_CONNECTION_DATA_RECEIVED | BATS_CONNECTION_SEND_COMPLETE
  | BATS_CONNECTION_SEND_DATA_ERROR | BATS_CONNECTION_BUFFER_FULL | BATS_CONNECTION_CLOSED
  | BATS_CONNECTION_ERROR | BATS_CONNECTION_ALREADY_CONNECTED
  | BATS_CONNECTION_IDEAL_BUFFER_LENGTH | BATS_CONNECTION_ALL_DATA_ACKED

datatype BatsSendFlag = BATS_SEND_FLAG_NONE | BATS_SEND_FLAG_FIN

datatype BATSFrameType = FRAME_TRANSPARENT | BATS_HEADER_MIN | BATS_HEADER_V1 | BATS_HEADER_V0

datatype BATSCongestionControl = CC_None | CC_BBR | CC_BBRv2 | CC_BBRv3 | CC_GCC

datatype BATSLogLevel = LOG_TRACE | LOG_DEBUG | LOG_INFO | LOG_WARN | LOG_ERROR

type_synonym conn = nat

record BatsConfiguration =
  log_level :: BATSLogLevel
  transport_mode :: octet
  frame_type :: BATSFrameType
  congestion_control :: BATSCongestionControl
  cert_file :: string
  key_file :: string
  local_addr :: string
  remote_addr :: string
  local_port :: int
  remote_port :: int
  connection_timeout :: int
  bc_compression :: bool
  bc_encryption :: bool

definition BatsConfiguration_init :: BatsConfiguration where
  "BatsConfiguration_init = \<lparr>log_level = LOG_INFO, transport_mode = BRTP,
     frame_type = BATS_HEADER_V1, congestion_control = CC_BBR, cert_file = '''', key_file = '''',
     local_addr = ''127.0.0.1'', remote_addr = ''127.0.0.1'', local_port = 13475,
     remote_port = 13475, connection_timeout = 2000, bc_compression = False,
     bc_encryption = True\<rparr>"

definition bats_default_cert_file :: string where
  "bats_default_cert_file = ''/etc/bats-protocol/server.cert''"

definition bats_default_key_file :: string where
  "bats_default_key_file = ''/etc/bats-protocol/server.key''"

text \<open>\<open>config.interval * config.time * 1000\<close>, a \<open>float\<close> assigned to an \<open>int\<close>.\<close>

definition timeout_of :: "TestConfig \<Rightarrow> int res" where
  "timeout_of c = to_i32 (fmul Single (fmul Single (interval c) (time c)) (fl_int Single 1000))"

end
