(* ===== verification/Iperf_Stream.thy ===== *)
theory Iperf_Stream
  imports Report Bats_Api
begin

text \<open>
  \<open>IperfStream\<close> (\<open>iperf_stream.h\<close>, \<open>iperf_stream.cc\<close>): one data stream of a test, on either
  side. Its fields are the fields of the record \<open>IperfStream\<close>; what it does to the outside
  (calls of \<open>SendData\<close>, \<open>StartConnect\<close>, \<open>StopConnection\<close>, printed text) is appended to the
  field \<open>out\<close>.

  The sequence recorder, the ring comparison and the flow shaper are code outside the repository
  (\<open>src/util\<close>): they are the record \<open>stream_lib\<close> that the operations take. The two clocks and
  the result of \<open>SendData\<close> are arguments of each step.

  The sending thread runs concurrently with the connection callbacks and the polling thread. It
  is a program counter (\<open>thread\<close>) and a step function; one step runs from one read of the shared
  flags to the next. All interleavings of its steps with the other operations are the runs of
  \<open>stream_step\<close>.
\<close>

section \<open>Data\<close>

datatype StreamState = STREAM_NONE | STREAM_START | STREAM_STOP | STREAM_DONE

datatype ConnectionState = CONN_NONE | CONN_CONNECTING | CONN_CONNECTED | CONN_DISCONNECTED

text \<open>
  Where the sending thread is: not created, entered, at the head of its loop, waiting for the
  connection to become writable, about to fill and send a block, retrying a block of the given
  length, about to send FIN, retrying FIN, returned.
\<close>

datatype thread_pc =
    T_None | T_Entered | T_Loop | T_Wait | T_Block | T_Retry int | T_Fin | T_FinRetry | T_Exited

datatype stream_out =
    Sent "octet list" BatsSendFlag bool
  | Connect string u16
  | StopConn "conn option"
  | SetCallback
  | Notify
  | Print string

record ('r, 'f) stream_lib =
  Record :: "u64 \<Rightarrow> 'r \<Rightarrow> 'r"
  Has :: "u64 \<Rightarrow> 'r \<Rightarrow> bool"
  Reset :: "'r \<Rightarrow> 'r"
  MaxSeqRecorded :: "'r \<Rightarrow> u64"
  RecordedNumInRange :: "u64 \<Rightarrow> u64 \<Rightarrow> 'r \<Rightarrow> u64"
  is_less_than_in_half_ring :: "u64 \<Rightarrow> u64 \<Rightarrow> bool"
  is_bandwidth_limit_hit :: "u64 \<Rightarrow> 'f \<Rightarrow> bool"
  update_bytes_counter :: "int \<Rightarrow> 'f \<Rightarrow> 'f"

record clock =
  mono_ms :: u64
  wall_ms :: u64
  stamp :: string

record ('r, 'f) IperfStream =
  config :: TestConfig
  stream_identifier :: u64
  is_sum_printed :: bool
  is_sum_received :: bool
  is_fin_received :: bool
  is_fin_acked :: bool
  is_writable :: bool
  has_err_in_send :: bool
  is_stopped :: bool
  conn_state :: ConnectionState
  state :: StreamState
  connector :: bool
  connect_retry_cnt :: int
  report :: TestReportOfStream
  data_conn :: "conn option"
  iperf_data :: "octet list"
  ideal_length :: int
  last_grp_id :: int
  seq_of_last_changed_grp_id :: u64
  recv_seq_recorder :: 'r
  diff_s_r_list :: "int list"
  is_first_jitter_calculation :: bool
  flow_shaper :: "'f option"
  thread :: thread_pc
  thread_grp_id :: bool
  out :: "stream_out list"

definition max_bats_iperf_buffer_for_rc :: nat where "max_bats_iperf_buffer_for_rc = 60000000"
definition max_bats_iperf_buffer :: nat where "max_bats_iperf_buffer = 150000"
definition iperf_char :: octet where "iperf_char = 0x77"
definition iperf_stream_seq_reorder_threshold :: u64 where "iperf_stream_seq_reorder_threshold = 128"
definition max_connect_retry :: int where "max_connect_retry = 3"

text \<open>Shorthands for updates deep in the record.\<close>

definition emit :: "stream_out \<Rightarrow> ('r, 'f) IperfStream \<Rightarrow> ('r, 'f) IperfStream" where
  "emit x s = s\<lparr>out := out s @ [x]\<rparr>"

definition emit_calls :: "octet list \<Rightarrow> BatsSendFlag \<Rightarrow> bool list \<Rightarrow> ('r, 'f) IperfStream \<Rightarrow> ('r, 'f) IperfStream" where
  "emit_calls d flag results s = s\<lparr>out := out s @ map (Sent d flag) results\<rparr>"

definition upd_sender :: "(TestReport \<Rightarrow> TestReport) \<Rightarrow> ('r, 'f) IperfStream \<Rightarrow> ('r, 'f) IperfStream" where
  "upd_sender f s = s\<lparr>report := (report s)\<lparr>sender_report := f (sender_report (report s))\<rparr>\<rparr>"

definition upd_receiver :: "(TestReport \<Rightarrow> TestReport) \<Rightarrow> ('r, 'f) IperfStream \<Rightarrow> ('r, 'f) IperfStream" where
  "upd_receiver f s = s\<lparr>report := (report s)\<lparr>receiver_report := f (receiver_report (report s))\<rparr>\<rparr>"

abbreviation tx :: "('r, 'f) IperfStream \<Rightarrow> TestReport" where "tx s \<equiv> sender_report (report s)"
abbreviation rx :: "('r, 'f) IperfStream \<Rightarrow> TestReport" where "rx s \<equiv> receiver_report (report s)"

section \<open>Construction\<close>

definition data_buffer_size :: "TestConfig \<Rightarrow> nat" where
  "data_buffer_size c = (if protocol c = 2 then max_bats_iperf_buffer_for_rc else max_bats_iperf_buffer)"

definition init_iperf_data :: "nat \<Rightarrow> u64 \<Rightarrow> octet list res" where
  "init_iperf_data sz ident =
     rbind (store64 (replicate sz iperf_char) 0 bats_iperf_magic_code) (\<lambda>b. store64 b 8 ident)"

definition blank_stream :: "'r \<Rightarrow> 'f option \<Rightarrow> TestConfig \<Rightarrow> int \<Rightarrow> ('r, 'f) IperfStream" where
  "blank_stream r0 shaper c sid = \<lparr>config = c, stream_identifier = 0, is_sum_printed = False,
     is_sum_received = False, is_fin_received = False, is_fin_acked = False, is_writable = False,
     has_err_in_send = False, is_stopped = False, conn_state = CONN_NONE, state = STREAM_NONE,
     connector = False, connect_retry_cnt = 0,
     report = \<lparr>stream_id = sid, sender_report = TestReport_init\<lparr>rep_interval := interval c\<rparr>,
               receiver_report = TestReport_init\<lparr>rep_interval := interval c\<rparr>\<rparr>,
     data_conn = None, iperf_data = [], ideal_length = 0, last_grp_id = -1,
     seq_of_last_changed_grp_id = 0, recv_seq_recorder = r0, diff_s_r_list = [],
     is_first_jitter_calculation = True,
     flow_shaper = (if max_allowed_sending_rate c > 0 then shaper else None),
     thread = T_None, thread_grp_id = False, out = []\<rparr>"

definition connector_config :: "TestConfig \<Rightarrow> BatsConfiguration res" where
  "connector_config c =
     rbind (timeout_of c) (\<lambda>t.
     (let b = BatsConfiguration_init\<lparr>connection_timeout := t,
                transport_mode := BATSTransMode_of_int (protocol c),
                cert_file := bats_default_cert_file, key_file := bats_default_key_file\<rparr>;
          b = (if protocol c = 0 \<or> protocol c = 1 \<or> protocol c = 2
               then b\<lparr>frame_type := BATS_HEADER_V1\<rparr> else b);
          b = (if protocol c = 11 \<or> protocol c = 12 then b\<lparr>frame_type := FRAME_TRANSPARENT\<rparr> else b);
          b = (if protocol c = 10 then b\<lparr>frame_type := BATS_HEADER_MIN\<rparr> else b)
      in Inr b))"

definition SwitchDataBlockLength :: "int \<Rightarrow> ('r, 'f) IperfStream \<Rightarrow> ('r, 'f) IperfStream res" where
  "SwitchDataBlockLength len s =
     rbind (guard AssertFail (len > 0)) (\<lambda>_.
     rbind (guard AssertFail (len \<le> int (length (iperf_data s)))) (\<lambda>_.
     Inr (s\<lparr>ideal_length := len\<rparr>)))"

text \<open>\<open>IperfStream(io, log, config)\<close>: the connecting side.\<close>

definition new_stream :: "'r \<Rightarrow> 'f option \<Rightarrow> TestConfig \<Rightarrow> int \<Rightarrow> u64 \<Rightarrow> ('r, 'f) IperfStream res" where
  "new_stream r0 shaper c sid now =
     (let ident = now + word_of_int sid in
      rbind (init_iperf_data (data_buffer_size c) ident) (\<lambda>b.
      rbind (connector_config c) (\<lambda>_.
      Inr ((blank_stream r0 shaper c sid)\<lparr>stream_identifier := ident, iperf_data := b, connector := True\<rparr>))))"

text \<open>\<open>IperfStream(io, log, config, conn)\<close>: the accepting side.\<close>

definition accept_stream ::
  "'r \<Rightarrow> 'f option \<Rightarrow> TestConfig \<Rightarrow> int \<Rightarrow> conn \<Rightarrow> int \<Rightarrow> ('r, 'f) IperfStream res" where
  "accept_stream r0 shaper c sid cn ideal =
     rbind (init_iperf_data (data_buffer_size c) 0) (\<lambda>b.
     SwitchDataBlockLength ideal
       ((blank_stream r0 shaper c sid)\<lparr>iperf_data := b, data_conn := Some cn, conn_state := CONN_CONNECTED\<rparr>))"

section \<open>Reports of a stream\<close>

definition PrintReceiveLastInterval :: "clock \<Rightarrow> ('r, 'f) IperfStream \<Rightarrow> string" where
  "PrintReceiveLastInterval ck s =
     (if snapshot_cnt (rx s) < 1 then ''''
      else PrintLastInterval_text (LastInterval (rx s)) (stream_id (report s)) (rep_interval (rx s))
             (snapshot_cnt (rx s)) (is_precise_time_enabled (config s)) (stamp ck))"

definition PrintSendLastInterval :: "clock \<Rightarrow> ('r, 'f) IperfStream \<Rightarrow> string" where
  "PrintSendLastInterval ck s =
     (if snapshot_cnt (tx s) < 1 then ''''
      else PrintLastInterval_text (LastInterval (tx s)) (stream_id (report s)) (rep_interval (tx s))
             (snapshot_cnt (tx s)) (is_precise_time_enabled (config s)) (stamp ck))"

definition PrintLastInterval :: "clock \<Rightarrow> ('r, 'f) IperfStream \<Rightarrow> ('r, 'f) IperfStream" where
  "PrintLastInterval ck s =
     emit (Print (if role (config s) = ROLE_SENDER then PrintSendLastInterval ck s
                  else if role (config s) = ROLE_RECEIVER then PrintReceiveLastInterval ck s
                  else '''')) s"

definition PrintReceiveSummary :: "('r, 'f) IperfStream \<Rightarrow> ('r, 'f) IperfStream" where
  "PrintReceiveSummary s =
     emit (Print (PrintSummary_text (summary (rx s)) ''receiver'' (stream_id (report s)))) s"

definition PrintSendSummary :: "('r, 'f) IperfStream \<Rightarrow> ('r, 'f) IperfStream" where
  "PrintSendSummary s =
     emit (Print (PrintSummary_text (summary (tx s)) ''sender'' (stream_id (report s)))) s"

definition PrintSendRecvSummary :: "('r, 'f) IperfStream \<Rightarrow> ('r, 'f) IperfStream" where
  "PrintSendRecvSummary s =
     (if is_sum_printed s then s
      else PrintSendSummary (PrintReceiveSummary (s\<lparr>is_sum_printed := True\<rparr>)))"

definition FinishReport :: "clock \<Rightarrow> ('r, 'f) IperfStream \<Rightarrow> ('r, 'f) IperfStream" where
  "FinishReport ck s =
     (if role (config s) = ROLE_SENDER then
        if state s = STREAM_DONE then s
        else s\<lparr>state := STREAM_STOP, report := GenSendSummary (config s) (report s)\<rparr>
      else if role (config s) = ROLE_RECEIVER then
        (let s = s\<lparr>state := STREAM_STOP\<rparr>;
             s = (if fless (fl_int Single (snapshot_cnt (rx s)))
                           (fdiv Single (time (config s)) (interval (config s)))
                  then PrintLastInterval ck
                         (upd_receiver (\<lambda>r. SnapshotRxTxReport r (mono_ms ck)
                            (word_of_int (elapsed_ms (mono_ms ck) (last_snapshot_time r)))) s)
                  else s)
         in s\<lparr>report := GenReceiveSummary (config s) (report s)\<rparr>)
      else s)"

definition SerializeReport :: "('r, 'f) IperfStream \<Rightarrow> octet list \<Rightarrow> nat \<Rightarrow> (octet list \<times> nat) res" where
  "SerializeReport s to_buffer p = write_report (stream_identifier s) (tx s) to_buffer p"

definition DeserializeReport ::
  "octet list \<Rightarrow> nat \<Rightarrow> ('r, 'f) IperfStream \<Rightarrow> (('r, 'f) IperfStream \<times> nat) res" where
  "DeserializeReport from_buffer p s =
     rbind (read_report (tx s) from_buffer p) (\<lambda>(r, p').
     Inr ((upd_sender (\<lambda>_. r) s)\<lparr>is_sum_received := True\<rparr>, p'))"

definition IsIntervalDataReceivedTimeout :: "clock \<Rightarrow> ('r, 'f) IperfStream \<Rightarrow> (bool \<times> ('r, 'f) IperfStream) res" where
  "IsIntervalDataReceivedTimeout ck s =
     rbind (to_u64 (fmul Single (interval (config s)) (fl_int Single 1000))) (\<lambda>interval_base_ms.
     (let expected_time_point = last_snapshot_time (rx s) + interval_base_ms in
      if mono_ms ck < expected_time_point - 50 then Inr (False, s)
      else Inr (True, upd_receiver (\<lambda>r. SnapshotRxTxReport r (mono_ms ck)
                        (mono_ms ck - last_snapshot_time r)) s)))"

definition SnapshotReport :: "clock \<Rightarrow> ('r, 'f) IperfStream \<Rightarrow> (bool \<times> ('r, 'f) IperfStream) res" where
  "SnapshotReport ck s =
     (let escaped_time_ms = elapsed_ms (mono_ms ck) (last_snapshot_time (tx s)) in
      rbind (to_i64 (fmul Double (fmul Single (interval (config s)) (fl_int Single 1000)) (fl Double (95 / 100))))
      (\<lambda>limit.
      if limit \<le> escaped_time_ms
      then Inr (True, upd_sender (\<lambda>r. SnapshotRxTxReport r (mono_ms ck) (word_of_int escaped_time_ms)) s)
      else Inr (False, s)))"

section \<open>Receiving\<close>

definition nth_octet :: "octet list \<Rightarrow> int \<Rightarrow> octet res" where
  "nth_octet data i = (if 0 \<le> i \<and> nat i < length data then Inr (data ! nat i) else Inl OutOfBounds)"

definition IntervalDataSize :: int where "IntervalDataSize = 32"
definition link_mtu :: int where "link_mtu = 1500"

definition ValidateReceivedData :: "octet list \<Rightarrow> int \<Rightarrow> bool res" where
  "ValidateReceivedData data len =
     (let body = int sizeof_test_header + IntervalDataSize in
      rbind (load64 data 0) (\<lambda>magic.
      if magic \<noteq> bats_iperf_magic_code then Inr False
      else if len \<le> body then Inr True
      else rbind (nth_octet data body) (\<lambda>c.
        if c \<noteq> iperf_char then Inr False
        else rbind (nth_octet data (len - 1)) (\<lambda>c.
          if c \<noteq> iperf_char then Inr False
          else if len > link_mtu + body
               then rbind (nth_octet data (len - 1 - link_mtu)) (\<lambda>c. Inr (c = iperf_char))
               else Inr True))))"

text \<open>
  The loop that retries a failed \<open>SendData\<close> from a callback: one observation per iteration of the
  three flags it reads and of the result of the call it may make. The value is the list of the results of
  its calls. \<open>Blocked\<close> when the observations end before the loop does.
\<close>

record send_obs =
  obs_done :: bool
  obs_err :: bool
  obs_writable :: bool
  obs_send :: bool

fun retry_send :: "send_obs list \<Rightarrow> bool list res" where
  "retry_send [] = Inl Blocked"
| "retry_send (ob # obs) =
     (if obs_done ob then Inr []
      else if obs_err ob then Inr []
      else if obs_writable ob then (if obs_send ob then Inr [True] else rmap (Cons False) (retry_send obs))
      else retry_send obs)"

definition count_sent :: "int \<Rightarrow> TestReport \<Rightarrow> TestReport" where
  "count_sent len r = r\<lparr>summary := (summary r)\<lparr>bytes := bytes (summary r) + word_of_int len,
                                            datagrams := datagrams (summary r) + 1\<rparr>\<rparr>"

definition block_to_send :: "('r, 'f) IperfStream \<Rightarrow> int \<Rightarrow> octet list" where
  "block_to_send s len = take (nat len) (iperf_data s)"

definition OnReceivedFIN ::
  "clock \<Rightarrow> bool \<Rightarrow> send_obs list \<Rightarrow> ('r, 'f) IperfStream \<Rightarrow> ('r, 'f) IperfStream res" where
  "OnReceivedFIN ck first_send obs s =
     rbind (store64 (iperf_data s) 16 (datagrams (summary (tx s)))) (\<lambda>b.
     rbind (set_last True b) (\<lambda>b.
     rbind (set_ack True b) (\<lambda>b.
     rbind (set_has_interval False b) (\<lambda>b.
     (let s = s\<lparr>iperf_data := b\<rparr> in
      if data_conn s = None then Inl NullDeref
      else rbind (if first_send then Inr [] else retry_send obs) (\<lambda>retries.
        (let results = first_send # retries; send_ok = last results;
             s = emit_calls (block_to_send s (ideal_length s)) BATS_SEND_FLAG_FIN results s;
             s = (if send_ok then upd_sender (count_sent (ideal_length s)) s else s);
             s = FinishReport ck s
         in Inr (s\<lparr>is_fin_received := True, state := STREAM_DONE\<rparr>))))))))"

text \<open>\<open>ResetSeqRecord\<close>: what lies at or past the change of group is recorded again.\<close>

definition seqs_from_to :: "u64 \<Rightarrow> u64 \<Rightarrow> u64 list" where
  "seqs_from_to a b = map word_of_nat [unat a ..< Suc (unat b)]"

definition ResetSeqRecord :: "('r, 'f) stream_lib \<Rightarrow> ('r, 'f) IperfStream \<Rightarrow> ('r, 'f) IperfStream" where
  "ResetSeqRecord L s =
     (let r = recv_seq_recorder s;
          extra = filter (\<lambda>i. Has L i r) (seqs_from_to (seq_of_last_changed_grp_id s) (MaxSeqRecorded L r))
      in s\<lparr>recv_seq_recorder := fold (Record L) extra (Reset L r)\<rparr>)"

definition HasNewGrpId ::
  "('r, 'f) stream_lib \<Rightarrow> bool \<Rightarrow> u64 \<Rightarrow> ('r, 'f) IperfStream \<Rightarrow> bool \<times> ('r, 'f) IperfStream" where
  "HasNewGrpId L flag seq s =
     (if last_grp_id s = -1 then (True, s\<lparr>last_grp_id := of_bool flag\<rparr>)
      else if last_grp_id s \<noteq> of_bool flag \<and>
              is_less_than_in_half_ring L
                (seq_of_last_changed_grp_id s + iperf_stream_seq_reorder_threshold) seq
      then (True, s\<lparr>last_grp_id := of_bool flag\<rparr>)
      else (False, s))"

definition interval_line :: "clock \<Rightarrow> ('r, 'f) IperfStream \<Rightarrow> string" where
  "interval_line ck s =
     (let i = LastInterval (rx s); n = snapshot_cnt (rx s)
      in (if is_precise_time_enabled (config s) then stamp ck else '''') @
         ''[ '' @ show_int (stream_id (report s)) @ '']  '' @
         show_fixed 2 (fmul Single (fl_int Single (n - 1)) (interval (config s))) @ ''-'' @
         show_fixed 2 (fmul Single (fl_int Single n) (interval (config s))) @ '' sec   '' @
         get_bytes_string i @ ''  '' @ get_bitrate_string i @ ''  '' @ show_fixed 3 (jitter i) @
         '' ms   '' @ show_int (lost_datagrams i) @ ''/'' @ show_nat (unat (datagrams i)) @ '' ('' @
         show_fixed 1 (fmul Double (loss i) (Fin 100)) @ ''%)'' @ [CHR 0x0A])"

definition reset_jitter :: "('r, 'f) IperfStream \<Rightarrow> ('r, 'f) IperfStream" where
  "reset_jitter s = s\<lparr>diff_s_r_list := [], is_first_jitter_calculation := True\<rparr>"

text \<open>A full interval has arrived: snapshot, loss from the recorded sequence numbers, one printed line.\<close>

definition record_interval ::
  "clock \<Rightarrow> u64 \<Rightarrow> TestInterval \<Rightarrow> u64 \<Rightarrow> ('r, 'f) IperfStream \<Rightarrow> ('r, 'f) IperfStream" where
  "record_interval ck ms received actual s =
     (let s = reset_jitter (upd_receiver (\<lambda>r. SnapshotRxTxReport r (mono_ms ck) ms) s);
          lost = sint (datagrams received - actual);
          s = upd_receiver (\<lambda>r. r\<lparr>LastInterval := (LastInterval r)
                \<lparr>start_seq := start_seq received, lost_datagrams := lost,
                 loss := fdiv Double (fl_int Double lost) (fl_int Double (uint (datagrams received)))\<rparr>\<rparr>) s
      in emit (Print (interval_line ck s)) s)"

definition OnReceivedIntervalData ::
  "('r, 'f) stream_lib \<Rightarrow> clock \<Rightarrow> octet list \<Rightarrow> nat \<Rightarrow> ('r, 'f) IperfStream \<Rightarrow> ('r, 'f) IperfStream res" where
  "OnReceivedIntervalData L ck data p s =
     (if role (config s) = ROLE_RECEIVER then
        (let ms = elapsed_ms (mono_ms ck) (last_snapshot_time (rx s)) in
         rbind (DeserializeInterval data p) (\<lambda>received.
         (let changed = start_seq received + datagrams received;
              s = s\<lparr>seq_of_last_changed_grp_id := changed\<rparr>;
              actual = RecordedNumInRange L (start_seq received) changed (recv_seq_recorder s) in
          rbind (guard AssertFail (actual \<le> datagrams received)) (\<lambda>_.
          (let s = ResetSeqRecord L s in
           rbind (to_i64 (fmul Double (fmul Single (interval (config s)) (fl_int Single 1000)) (fl Double (9 / 10))))
           (\<lambda>limit.
           Inr (if ms < limit then reset_jitter s
                else record_interval ck (word_of_int ms) received actual s)))))))
      else Inr s)"

definition count_received :: "clock \<Rightarrow> int \<Rightarrow> TestReport \<Rightarrow> TestReport" where
  "count_received ck len r =
     (let r = (if bytes (summary r) = 0 then r\<lparr>last_snapshot_time := mono_ms ck\<rparr> else r)
      in r\<lparr>summary := (summary r)\<lparr>bytes := bytes (summary r) + word_of_int len,
                               datagrams := datagrams (summary r) + 1\<rparr>\<rparr>)"

text \<open>\<open>static_cast<int>\<close> of the difference of two unsigned clock values.\<close>

definition diff_s_r :: "u64 \<Rightarrow> u64 \<Rightarrow> int" where
  "diff_s_r arrival sent = sint (ucast (arrival - sent) :: i32)"

definition UpdateJitter :: "int \<Rightarrow> ('r, 'f) IperfStream \<Rightarrow> ('r, 'f) IperfStream res" where
  "UpdateJitter cur_diff s =
     (if diff_s_r_list s = [] then Inr (s\<lparr>diff_s_r_list := [cur_diff]\<rparr>)
      else
        (let last_diff = last (diff_s_r_list s) in
         rbind (guard SignedOverflow (\<bar>cur_diff - last_diff\<bar> < 2 ^ 31)) (\<lambda>_.
         (let new_diff = fl_int Double \<bar>cur_diff - last_diff\<bar>;
              j = jitter (summary (rx s));
              j' = (if is_first_jitter_calculation s then new_diff
                    else fdiv Double (fadd Double (fmul Double (Fin 15) j) new_diff) (Fin 16))
          in Inr ((upd_receiver (\<lambda>r. r\<lparr>summary := (summary r)\<lparr>jitter := j'\<rparr>\<rparr>) s)
               \<lparr>is_first_jitter_calculation := False,
                diff_s_r_list := butlast (diff_s_r_list s) @ [cur_diff]\<rparr>)))))"

text \<open>The change of group: lines 538 to 541 of \<open>UpdateReceived\<close>.\<close>

definition UpdateGroup ::
  "('r, 'f) stream_lib \<Rightarrow> clock \<Rightarrow> octet list \<Rightarrow> iperf_test_header \<Rightarrow> ('r, 'f) IperfStream
     \<Rightarrow> ('r, 'f) IperfStream res" where
  "UpdateGroup L ck data h s =
     (let ns = HasNewGrpId L (th_grp_id h) (th_seq h) s
      in if fst ns \<and> th_has_interval h
         then OnReceivedIntervalData L ck data sizeof_test_header (snd ns) else Inr (snd ns))"

text \<open>
  \<open>UpdateReceived\<close>. \<open>first_send\<close> and \<open>obs\<close> are the results of \<open>SendData\<close> should the block be a
  FIN that is answered.
\<close>

definition UpdateReceived ::
  "('r, 'f) stream_lib \<Rightarrow> clock \<Rightarrow> bool \<Rightarrow> send_obs list \<Rightarrow> octet list option \<Rightarrow> int
     \<Rightarrow> ('r, 'f) IperfStream \<Rightarrow> (bool \<times> ('r, 'f) IperfStream) res" where
  "UpdateReceived L ck first_send obs data_ptr len s =
     (case data_ptr of
        None \<Rightarrow> Inr (False, s)
      | Some data \<Rightarrow>
        if len \<le> 0 then Inr (False, s)
        else
          (let s = upd_receiver (count_received ck len) s in
           rbind (read_test_header data) (\<lambda>h.
           rbind (if protocol (config s) = 2 then Inr True else ValidateReceivedData data len) (\<lambda>valid.
           if \<not> valid then Inl ExitFailure
           else
             (let s = s\<lparr>recv_seq_recorder := Record L (th_seq h) (recv_seq_recorder s)\<rparr> in
              if stream_identifier s = 0 \<and> th_seq h \<noteq> 0 \<and>
                 (protocol (config s) = 1 \<or> protocol (config s) = 10)
              then Inl ExitFailure
              else
                (let s = (if stream_identifier s = 0
                          then s\<lparr>stream_identifier := th_stream_identifier h\<rparr> else s);
                     s = (if th_last h \<and> th_ack h
                          then PrintSendSummary (s\<lparr>is_fin_acked := True, state := STREAM_DONE\<rparr>) else s) in
                 rbind (if th_last h \<and> \<not> th_ack h then OnReceivedFIN ck first_send obs s else Inr s) (\<lambda>s.
                 rbind (UpdateGroup L ck data h s) (\<lambda>s.
                 rbind (UpdateJitter (diff_s_r (wall_ms ck) (th_time h)) s) (\<lambda>s.
                 Inr (True, s))))))))))"

section \<open>Connection and lifetime\<close>

definition StartConnect :: "('r, 'f) IperfStream \<Rightarrow> ('r, 'f) IperfStream res" where
  "StartConnect s =
     rbind (guard AssertFail (connector s)) (\<lambda>_.
     Inr (emit (Connect (peer_host (config s)) (word_of_int (port (config s))))
            (s\<lparr>conn_state := CONN_CONNECTING\<rparr>)))"

definition StartRecv :: "('r, 'f) IperfStream \<Rightarrow> ('r, 'f) IperfStream res" where
  "StartRecv s =
     (if role (config s) = ROLE_RECEIVER
      then (if data_conn s = None then Inl NullDeref else Inr (emit SetCallback s))
      else Inr s)"

definition Stop :: "clock \<Rightarrow> ('r, 'f) IperfStream \<Rightarrow> ('r, 'f) IperfStream" where
  "Stop ck s =
     (if is_stopped s then s
      else
        (let s = s\<lparr>is_stopped := True\<rparr>;
             s = (if role (config s) = ROLE_RECEIVER \<and> \<not> is_fin_received s then FinishReport ck s else s);
             s = s\<lparr>state := STREAM_DONE, conn_state := CONN_DISCONNECTED\<rparr>;
             s = (if connector s then emit (StopConn (data_conn s)) s else s)
         in s\<lparr>data_conn := None, connector := False\<rparr>))"

text \<open>The branch for \<open>BATS_CONNECTION_FAILED\<close> and \<open>BATS_CONNECTION_TIMEOUT\<close>.\<close>

definition retry_connect :: "conn \<Rightarrow> ('r, 'f) IperfStream \<Rightarrow> (bool \<times> ('r, 'f) IperfStream) res" where
  "retry_connect cn s =
     (if connect_retry_cnt s < max_connect_retry
      then if \<not> connector s then Inl NullDeref
           else rbind (StartConnect (emit (StopConn (Some cn)) s)) (\<lambda>s.
                Inr (True, s\<lparr>connect_retry_cnt := connect_retry_cnt s + 1\<rparr>))
      else Inr (True, s))"

text \<open>
  \<open>ConnectionCallback\<close>: \<open>cn\<close> is the connection, \<open>ideal\<close> its \<open>GetIdealBufferLength\<close>, \<open>data\<close> and \<open>len\<close>
  what the event carries.
\<close>

definition ConnectionCallback ::
  "('r, 'f) stream_lib \<Rightarrow> clock \<Rightarrow> bool \<Rightarrow> send_obs list \<Rightarrow> conn \<Rightarrow> int \<Rightarrow> BatsConnEvent
     \<Rightarrow> octet list option \<Rightarrow> int \<Rightarrow> ('r, 'f) IperfStream \<Rightarrow> (bool \<times> ('r, 'f) IperfStream) res" where
  "ConnectionCallback L ck first_send obs cn ideal event data len s =
     (case event of
        BATS_CONNECTION_ESTABLISHED \<Rightarrow>
          if role (config s) = ROLE_SENDER
          then rmap (Pair True)
                 (SwitchDataBlockLength ideal (s\<lparr>conn_state := CONN_CONNECTED, data_conn := Some cn\<rparr>))
          else Inr (True, s)
      | BATS_CONNECTION_CLOSED \<Rightarrow> Inr (True, s\<lparr>conn_state := CONN_DISCONNECTED\<rparr>)
      | BATS_CONNECTION_SHUTDOWN_BY_PEER \<Rightarrow> Inr (True, s\<lparr>conn_state := CONN_DISCONNECTED\<rparr>)
      | BATS_CONNECTION_BUFFER_FULL \<Rightarrow> Inr (True, s\<lparr>is_writable := True\<rparr>)
      | BATS_CONNECTION_WRITABLE \<Rightarrow> Inr (True, emit Notify (s\<lparr>is_writable := True\<rparr>))
      | BATS_CONNECTION_SEND_DATA_ERROR \<Rightarrow> Inr (True, s\<lparr>has_err_in_send := True\<rparr>)
      | BATS_CONNECTION_IDEAL_BUFFER_LENGTH \<Rightarrow> rmap (Pair True) (SwitchDataBlockLength len s)
      | BATS_CONNECTION_ALL_DATA_ACKED \<Rightarrow> Inr (True, s)
      | BATS_CONNECTION_FAILED \<Rightarrow> retry_connect cn s
      | BATS_CONNECTION_TIMEOUT \<Rightarrow> retry_connect cn s
      | BATS_CONNECTION_DATA_RECEIVED \<Rightarrow> UpdateReceived L ck first_send obs data len s
      | _ \<Rightarrow> Inr (True, s))"

section \<open>The sending thread\<close>

definition StartSend :: "clock \<Rightarrow> ('r, 'f) IperfStream \<Rightarrow> ('r, 'f) IperfStream res" where
  "StartSend ck s =
     (let s = (if bytes (summary (tx s)) = 0 \<and> last_snapshot_time (tx s) = 0
               then upd_sender (\<lambda>r. r\<lparr>last_snapshot_time := mono_ms ck\<rparr>) s else s);
          s = s\<lparr>state := STREAM_START\<rparr>
      in if thread s = T_None then Inr (s\<lparr>thread := T_Entered, thread_grp_id := False\<rparr>)
         else Inl Terminate)"

text \<open>Filling the block header under the snapshot mutex, lines 711 to 744.\<close>

definition prepare_block :: "clock \<Rightarrow> ('r, 'f) IperfStream \<Rightarrow> ('r, 'f) IperfStream res" where
  "prepare_block ck s =
     (let cnt = snapshot_cnt (tx s); grp = (cnt mod 2 = 1) in
      rbind (store64 (iperf_data s) 16 (datagrams (summary (tx s)))) (\<lambda>b.
      rbind (store64 b 24 (wall_ms ck)) (\<lambda>b.
      rbind (set_grp_id grp b) (\<lambda>b.
      rbind (set_last False b) (\<lambda>b.
      rbind (set_ack False b) (\<lambda>b.
      rbind (if cnt \<le> 0 then set_has_interval False b else Inr b) (\<lambda>b.
      if cnt > 0 \<and> thread_grp_id s \<noteq> grp
      then rbind (set_has_interval True b) (\<lambda>b.
           rbind (SerializeInterval b sizeof_test_header (LastInterval (tx s))) (\<lambda>(b, p).
           Inr (s\<lparr>iperf_data := b, thread_grp_id := grp\<rparr>)))
      else Inr (s\<lparr>iperf_data := b\<rparr>))))))))"

text \<open>Lines 764 to 768: the block is counted, whether or not it was accepted.\<close>

definition count_block :: "('r, 'f) stream_lib \<Rightarrow> int \<Rightarrow> ('r, 'f) IperfStream \<Rightarrow> ('r, 'f) IperfStream" where
  "count_block L len s =
     (let s = upd_sender (count_sent len) s
      in s\<lparr>flow_shaper := map_option (update_bytes_counter L len) (flow_shaper s), thread := T_Loop\<rparr>)"

definition SendData :: "BatsSendFlag \<Rightarrow> int \<Rightarrow> bool \<Rightarrow> ('r, 'f) IperfStream \<Rightarrow> ('r, 'f) IperfStream res" where
  "SendData flag len ok s =
     (if data_conn s = None then Inl NullDeref
      else Inr (emit (Sent (block_to_send s len) flag ok) s))"

definition SendFIN :: "clock \<Rightarrow> bool \<Rightarrow> ('r, 'f) IperfStream \<Rightarrow> ('r, 'f) IperfStream res" where
  "SendFIN ck ok s =
     (if IsReliableProtocol (protocol (config s)) then
        rbind (store64 (iperf_data s) 16 (datagrams (summary (tx s)))) (\<lambda>b.
        rbind (set_grp_id (snapshot_cnt (tx s) mod 2 = 1) b) (\<lambda>b.
        rbind (store64 b 24 (wall_ms ck)) (\<lambda>b.
        rbind (set_last True b) (\<lambda>b.
        rbind (set_ack False b) (\<lambda>b.
        rbind (set_has_interval False b) (\<lambda>b.
        rbind (SendData BATS_SEND_FLAG_FIN (ideal_length s) ok (s\<lparr>iperf_data := b\<rparr>)) (\<lambda>s.
        Inr (if ok then (upd_sender (count_sent (ideal_length s)) s)\<lparr>thread := T_Exited\<rparr>
             else s\<lparr>thread := T_FinRetry\<rparr>))))))))
      else Inr ((PrintSendSummary s)\<lparr>thread := T_Exited\<rparr>))"

text \<open>One step of the thread; \<open>ok\<close> is the result of the \<open>SendData\<close> call the step makes, if it makes one.\<close>

fun thread_step :: "('r, 'f) stream_lib \<Rightarrow> clock \<Rightarrow> bool \<Rightarrow> thread_pc \<Rightarrow> ('r, 'f) IperfStream \<Rightarrow> ('r, 'f) IperfStream res" where
  "thread_step L ck ok T_None s = Inr s"
| "thread_step L ck ok T_Exited s = Inr s"
| "thread_step L ck ok T_Entered s =
     (if conn_state s = CONN_CONNECTED then Inr (s\<lparr>thread := T_Loop\<rparr>)
      else Inr ((Stop ck s)\<lparr>thread := T_Exited\<rparr>))"
| "thread_step L ck ok T_Loop s =
     (if \<not> (conn_state s = CONN_CONNECTED \<and> state s = STREAM_START) then Inr (s\<lparr>thread := T_Fin\<rparr>)
      else if has_err_in_send s
           then Inr (s\<lparr>has_err_in_send := False, state := STREAM_DONE, thread := T_Fin\<rparr>)
      else Inr (s\<lparr>thread := T_Wait\<rparr>))"
| "thread_step L ck ok T_Wait s =
     (if is_writable s \<or> state s \<noteq> STREAM_START \<or> has_err_in_send s
      then Inr (s\<lparr>thread := T_Block\<rparr>) else Inr s)"
| "thread_step L ck ok T_Block s =
     (if (case flow_shaper s of None \<Rightarrow> False | Some f \<Rightarrow> is_bandwidth_limit_hit L (mono_ms ck) f)
      then Inr (s\<lparr>thread := T_Loop\<rparr>)
      else
        rbind (prepare_block ck s) (\<lambda>s.
        rbind (SendData BATS_SEND_FLAG_NONE (ideal_length s) ok s) (\<lambda>s.
        Inr (if ok then count_block L (ideal_length s) s else s\<lparr>thread := T_Retry (ideal_length s)\<rparr>))))"
| "thread_step L ck ok (T_Retry len) s =
     (if state s \<noteq> STREAM_START then Inr (count_block L len s)
      else if has_err_in_send s then Inr (count_block L len s)
      else if is_writable s
      then rbind (SendData BATS_SEND_FLAG_NONE len ok s) (\<lambda>s.
           Inr (if ok then count_block L len s else s))
      else Inr s)"
| "thread_step L ck ok T_Fin s = SendFIN ck ok s"
| "thread_step L ck ok T_FinRetry s =
     (if state s = STREAM_DONE then Inr (s\<lparr>thread := T_Exited\<rparr>)
      else if has_err_in_send s then Inr (s\<lparr>thread := T_Exited\<rparr>)
      else if is_writable s
      then rbind (SendData BATS_SEND_FLAG_FIN (ideal_length s) ok s) (\<lambda>s.
           Inr (if ok then (upd_sender (count_sent (ideal_length s)) s)\<lparr>thread := T_Exited\<rparr> else s))
      else Inr s)"

text \<open>
  The destructor: the thread, woken if it waits, is joined. It makes as many steps as it needs to return, one observation for
  each; \<open>Blocked\<close> when they end before.
\<close>

fun join_sending_thread :: "('r, 'f) stream_lib \<Rightarrow> (clock \<times> bool) list \<Rightarrow> ('r, 'f) IperfStream \<Rightarrow> ('r, 'f) IperfStream res" where
  "join_sending_thread L [] s = (if thread s = T_None \<or> thread s = T_Exited then Inr s else Inl Blocked)"
| "join_sending_thread L ((ck, ok) # obs) s =
     (if thread s = T_None \<or> thread s = T_Exited then Inr s
      else rbind (thread_step L ck ok (thread s) s) (join_sending_thread L obs))"

definition destroy_stream :: "('r, 'f) stream_lib \<Rightarrow> (clock \<times> bool) list \<Rightarrow> ('r, 'f) IperfStream \<Rightarrow> ('r, 'f) IperfStream res" where
  "destroy_stream L obs s =
     rbind (join_sending_thread L obs (emit Notify (s\<lparr>conn_state := CONN_NONE, state := STREAM_DONE\<rparr>))) (\<lambda>s.
     Inr (s\<lparr>flow_shaper := None\<rparr>))"

text \<open>\<open>operator<\<close>: streams are compared by their ids.\<close>

definition stream_Id :: "('r, 'f, 'z) IperfStream_scheme \<Rightarrow> int" where
  "stream_Id s = stream_id (report s)"

instantiation IperfStream_ext :: (type, type, type) preorder
begin

definition less_IperfStream_ext :: "('a, 'b, 'c) IperfStream_scheme \<Rightarrow> ('a, 'b, 'c) IperfStream_scheme \<Rightarrow> bool" where
  "less_IperfStream_ext s t \<longleftrightarrow> stream_Id s < stream_Id t"

definition less_eq_IperfStream_ext :: "('a, 'b, 'c) IperfStream_scheme \<Rightarrow> ('a, 'b, 'c) IperfStream_scheme \<Rightarrow> bool" where
  "less_eq_IperfStream_ext s t \<longleftrightarrow> stream_Id s \<le> stream_Id t"

instance
  by standard (auto simp: less_IperfStream_ext_def less_eq_IperfStream_ext_def)

end

section \<open>All operations as events\<close>

datatype stream_event =
    EvThread clock bool
  | EvCallback clock bool "send_obs list" conn int BatsConnEvent "octet list option" int
  | EvStartConnect
  | EvStartRecv
  | EvStartSend clock
  | EvSnapshot clock
  | EvIntervalTimeout clock
  | EvPrintLastInterval clock
  | EvPrintSendSummary
  | EvPrintSendRecvSummary
  | EvDeserializeReport "octet list" nat
  | EvFinishReport clock
  | EvStop clock

fun stream_step :: "('r, 'f) stream_lib \<Rightarrow> ('r, 'f) IperfStream \<Rightarrow> stream_event \<Rightarrow> ('r, 'f) IperfStream res" where
  "stream_step L s (EvThread ck ok) = thread_step L ck ok (thread s) s"
| "stream_step L s (EvCallback ck ok obs cn ideal ev data len) =
     rmap snd (ConnectionCallback L ck ok obs cn ideal ev data len s)"
| "stream_step L s EvStartConnect = StartConnect s"
| "stream_step L s EvStartRecv = StartRecv s"
| "stream_step L s (EvStartSend ck) = StartSend ck s"
| "stream_step L s (EvSnapshot ck) = rmap snd (SnapshotReport ck s)"
| "stream_step L s (EvIntervalTimeout ck) = rmap snd (IsIntervalDataReceivedTimeout ck s)"
| "stream_step L s (EvPrintLastInterval ck) = Inr (PrintLastInterval ck s)"
| "stream_step L s EvPrintSendSummary = Inr (PrintSendSummary s)"
| "stream_step L s EvPrintSendRecvSummary = Inr (PrintSendRecvSummary s)"
| "stream_step L s (EvDeserializeReport b p) = rmap fst (DeserializeReport b p s)"
| "stream_step L s (EvFinishReport ck) = Inr (FinishReport ck s)"
| "stream_step L s (EvStop ck) = Inr (Stop ck s)"

end
