(* ===== verification/Stream_Integrity.thy ===== *)
theory Stream_Integrity
  imports Iperf_Stream
begin

text \<open>
  The data integrity invariant of a stream: the block buffer always starts with the magic code
  and is filled with \<open>iperf_char\<close> past the header and the interval data, so every block handed to
  \<open>SendData\<close> passes the validation of a receiver, whatever the interleaving of the sending thread
  with callbacks and polls.
\<close>

definition data_ok :: "octet list \<Rightarrow> bool" where
  "data_ok b \<longleftrightarrow> 72 \<le> length b \<and> load64 b 0 = Inr bats_iperf_magic_code
     \<and> (\<forall>i. 72 \<le> i \<and> i < length b \<longrightarrow> b ! i = iperf_char)"

definition block_ok :: "octet list \<Rightarrow> bool" where
  "block_ok d \<longleftrightarrow> (8 \<le> length d \<longrightarrow> load64 d 0 = Inr bats_iperf_magic_code)
     \<and> (\<forall>i. 72 \<le> i \<and> i < length d \<longrightarrow> d ! i = iperf_char)"

definition stream_inv :: "('r, 'f) IperfStream \<Rightarrow> bool" where
  "stream_inv s \<longleftrightarrow> data_ok (iperf_data s) \<and> (\<forall>d f ok. Sent d f ok \<in> set (out s) \<longrightarrow> block_ok d)"

section \<open>The buffer\<close>

lemma data_ok_poke:
  assumes "data_ok b" and "poke b off vs = Inr b'" and "8 \<le> off" and "off + length vs \<le> 72"
  shows "data_ok b'"
proof -
  have "off + length vs \<le> length b" and b': "b' = overwrite b off vs"
    using assms(2) by (auto simp: poke_eq_Inr)
  with assms show ?thesis by (auto simp: data_ok_def buf_simps)
qed

lemma data_ok_store64:
  "data_ok b \<Longrightarrow> store64 b off v = Inr b' \<Longrightarrow> 8 \<le> off \<Longrightarrow> off + 8 \<le> 72 \<Longrightarrow> data_ok b'"
  unfolding store64_def by (rule data_ok_poke) auto

lemma data_ok_flag: "data_ok b \<Longrightarrow> set_header_flag n v b = Inr b' \<Longrightarrow> data_ok b'"
  by (auto simp: set_header_flag_def rbind_eq_Inr store8_def elim!: data_ok_poke)

lemma data_ok_interval:
  assumes "data_ok b" and "SerializeInterval b sizeof_test_header i = Inr (b', p)"
  shows "data_ok b'"
proof -
  from assms(2) obtain b1 b2 b3 w where
    "store64 b 40 (bytes i) = Inr b1" "store64 b1 48 (datagrams i) = Inr b2"
    "store64 b2 56 (start_seq i) = Inr b3" "store64 b3 64 w = Inr b'"
    by (auto simp: SerializeInterval_def rbind_eq_Inr sizeof_test_header_def)
  note st = this
  have "data_ok b1" by (rule data_ok_store64 [OF assms(1) st(1)]) simp_all
  then have "data_ok b2" by (rule data_ok_store64 [OF _ st(2)]) simp_all
  then have "data_ok b3" by (rule data_ok_store64 [OF _ st(3)]) simp_all
  then show ?thesis by (rule data_ok_store64 [OF _ st(4)]) simp_all
qed

lemma block_ok_take:
  assumes "data_ok b"
  shows "block_ok (take n b)"
proof (cases "n \<le> length b")
  case True
  then show ?thesis using assms by (auto simp: data_ok_def block_ok_def buf_simps)
next
  case False
  then show ?thesis using assms by (simp add: data_ok_def block_ok_def)
qed

lemma init_iperf_data_ok:
  assumes "72 \<le> sz"
  shows "\<exists>b. init_iperf_data sz ident = Inr b \<and> data_ok b \<and> length b = sz \<and> load64 b 8 = Inr ident"
  using assms by (auto simp: init_iperf_data_def data_ok_def buf_simps)

lemma validate_block_ok:
  assumes "block_ok d" and "8 \<le> length d"
  shows "ValidateReceivedData d (int (length d)) = Inr True"
  using assms
  by (auto simp: ValidateReceivedData_def block_ok_def nth_octet_def sizeof_test_header_def
      IntervalDataSize_def link_mtu_def Let_def nat_diff_distrib)

section \<open>Every operation keeps the invariant\<close>

lemma stream_inv_emit [simp]:
  "stream_inv (emit x s) \<longleftrightarrow> stream_inv s \<and> (case x of Sent d f ok \<Rightarrow> block_ok d | _ \<Rightarrow> True)"
  by (auto simp: stream_inv_def emit_def split: stream_out.splits)

lemma stream_inv_emit_calls: "block_ok d \<Longrightarrow> stream_inv s \<Longrightarrow> stream_inv (emit_calls d f oks s)"
  by (auto simp: stream_inv_def emit_calls_def)

lemma stream_inv_upd [simp]:
  "stream_inv (upd_sender f s) = stream_inv s"
  "stream_inv (upd_receiver f s) = stream_inv s"
  by (simp_all add: stream_inv_def upd_sender_def upd_receiver_def)

lemma stream_inv_fields [simp]:
  "stream_inv (s\<lparr>state := a\<rparr>) = stream_inv s"
  "stream_inv (s\<lparr>conn_state := b\<rparr>) = stream_inv s"
  "stream_inv (s\<lparr>report := c\<rparr>) = stream_inv s"
  "stream_inv (s\<lparr>data_conn := d\<rparr>) = stream_inv s"
  "stream_inv (s\<lparr>connector := e\<rparr>) = stream_inv s"
  "stream_inv (s\<lparr>thread := g\<rparr>) = stream_inv s"
  "stream_inv (s\<lparr>flow_shaper := h\<rparr>) = stream_inv s"
  "stream_inv (s\<lparr>thread_grp_id := i\<rparr>) = stream_inv s"
  "stream_inv (s\<lparr>is_stopped := i\<rparr>) = stream_inv s"
  "stream_inv (s\<lparr>is_writable := i\<rparr>) = stream_inv s"
  "stream_inv (s\<lparr>has_err_in_send := i\<rparr>) = stream_inv s"
  "stream_inv (s\<lparr>is_fin_received := i\<rparr>) = stream_inv s"
  "stream_inv (s\<lparr>is_fin_acked := i\<rparr>) = stream_inv s"
  "stream_inv (s\<lparr>is_sum_received := i\<rparr>) = stream_inv s"
  "stream_inv (s\<lparr>is_sum_printed := i\<rparr>) = stream_inv s"
  "stream_inv (s\<lparr>ideal_length := j\<rparr>) = stream_inv s"
  "stream_inv (s\<lparr>connect_retry_cnt := j\<rparr>) = stream_inv s"
  "stream_inv (s\<lparr>last_grp_id := j\<rparr>) = stream_inv s"
  "stream_inv (s\<lparr>stream_identifier := k\<rparr>) = stream_inv s"
  "stream_inv (s\<lparr>seq_of_last_changed_grp_id := k\<rparr>) = stream_inv s"
  "stream_inv (s\<lparr>recv_seq_recorder := l\<rparr>) = stream_inv s"
  "stream_inv (s\<lparr>diff_s_r_list := m\<rparr>) = stream_inv s"
  "stream_inv (s\<lparr>is_first_jitter_calculation := i\<rparr>) = stream_inv s"
  by (simp_all add: stream_inv_def)

lemma stream_inv_block: "stream_inv s \<Longrightarrow> block_ok (block_to_send s n)"
  by (simp add: stream_inv_def block_to_send_def block_ok_take)

lemma stream_inv_data: "stream_inv s \<Longrightarrow> data_ok b \<Longrightarrow> stream_inv (s\<lparr>iperf_data := b\<rparr>)"
  by (simp add: stream_inv_def)

lemma stream_inv_prints [simp]:
  "stream_inv (PrintLastInterval ck s) = stream_inv s"
  "stream_inv (PrintReceiveSummary s) = stream_inv s"
  "stream_inv (PrintSendSummary s) = stream_inv s"
  "stream_inv (PrintSendRecvSummary s) = stream_inv s"
  by (simp_all add: PrintLastInterval_def PrintReceiveSummary_def PrintSendSummary_def PrintSendRecvSummary_def)

lemma stream_inv_FinishReport [simp]: "stream_inv (FinishReport ck s) = stream_inv s"
  by (simp add: FinishReport_def Let_def)

lemma stream_inv_Stop [simp]: "stream_inv (Stop ck s) = stream_inv s"
  by (simp add: Stop_def Let_def)

lemma stream_inv_SendData: "stream_inv s \<Longrightarrow> SendData f n ok s = Inr t \<Longrightarrow> stream_inv t"
  by (auto simp: SendData_def stream_inv_block split: if_splits)

lemma data_ok_of_inv: "stream_inv s \<Longrightarrow> data_ok (iperf_data s)"
  by (simp add: stream_inv_def)

lemma data_ok_bind:
  assumes "rbind (store64 b 16 v) f = Inr y" and "data_ok b" and "\<And>b'. data_ok b' \<Longrightarrow> f b' = Inr y \<Longrightarrow> P"
  shows P
  using assms data_ok_store64 by (fastforce simp: rbind_eq_Inr)

lemma data_ok_bind_time:
  assumes "rbind (store64 b 24 v) f = Inr y" and "data_ok b" and "\<And>b'. data_ok b' \<Longrightarrow> f b' = Inr y \<Longrightarrow> P"
  shows P
  using assms data_ok_store64 by (fastforce simp: rbind_eq_Inr)

lemma data_ok_bind_flag:
  assumes "rbind (set_header_flag n v b) f = Inr y" and "data_ok b" and "\<And>b'. data_ok b' \<Longrightarrow> f b' = Inr y \<Longrightarrow> P"
  shows P
  using assms data_ok_flag by (fastforce simp: rbind_eq_Inr)

lemmas data_ok_binds = data_ok_bind data_ok_bind_time data_ok_bind_flag

lemma store64_length: "store64 b off v = Inr b' \<Longrightarrow> length b' = length b"
  by (auto simp: store64_def poke_eq_Inr length_overwrite)

lemma set_header_flag_length: "set_header_flag n v b = Inr b' \<Longrightarrow> length b' = length b"
  by (auto simp: set_header_flag_def rbind_eq_Inr store8_def poke_eq_Inr length_overwrite)

text \<open>
  The header of a block that is sent: the sequence number is new, the identifier of the stream stays.
\<close>

definition restamped :: "u64 \<Rightarrow> octet list \<Rightarrow> octet list \<Rightarrow> bool" where
  "restamped q b c \<longleftrightarrow> length c = length b \<and> load64 c 8 = load64 b 8 \<and> load64 c 16 = Inr q"

lemma restamped_seq: "store64 b 16 q = Inr c \<Longrightarrow> restamped q b c"
  by (auto simp: restamped_def store64_def load64_def poke_eq_Inr buf_simps f64.enc_length f64.dec_enc)

lemma restamped_poke:
  assumes "poke c off vs = Inr d" and "24 \<le> off" and "restamped q b c"
  shows "restamped q b d"
  using assms by (auto simp: restamped_def load64_def poke_eq_Inr peek_overwrite_other length_overwrite)

lemma restamped_store:
  "store64 c 24 v = Inr d \<Longrightarrow> restamped q b c \<Longrightarrow> restamped q b d"
  "set_header_flag n w c = Inr d \<Longrightarrow> restamped q b c \<Longrightarrow> restamped q b d"
  by (auto simp: store64_def set_header_flag_def store8_def rbind_eq_Inr elim: restamped_poke [rotated 2])

lemma restamped_interval:
  "SerializeInterval c sizeof_test_header i = Inr (d, p) \<Longrightarrow> restamped q b c \<Longrightarrow> restamped q b d"
  by (frule SerializeInterval_frame) (simp add: restamped_def load64_def sizeof_test_header_def)

lemma restamped_bind_seq:
  assumes "rbind (store64 b 16 q) f = Inr y" and "\<And>c. restamped q b c \<Longrightarrow> f c = Inr y \<Longrightarrow> P"
  shows P
  using assms by (auto simp: rbind_eq_Inr dest: restamped_seq)

lemma restamped_bind_store:
  "rbind (store64 c 24 v) f = Inr y \<Longrightarrow> restamped q b c \<Longrightarrow> (\<And>d. restamped q b d \<Longrightarrow> f d = Inr y \<Longrightarrow> P) \<Longrightarrow> P"
  "rbind (set_header_flag n w c) f = Inr y \<Longrightarrow> restamped q b c \<Longrightarrow> (\<And>d. restamped q b d \<Longrightarrow> f d = Inr y \<Longrightarrow> P) \<Longrightarrow> P"
  by (auto simp: rbind_eq_Inr dest: restamped_store)

text \<open>What \<open>OnReceivedFIN\<close> does: one answer, whose \<open>SendData\<close> succeeds at most once.\<close>

lemma emit_calls_fields [simp]:
  "config (emit_calls d f oks s) = config s" "report (emit_calls d f oks s) = report s"
  "ideal_length (emit_calls d f oks s) = ideal_length s" "data_conn (emit_calls d f oks s) = data_conn s"
  "out (emit_calls d f oks s) = out s @ map (Sent d f) oks"
  by (simp_all add: emit_calls_def)

lemma retry_send_once: "retry_send obs = Inr oks \<Longrightarrow> filter id oks = (if oks \<noteq> [] \<and> last oks then [True] else [])"
  by (induction obs arbitrary: oks) (auto simp: rmap_eq_Inr split: if_splits)

lemma OnReceivedFIN_cases:
  assumes "OnReceivedFIN ck fs obs s = Inr t"
  obtains b results where "data_conn s \<noteq> None" "filter id results = (if last results then [True] else [])"
    "data_ok (iperf_data s) \<Longrightarrow> data_ok b" "length b = length (iperf_data s)"
    "t = (FinishReport ck ((if last results then upd_sender (count_sent (ideal_length s)) else id)
        (emit_calls (take (nat (ideal_length s)) b) BATS_SEND_FLAG_FIN results (s\<lparr>iperf_data := b\<rparr>))))
        \<lparr>is_fin_received := True, state := STREAM_DONE\<rparr>"
    "restamped (datagrams (summary (tx s))) (iperf_data s) b"
proof -
  obtain b1 b2 b3 b where w: "store64 (iperf_data s) 16 (datagrams (summary (tx s))) = Inr b1" "set_last True b1 = Inr b2"
      "set_ack True b2 = Inr b3" "set_has_interval False b3 = Inr b"
    and t: "(let s = s\<lparr>iperf_data := b\<rparr> in
      if data_conn s = None then Inl NullDeref
      else rbind (if fs then Inr [] else retry_send obs) (\<lambda>retries.
        (let results = fs # retries; send_ok = last results;
             s = emit_calls (block_to_send s (ideal_length s)) BATS_SEND_FLAG_FIN results s;
             s = (if send_ok then upd_sender (count_sent (ideal_length s)) s else s);
             s = FinishReport ck s
         in Inr (s\<lparr>is_fin_received := True, state := STREAM_DONE\<rparr>)))) = Inr t"
    using assms unfolding OnReceivedFIN_def by (elim rbindE) (rule that)
  have d: "data_ok (iperf_data s) \<Longrightarrow> data_ok b"
    using data_ok_store64 [OF _ w(1)] data_ok_flag [OF _ w(2)] data_ok_flag [OF _ w(3)] data_ok_flag [OF _ w(4)] by simp
  have l: "length b = length (iperf_data s)" using store64_length [OF w(1)] w(2-4) [THEN set_header_flag_length] by simp
  have rs: "restamped (datagrams (summary (tx s))) (iperf_data s) b"
    using restamped_seq [OF w(1)] restamped_store(2) [OF w(2)] restamped_store(2) [OF w(3)] restamped_store(2) [OF w(4)] by blast
  obtain retries where r: "data_conn s \<noteq> None" "(if fs then Inr [] else retry_send obs) = Inr retries"
      "t = (FinishReport ck ((if last (fs # retries) then upd_sender (count_sent (ideal_length s)) else id)
        (emit_calls (take (nat (ideal_length s)) b) BATS_SEND_FLAG_FIN (fs # retries) (s\<lparr>iperf_data := b\<rparr>))))
        \<lparr>is_fin_received := True, state := STREAM_DONE\<rparr>"
    using t by (auto simp: Let_def rbind_eq_Inr block_to_send_def split: if_splits)
  have "filter id (fs # retries) = (if last (fs # retries) then [True] else [])"
    using r(2) retry_send_once [of obs retries] by (auto split: if_splits)
  then show thesis using that [OF r(1) _ d l r(3) rs] by blast
qed

lemma stream_inv_OnReceivedFIN:
  assumes "stream_inv s" and "OnReceivedFIN ck fs obs s = Inr t"
  shows "stream_inv t"
  using assms(2)
proof (cases rule: OnReceivedFIN_cases)
  case (1 b results)
  then have "stream_inv (s\<lparr>iperf_data := b\<rparr>)" using assms(1) by (intro stream_inv_data) (simp_all add: data_ok_of_inv)
  then show ?thesis using 1(5) stream_inv_block [of "s\<lparr>iperf_data := b\<rparr>" "ideal_length s"]
    by (simp add: stream_inv_emit_calls block_to_send_def)
qed

lemma stream_inv_record_interval [simp]:
  "stream_inv (reset_jitter s) = stream_inv s" "stream_inv (record_interval ck ms i n s) = stream_inv s"
  by (simp_all add: record_interval_def reset_jitter_def Let_def)

lemma stream_inv_OnReceivedIntervalData:
  "stream_inv s \<Longrightarrow> OnReceivedIntervalData L ck data p s = Inr t \<Longrightarrow> stream_inv t"
  by (auto simp: OnReceivedIntervalData_def rbind_eq_Inr Let_def ResetSeqRecord_def split: if_splits)

lemma stream_inv_HasNewGrpId: "stream_inv s \<Longrightarrow> HasNewGrpId L g q s = (n, t) \<Longrightarrow> stream_inv t"
  by (auto simp: HasNewGrpId_def split: if_splits)

lemma stream_inv_UpdateJitter: "stream_inv s \<Longrightarrow> UpdateJitter d s = Inr t \<Longrightarrow> stream_inv t"
  by (auto simp: UpdateJitter_def rbind_eq_Inr Let_def split: if_splits)

lemma stream_inv_UpdateGroup: "stream_inv s \<Longrightarrow> UpdateGroup L ck d h s = Inr t \<Longrightarrow> stream_inv t"
  by (cases "HasNewGrpId L (th_grp_id h) (th_seq h) s")
    (auto simp: UpdateGroup_def Let_def split: if_splits
      dest: stream_inv_HasNewGrpId stream_inv_OnReceivedIntervalData [rotated])

lemma stream_inv_UpdateReceived:
  assumes "stream_inv s" and "UpdateReceived L ck fs obs d len s = Inr (r, t)"
  shows "stream_inv t"
  using assms
  by (auto simp: UpdateReceived_def Let_def rbind_eq_Inr split: option.splits if_splits
      dest!: stream_inv_OnReceivedFIN [rotated] stream_inv_UpdateGroup [rotated] stream_inv_UpdateJitter [rotated])

lemma stream_inv_StartConnect: "stream_inv s \<Longrightarrow> StartConnect s = Inr t \<Longrightarrow> stream_inv t"
  by (auto simp: StartConnect_def rbind_eq_Inr)

lemma stream_inv_Switch: "stream_inv s \<Longrightarrow> SwitchDataBlockLength n s = Inr t \<Longrightarrow> stream_inv t"
  by (auto simp: SwitchDataBlockLength_def rbind_eq_Inr)

lemma stream_inv_retry_connect: "stream_inv s \<Longrightarrow> retry_connect cn s = Inr (r, t) \<Longrightarrow> stream_inv t"
  by (auto simp: retry_connect_def rbind_eq_Inr split: if_splits dest!: stream_inv_StartConnect [rotated])

lemma stream_inv_ConnectionCallback:
  assumes "stream_inv s" and "ConnectionCallback L ck fs obs cn ideal ev d len s = Inr (r, t)"
  shows "stream_inv t"
  using assms
  by (cases ev)
    (auto simp: ConnectionCallback_def rmap_eq_Inr split: if_splits
      dest: stream_inv_Switch [rotated] stream_inv_UpdateReceived [rotated] stream_inv_retry_connect [rotated])

lemma stream_inv_StartSend: "stream_inv s \<Longrightarrow> StartSend ck s = Inr t \<Longrightarrow> stream_inv t"
  by (auto simp: StartSend_def Let_def split: if_splits)

lemma stream_inv_prepare_block:
  assumes "stream_inv s" and "prepare_block ck s = Inr t"
  shows "stream_inv t"
proof -
  have d: "data_ok (iperf_data s)" using assms(1) by (rule data_ok_of_inv)
  show ?thesis
    using assms(2) d unfolding prepare_block_def Let_def
    by (elim data_ok_binds)
      (use assms(1) in \<open>auto simp: rbind_eq_Inr split: if_splits
         intro!: stream_inv_data dest!: data_ok_flag [rotated] data_ok_interval [rotated]\<close>)
qed

lemma stream_inv_SendFIN:
  assumes "stream_inv s" and "SendFIN ck ok s = Inr t"
  shows "stream_inv t"
proof (cases "IsReliableProtocol (protocol (config s))")
  case False
  with assms show ?thesis by (auto simp: SendFIN_def)
next
  case True
  with assms(2) have "rbind (store64 (iperf_data s) 16 (datagrams (summary (tx s)))) (\<lambda>b.
        rbind (set_grp_id (snapshot_cnt (tx s) mod 2 = 1) b) (\<lambda>b.
        rbind (store64 b 24 (wall_ms ck)) (\<lambda>b.
        rbind (set_last True b) (\<lambda>b.
        rbind (set_ack False b) (\<lambda>b.
        rbind (set_has_interval False b) (\<lambda>b.
        rbind (SendData BATS_SEND_FLAG_FIN (ideal_length s) ok (s\<lparr>iperf_data := b\<rparr>)) (\<lambda>s.
        Inr (if ok then (upd_sender (count_sent (ideal_length s)) s)\<lparr>thread := T_Exited\<rparr>
             else s\<lparr>thread := T_FinRetry\<rparr>)))))))) = Inr t"
    by (simp add: SendFIN_def)
  then show ?thesis
    by (elim data_ok_binds) (use assms(1) in \<open>auto simp: data_ok_of_inv rbind_eq_Inr split: if_splits
         dest!: stream_inv_SendData [rotated] intro: stream_inv_data\<close>)
qed

lemma stream_inv_thread_step:
  assumes "stream_inv s" and "thread_step L ck ok pc s = Inr t"
  shows "stream_inv t"
  using assms
  by (cases pc)
    (auto simp: rbind_eq_Inr count_block_def Let_def split: if_splits
      dest: stream_inv_SendFIN [rotated] stream_inv_SendData [rotated] stream_inv_prepare_block [rotated])

lemma stream_inv_step:
  assumes "stream_inv s" and "stream_step L s e = Inr t"
  shows "stream_inv t"
  using assms
  by (cases e)
    (auto simp: rmap_eq_Inr rbind_eq_Inr StartRecv_def SnapshotReport_def IsIntervalDataReceivedTimeout_def
       DeserializeReport_def Let_def split: if_splits
      dest: stream_inv_thread_step [rotated] stream_inv_ConnectionCallback [rotated]
        stream_inv_StartConnect [rotated] stream_inv_StartSend [rotated])

interpretation stream: event_machine "stream_step L" stream_inv
  by unfold_locales (rule stream_inv_step)

lemma stream_inv_new:
  assumes "new_stream r0 sh c sid now = Inr s"
  shows "stream_inv s"
  using assms init_iperf_data_ok [of "data_buffer_size c" "now + word_of_int sid"]
  by (auto simp: new_stream_def rbind_eq_Inr stream_inv_def blank_stream_def Let_def data_buffer_size_def
      max_bats_iperf_buffer_def max_bats_iperf_buffer_for_rc_def)

lemma stream_inv_accept:
  assumes "accept_stream r0 sh c sid cn ideal = Inr s"
  shows "stream_inv s"
  using assms init_iperf_data_ok [of "data_buffer_size c" 0]
  by (auto simp: accept_stream_def rbind_eq_Inr stream_inv_def blank_stream_def Let_def data_buffer_size_def
      SwitchDataBlockLength_def max_bats_iperf_buffer_def max_bats_iperf_buffer_for_rc_def)

section \<open>Fields after the shorthands\<close>

lemma emit_fields [simp]:
  "config (emit x s) = config s"
  "stream_identifier (emit x s) = stream_identifier s"
  "is_sum_printed (emit x s) = is_sum_printed s"
  "is_sum_received (emit x s) = is_sum_received s"
  "is_fin_received (emit x s) = is_fin_received s"
  "is_fin_acked (emit x s) = is_fin_acked s"
  "is_writable (emit x s) = is_writable s"
  "has_err_in_send (emit x s) = has_err_in_send s"
  "is_stopped (emit x s) = is_stopped s"
  "conn_state (emit x s) = conn_state s"
  "state (emit x s) = state s"
  "connector (emit x s) = connector s"
  "connect_retry_cnt (emit x s) = connect_retry_cnt s"
  "data_conn (emit x s) = data_conn s"
  "iperf_data (emit x s) = iperf_data s"
  "ideal_length (emit x s) = ideal_length s"
  "last_grp_id (emit x s) = last_grp_id s"
  "seq_of_last_changed_grp_id (emit x s) = seq_of_last_changed_grp_id s"
  "recv_seq_recorder (emit x s) = recv_seq_recorder s"
  "diff_s_r_list (emit x s) = diff_s_r_list s"
  "is_first_jitter_calculation (emit x s) = is_first_jitter_calculation s"
  "flow_shaper (emit x s) = flow_shaper s"
  "thread (emit x s) = thread s"
  "thread_grp_id (emit x s) = thread_grp_id s"
  "report (emit x s) = report s"
  by (simp_all add: emit_def)

lemma upd_sender_fields [simp]:
  "config (upd_sender f s) = config s"
  "stream_identifier (upd_sender f s) = stream_identifier s"
  "is_sum_printed (upd_sender f s) = is_sum_printed s"
  "is_sum_received (upd_sender f s) = is_sum_received s"
  "is_fin_received (upd_sender f s) = is_fin_received s"
  "is_fin_acked (upd_sender f s) = is_fin_acked s"
  "is_writable (upd_sender f s) = is_writable s"
  "has_err_in_send (upd_sender f s) = has_err_in_send s"
  "is_stopped (upd_sender f s) = is_stopped s"
  "conn_state (upd_sender f s) = conn_state s"
  "state (upd_sender f s) = state s"
  "connector (upd_sender f s) = connector s"
  "connect_retry_cnt (upd_sender f s) = connect_retry_cnt s"
  "data_conn (upd_sender f s) = data_conn s"
  "iperf_data (upd_sender f s) = iperf_data s"
  "ideal_length (upd_sender f s) = ideal_length s"
  "last_grp_id (upd_sender f s) = last_grp_id s"
  "seq_of_last_changed_grp_id (upd_sender f s) = seq_of_last_changed_grp_id s"
  "recv_seq_recorder (upd_sender f s) = recv_seq_recorder s"
  "diff_s_r_list (upd_sender f s) = diff_s_r_list s"
  "is_first_jitter_calculation (upd_sender f s) = is_first_jitter_calculation s"
  "flow_shaper (upd_sender f s) = flow_shaper s"
  "thread (upd_sender f s) = thread s"
  "thread_grp_id (upd_sender f s) = thread_grp_id s"
  "out (upd_sender f s) = out s"
  by (simp_all add: upd_sender_def)

lemma upd_receiver_fields [simp]:
  "config (upd_receiver f s) = config s"
  "stream_identifier (upd_receiver f s) = stream_identifier s"
  "is_sum_printed (upd_receiver f s) = is_sum_printed s"
  "is_sum_received (upd_receiver f s) = is_sum_received s"
  "is_fin_received (upd_receiver f s) = is_fin_received s"
  "is_fin_acked (upd_receiver f s) = is_fin_acked s"
  "is_writable (upd_receiver f s) = is_writable s"
  "has_err_in_send (upd_receiver f s) = has_err_in_send s"
  "is_stopped (upd_receiver f s) = is_stopped s"
  "conn_state (upd_receiver f s) = conn_state s"
  "state (upd_receiver f s) = state s"
  "connector (upd_receiver f s) = connector s"
  "connect_retry_cnt (upd_receiver f s) = connect_retry_cnt s"
  "data_conn (upd_receiver f s) = data_conn s"
  "iperf_data (upd_receiver f s) = iperf_data s"
  "ideal_length (upd_receiver f s) = ideal_length s"
  "last_grp_id (upd_receiver f s) = last_grp_id s"
  "seq_of_last_changed_grp_id (upd_receiver f s) = seq_of_last_changed_grp_id s"
  "recv_seq_recorder (upd_receiver f s) = recv_seq_recorder s"
  "diff_s_r_list (upd_receiver f s) = diff_s_r_list s"
  "is_first_jitter_calculation (upd_receiver f s) = is_first_jitter_calculation s"
  "flow_shaper (upd_receiver f s) = flow_shaper s"
  "thread (upd_receiver f s) = thread s"
  "thread_grp_id (upd_receiver f s) = thread_grp_id s"
  "out (upd_receiver f s) = out s"
  by (simp_all add: upd_receiver_def)

lemma upd_reports [simp]:
  "out (emit x s) = out s @ [x]"
  "report (upd_sender f s) = (report s)\<lparr>sender_report := f (tx s)\<rparr>"
  "report (upd_receiver f s) = (report s)\<lparr>receiver_report := f (rx s)\<rparr>"
  by (simp_all add: emit_def upd_sender_def upd_receiver_def)

end
