(* ===== verification/Stream_Sequence.thy ===== *)
theory Stream_Sequence
  imports Stream_Integrity
begin

text \<open>
  Sequence numbers: the part of a stream that decides what is sent (\<open>view\<close>), which operations
  leave it alone, and the invariant \<open>seq_inv\<close> that ties accepted blocks to the datagram counter.
\<close>

section \<open>What a stream does to the outside\<close>

text \<open>
  The parts of a stream that determine what it sends and whom it connects to. Reporting,
  printing and jitter leave them alone.
\<close>

fun is_call :: "stream_out \<Rightarrow> bool" where
  "is_call (Print t) = False"
| "is_call _ = True"

definition calls :: "('r, 'f) IperfStream \<Rightarrow> stream_out list" where
  "calls s = filter is_call (out s)"

type_synonym view = "octet list \<times> u64 \<times> stream_out list \<times> thread_pc \<times> bool \<times> int"

definition view :: "('r, 'f) IperfStream \<Rightarrow> view" where
  "view s = (iperf_data s, datagrams (summary (tx s)), calls s, thread s, connector s, connect_retry_cnt s)"

lemma view_fields [simp]:
  "view (s\<lparr>state := a\<rparr>) = view s"
  "view (s\<lparr>conn_state := b\<rparr>) = view s"
  "view (s\<lparr>data_conn := d\<rparr>) = view s"
  "view (s\<lparr>flow_shaper := h\<rparr>) = view s"
  "view (s\<lparr>thread_grp_id := i\<rparr>) = view s"
  "view (s\<lparr>is_stopped := i\<rparr>) = view s"
  "view (s\<lparr>is_writable := i\<rparr>) = view s"
  "view (s\<lparr>has_err_in_send := i\<rparr>) = view s"
  "view (s\<lparr>is_fin_received := i\<rparr>) = view s"
  "view (s\<lparr>is_fin_acked := i\<rparr>) = view s"
  "view (s\<lparr>is_sum_received := i\<rparr>) = view s"
  "view (s\<lparr>is_sum_printed := i\<rparr>) = view s"
  "view (s\<lparr>ideal_length := j\<rparr>) = view s"
  "view (s\<lparr>last_grp_id := j\<rparr>) = view s"
  "view (s\<lparr>stream_identifier := k\<rparr>) = view s"
  "view (s\<lparr>seq_of_last_changed_grp_id := k\<rparr>) = view s"
  "view (s\<lparr>recv_seq_recorder := l\<rparr>) = view s"
  "view (s\<lparr>diff_s_r_list := m\<rparr>) = view s"
  "view (s\<lparr>is_first_jitter_calculation := i\<rparr>) = view s"
  "view (upd_receiver f s) = view s"
  "view (emit (Print x) s) = view s"
  by (simp_all add: view_def calls_def)

lemma view_upd_sender [simp]:
  "datagrams (summary (f (tx s))) = datagrams (summary (tx s)) \<Longrightarrow> view (upd_sender f s) = view s"
  by (simp add: view_def calls_def)

lemma view_prints [simp]:
  "view (PrintLastInterval ck s) = view s" "view (PrintSendSummary s) = view s"
  "view (PrintReceiveSummary s) = view s" "view (PrintSendRecvSummary s) = view s"
  by (simp_all add: PrintLastInterval_def PrintSendSummary_def PrintReceiveSummary_def PrintSendRecvSummary_def)

lemma view_summaries [simp]:
  "view (s\<lparr>state := a, report := GenSendSummary c (report s)\<rparr>) = view s"
  "view (s\<lparr>report := GenReceiveSummary c (report s)\<rparr>) = view s"
  by (simp_all add: view_def calls_def GenSendSummary_def GenReceiveSummary_def Let_def)

lemma view_FinishReport [simp]: "view (FinishReport ck s) = view s"
  by (simp add: FinishReport_def Let_def del: upd_reports upd_receiver_fields)

lemma view_record_interval [simp]: "view (reset_jitter s) = view s" "view (record_interval ck ms i n s) = view s"
  by (simp_all add: record_interval_def reset_jitter_def Let_def del: upd_reports upd_receiver_fields)

lemma view_OnReceivedIntervalData: "OnReceivedIntervalData L ck d p s = Inr t \<Longrightarrow> view t = view s"
  by (auto simp: OnReceivedIntervalData_def rbind_eq_Inr Let_def ResetSeqRecord_def split: if_splits)

lemma view_UpdateGroup: "UpdateGroup L ck d h s = Inr t \<Longrightarrow> view t = view s"
  by (auto simp: UpdateGroup_def Let_def HasNewGrpId_def split: if_splits dest!: view_OnReceivedIntervalData)
     
lemma view_UpdateJitter: "UpdateJitter d s = Inr t \<Longrightarrow> view t = view s"
  by (auto simp: UpdateJitter_def rbind_eq_Inr Let_def split: if_splits)

text \<open>
  What happens to a sending stream: everything but a FIN of the peer and the peer's report,
  which only a receiving stream gets.
\<close>

fun sender_event :: "stream_event \<Rightarrow> bool" where
  "sender_event (EvDeserializeReport b p) = False"
| "sender_event (EvCallback ck fs obs cn ideal BATS_CONNECTION_DATA_RECEIVED (Some d) len) =
     (case read_test_header d of Inr h \<Rightarrow> \<not> (th_last h \<and> \<not> th_ack h) | Inl _ \<Rightarrow> True)"
| "sender_event _ = True"

lemma view_UpdateReceived:
  assumes "UpdateReceived L ck fs obs d len s = Inr (r, t)"
    and "\<And>x h. d = Some x \<Longrightarrow> read_test_header x = Inr h \<Longrightarrow> \<not> (th_last h \<and> \<not> th_ack h)"
  shows "view t = view s"
  using assms
  by (auto simp: UpdateReceived_def Let_def rbind_eq_Inr split: option.splits if_splits
      dest!: view_UpdateGroup view_UpdateJitter)


section \<open>Sequence numbers\<close>

text \<open>The sequence numbers of the blocks that \<open>SendData\<close> accepted, in order.\<close>

fun accepted_seqs :: "stream_out list \<Rightarrow> u64 list" where
  "accepted_seqs [] = []"
| "accepted_seqs (Sent d f ok # xs) =
     (if ok then (case load64 d 16 of Inr q \<Rightarrow> q # accepted_seqs xs | Inl _ \<Rightarrow> accepted_seqs xs)
      else accepted_seqs xs)"
| "accepted_seqs (x # xs) = accepted_seqs xs"

lemma accepted_seqs_append [simp]: "accepted_seqs (xs @ ys) = accepted_seqs xs @ accepted_seqs ys"
  by (induction xs rule: accepted_seqs.induct) (auto split: sum.splits)

lemma accepted_seqs_calls: "accepted_seqs (filter is_call xs) = accepted_seqs xs"
  by (induction xs rule: accepted_seqs.induct) (auto split: sum.splits)

text \<open>The blocks that the connection accepted.\<close>

fun blocks_accepted :: "stream_out list \<Rightarrow> octet list list" where
  "blocks_accepted [] = []"
| "blocks_accepted (Sent d f ok # xs) = (if ok then d # blocks_accepted xs else blocks_accepted xs)"
| "blocks_accepted (x # xs) = blocks_accepted xs"

lemma blocks_accepted_append [simp]: "blocks_accepted (xs @ ys) = blocks_accepted xs @ blocks_accepted ys"
  by (induction xs rule: blocks_accepted.induct) auto

lemma blocks_accepted_Sent [simp]: "blocks_accepted (map (Sent d f) oks) = replicate (length (filter id oks)) d"
  by (induction oks) auto

fun retrying :: "thread_pc \<Rightarrow> bool" where
  "retrying (T_Retry n) = True"
| "retrying T_FinRetry = True"
| "retrying _ = False"

text \<open>
  \<open>n\<close> bounds the number of steps so far. Accepted numbers increase and stay below the counter,
  and a block that is being retried carries the counter.
\<close>

definition seq_inv :: "nat \<Rightarrow> ('r, 'f) IperfStream \<Rightarrow> bool" where
  "seq_inv n s \<longleftrightarrow> (let c = datagrams (summary (tx s)); ss = accepted_seqs (calls s) in
     sorted_wrt (<) (map unat ss) \<and> (\<forall>q \<in> set ss. unat q < unat c) \<and> unat c \<le> n
     \<and> data_ok (iperf_data s) \<and> (retrying (thread s) \<longrightarrow> load64 (iperf_data s) 16 = Inr c))"

lemma seq_inv_mono: "seq_inv n s \<Longrightarrow> n \<le> m \<Longrightarrow> seq_inv m s"
  by (auto simp: seq_inv_def Let_def)

lemma seq_inv_view: "view t = view s \<Longrightarrow> seq_inv n t = seq_inv n s"
  by (auto simp: seq_inv_def Let_def view_def)

lemma seq_inv_prints [simp]:
  "seq_inv n (PrintLastInterval ck s) = seq_inv n s"
  "seq_inv n (PrintSendSummary s) = seq_inv n s"
  "seq_inv n (PrintSendRecvSummary s) = seq_inv n s"
  "seq_inv n (FinishReport ck s) = seq_inv n s"
  by (rule seq_inv_view, simp)+

lemma seq_inv_quiet:
  assumes "seq_inv n s" and "iperf_data t = iperf_data s" "datagrams (summary (tx t)) = datagrams (summary (tx s))"
    and "accepted_seqs (calls t) = accepted_seqs (calls s)" and "retrying (thread t) \<longrightarrow> retrying (thread s)"
  shows "seq_inv n t"
  using assms(1,5) unfolding seq_inv_def Let_def assms(2-4) by blast

text \<open>The buffer once the sequence number is written.\<close>

definition seq_ok :: "u64 \<Rightarrow> octet list \<Rightarrow> bool" where
  "seq_ok q b \<longleftrightarrow> data_ok b \<and> load64 b 16 = Inr q"

lemma seq_ok_poke:
  assumes "seq_ok q b" and "poke b off vs = Inr b'" and "24 \<le> off" and "off + length vs \<le> 72"
  shows "seq_ok q b'"
proof -
  have "data_ok b'" by (rule data_ok_poke [OF _ assms(2)]) (use assms in \<open>simp_all add: seq_ok_def\<close>)
  then show ?thesis using assms by (auto simp: seq_ok_def poke_eq_Inr buf_simps)
qed

lemma seq_ok_init:
  assumes "rbind (store64 b 16 v) f = Inr y" and "data_ok b" and "\<And>b'. seq_ok v b' \<Longrightarrow> f b' = Inr y \<Longrightarrow> P"
  shows P
proof -
  from assms(1) obtain b' where b': "store64 b 16 v = Inr b'" "f b' = Inr y" by (auto simp: rbind_eq_Inr)
  have "data_ok b'" by (rule data_ok_store64 [OF assms(2) b'(1)]) simp_all
  moreover have "load64 b' 16 = Inr v" using b'(1) f64.load_after_store by (simp add: store64_def load64_def)
  ultimately show P using assms(3) b'(2) by (simp add: seq_ok_def)
qed

lemma seq_ok_time:
  assumes "rbind (store64 b 24 v) f = Inr y" and "seq_ok q b" and "\<And>b'. seq_ok q b' \<Longrightarrow> f b' = Inr y \<Longrightarrow> P"
  shows P
  using assms seq_ok_poke [of q b 24 "enc64 v"] by (auto simp: rbind_eq_Inr store64_def)

lemma seq_ok_set_flag: "set_header_flag n v b = Inr b' \<Longrightarrow> seq_ok q b \<Longrightarrow> seq_ok q b'"
  using seq_ok_poke [of q b 32 _ b'] by (auto simp: rbind_eq_Inr set_header_flag_def store8_def)

lemma seq_ok_flag:
  assumes "rbind (set_header_flag n v b) f = Inr y" and "seq_ok q b" and "\<And>b'. seq_ok q b' \<Longrightarrow> f b' = Inr y \<Longrightarrow> P"
  shows P
  using assms by (auto simp: rbind_eq_Inr dest: seq_ok_set_flag)

lemma seq_ok_interval:
  assumes "SerializeInterval b sizeof_test_header i = Inr (b', p)" and "seq_ok q b"
  shows "seq_ok q b'"
  using SerializeInterval_frame [OF assms(1)] data_ok_interval [OF _ assms(1)] assms(2)
  by (simp add: seq_ok_def load64_def sizeof_test_header_def)

lemmas seq_ok_binds = seq_ok_init seq_ok_time seq_ok_flag

lemma prepare_block_seq:
  assumes "prepare_block ck s = Inr t" and "data_ok (iperf_data s)"
  obtains b g where "t = s\<lparr>iperf_data := b, thread_grp_id := g\<rparr>" and "seq_ok (datagrams (summary (tx s))) b"
proof -
  have keep: "s\<lparr>iperf_data := b\<rparr> = s\<lparr>iperf_data := b', thread_grp_id := g\<rparr> \<longleftrightarrow> b' = b \<and> g = thread_grp_id s" for b b' g
    by (cases s) auto
  have "\<exists>b g. t = s\<lparr>iperf_data := b, thread_grp_id := g\<rparr> \<and> seq_ok (datagrams (summary (tx s))) b"
    using assms unfolding prepare_block_def Let_def
    by (elim seq_ok_binds)
      (auto simp: rbind_eq_Inr keep split: if_splits dest!: seq_ok_set_flag seq_ok_interval)
  then show thesis using that by blast
qed

lemma accepted_seqs_block:
  assumes "seq_ok q b"
  shows "accepted_seqs [Sent (take k b) f ok] = [] \<or> (accepted_seqs [Sent (take k b) f ok] = [q] \<and> ok)"
proof (cases "24 \<le> k \<and> k \<le> length b")
  case True
  then show ?thesis using assms by (simp add: seq_ok_def buf_simps)
next
  case False
  then consider "k < 24" "k \<le> length b" | "length b < k" by linarith
  then show ?thesis using assms by cases (auto simp: seq_ok_def load64_def peek_def)
qed

lemma seq_inv_send:
  assumes "seq_inv n s" and "seq_ok (datagrams (summary (tx s))) b" and "n + 1 < 2 ^ 64"
    and "iperf_data t = b" and "datagrams (summary (tx t)) = datagrams (summary (tx s)) + 1"
    and "calls t = calls s @ [Sent (take k b) f ok]" and "\<not> retrying (thread t)"
  shows "seq_inv (n + 1) t"
proof -
  let ?c = "datagrams (summary (tx s))"
  have "unat ?c \<le> n" using assms(1) by (simp add: seq_inv_def Let_def)
  then have "unat (?c + 1) = unat ?c + 1" using assms(3) by (simp add: unat_word_ariths)
  then show ?thesis
    using accepted_seqs_block [OF assms(2), of k f ok] assms
    by (auto simp: seq_inv_def Let_def seq_ok_def sorted_wrt_append simp del: accepted_seqs.simps)
qed


lemma calls_emit [simp]: "is_call x \<Longrightarrow> calls (emit x s) = calls s @ [x]"
  by (simp add: calls_def)

lemma calls_keep [simp]:
  "calls (upd_sender f s) = calls s"
  "calls (s\<lparr>iperf_data := b\<rparr>) = calls s"
  "calls (s\<lparr>thread := p\<rparr>) = calls s"
  "calls (s\<lparr>thread_grp_id := g\<rparr>) = calls s"
  "calls (s\<lparr>flow_shaper := f'\<rparr>) = calls s"
  "calls (s\<lparr>connector := c\<rparr>) = calls s"
  "calls (s\<lparr>connect_retry_cnt := k\<rparr>) = calls s"
  by (simp_all add: calls_def)

lemma view_calls: "view t = view s \<Longrightarrow> calls t = calls s"
  by (simp add: view_def)

text \<open>Events of the other threads.\<close>

lemma seq_inv_Stop: "seq_inv n s \<Longrightarrow> seq_inv n (Stop ck s)"
proof -
  assume a: "seq_inv n s"
  let ?f = "if role (config s) = ROLE_RECEIVER \<and> \<not> is_fin_received s then FinishReport ck (s\<lparr>is_stopped := True\<rparr>) else s\<lparr>is_stopped := True\<rparr>"
  have "view ?f = view s" by simp
  then show ?thesis
    by (intro seq_inv_quiet [OF a]) (auto simp: Stop_def Let_def view_def calls_def)
qed


lemma seq_inv_StartConnect: "seq_inv n s \<Longrightarrow> StartConnect s = Inr t \<Longrightarrow> seq_inv n t"
  by (erule seq_inv_quiet) (auto simp: StartConnect_def rbind_eq_Inr calls_def)

lemma seq_inv_retry_connect: "seq_inv n s \<Longrightarrow> retry_connect cn s = Inr (r, t) \<Longrightarrow> seq_inv n t"
  by (erule seq_inv_quiet) (auto simp: retry_connect_def StartConnect_def rbind_eq_Inr calls_def split: if_splits)

lemma view_Switch: "SwitchDataBlockLength m s = Inr t \<Longrightarrow> view t = view s"
  by (auto simp: SwitchDataBlockLength_def rbind_eq_Inr)

lemma view_emit_cong: "view s = view t \<Longrightarrow> view (emit x s) = view (emit x t)"
  by (simp add: view_def calls_def)

lemma callback_view:
  assumes "ConnectionCallback L ck fs obs cn ideal ev d len s = Inr (r, t)" and "ev \<noteq> BATS_CONNECTION_DATA_RECEIVED"
    and "\<not> retry_connect cn s = Inr (r, t)"
  shows "view t = view (if ev = BATS_CONNECTION_WRITABLE then emit Notify s else s)"
  using assms
  by (cases ev) (auto simp: ConnectionCallback_def rmap_eq_Inr dest: view_Switch split: if_splits intro: view_emit_cong)
lemma seq_inv_Notify: "seq_inv n (emit Notify s) = seq_inv n s"
  by (simp add: seq_inv_def calls_def)

lemma seq_inv_callback:
  assumes "seq_inv n s" and "ConnectionCallback L ck fs obs cn ideal ev d len s = Inr (r, t)"
    and "sender_event (EvCallback ck fs obs cn ideal ev d len)"
  shows "seq_inv n t"
proof (cases "ev = BATS_CONNECTION_DATA_RECEIVED")
  case True
  then have "UpdateReceived L ck fs obs d len s = Inr (r, t)" using assms(2) by (simp add: ConnectionCallback_def)
  then have "view t = view s"
  proof (rule view_UpdateReceived)
    fix x h assume "d = Some x" "read_test_header x = Inr h"
    then show "\<not> (th_last h \<and> \<not> th_ack h)" using assms(3) True by simp
  qed
  then show ?thesis using assms(1) seq_inv_view by blast
next
  case other: False
  show ?thesis
  proof (cases "retry_connect cn s = Inr (r, t)")
    case True
    then show ?thesis using assms(1) seq_inv_retry_connect by blast
  next
    case False
    show ?thesis using callback_view [OF assms(2) other False] assms(1) seq_inv_view seq_inv_Notify
      by (metis (full_types))
  qed
qed

text \<open>The thread.\<close>

lemma count_sent_datagrams [simp]: "datagrams (summary (count_sent len r)) = datagrams (summary r) + 1"
  by (simp add: count_sent_def)

lemma seq_inv_seq_ok: "seq_inv n s \<Longrightarrow> retrying (thread s) \<Longrightarrow> seq_ok (datagrams (summary (tx s))) (iperf_data s)"
  by (simp add: seq_inv_def seq_ok_def Let_def)

lemma seq_inv_count:
  assumes "seq_inv n s" and "n + 1 < 2 ^ 64"
  shows "seq_inv (n + 1) (count_block L len s)"
proof -
  have "unat (datagrams (summary (tx s))) \<le> n" using assms(1) by (simp add: seq_inv_def Let_def)
  then have "unat (datagrams (summary (tx s)) + 1) = unat (datagrams (summary (tx s))) + 1"
    using assms(2) by (simp add: unat_word_ariths)
  then show ?thesis using assms(1) by (auto simp: seq_inv_def Let_def count_block_def)
qed

lemma seq_inv_fail:
  assumes "seq_inv n s" and "seq_ok (datagrams (summary (tx s))) b"
    and "iperf_data t = b" and "datagrams (summary (tx t)) = datagrams (summary (tx s))"
    and "calls t = calls s @ [Sent d f False]"
  shows "seq_inv n t"
  using assms by (simp add: seq_inv_def seq_ok_def Let_def)

lemma seq_inv_SendFIN:
  assumes "seq_inv n s" and "SendFIN ck ok s = Inr t" and "n + 1 < 2 ^ 64"
  shows "seq_inv (n + 1) t"
proof (cases "IsReliableProtocol (protocol (config s))")
  case False
  then have "seq_inv n t"
    using assms(2) by (intro seq_inv_quiet [OF assms(1)]) (auto simp: SendFIN_def PrintSendSummary_def calls_def)
  then show ?thesis by (rule seq_inv_mono) simp
next
  case True
  have "\<exists>b. seq_ok (datagrams (summary (tx s))) b \<and> rbind (SendData BATS_SEND_FLAG_FIN (ideal_length s) ok (s\<lparr>iperf_data := b\<rparr>)) (\<lambda>s.
        Inr (if ok then (upd_sender (count_sent (ideal_length s)) s)\<lparr>thread := T_Exited\<rparr>
             else s\<lparr>thread := T_FinRetry\<rparr>)) = Inr t"
    using assms(1,2) True unfolding SendFIN_def if_P [OF True]
    by (elim seq_ok_binds) (auto simp: seq_inv_def Let_def)
  then obtain b where b: "seq_ok (datagrams (summary (tx s))) b"
    "t = (let s = emit (Sent (take (nat (ideal_length s)) b) BATS_SEND_FLAG_FIN ok) (s\<lparr>iperf_data := b\<rparr>) in
          if ok then (upd_sender (count_sent (ideal_length s)) s)\<lparr>thread := T_Exited\<rparr>
             else s\<lparr>thread := T_FinRetry\<rparr>)"
    by (auto simp: rbind_eq_Inr SendData_def block_to_send_def Let_def split: if_splits)
  show ?thesis
  proof (cases ok)
    case True
    show ?thesis
      by (rule seq_inv_send [OF assms(1) b(1) assms(3)]) (auto simp: b(2) True Let_def)
  next
    case False
    have "seq_inv n t" by (rule seq_inv_fail [OF assms(1) b(1)]) (auto simp: b(2) False Let_def)
    then show ?thesis by (rule seq_inv_mono) simp
  qed
qed


lemma seq_inv_Retry:
  assumes "seq_inv n s" and "thread_step L ck ok (T_Retry len) s = Inr t" and "n + 1 < 2 ^ 64" and "thread s = T_Retry len"
  shows "seq_inv (n + 1) t"
proof -
  note seq = seq_inv_seq_ok [OF assms(1), unfolded assms(4), simplified]
  consider "t = s" | "t = count_block L len s"
    | "ok" "t = count_block L len (emit (Sent (take (nat len) (iperf_data s)) BATS_SEND_FLAG_NONE True) s)"
    | "\<not> ok" "t = emit (Sent (take (nat len) (iperf_data s)) BATS_SEND_FLAG_NONE False) s"
    using assms(2) by (fastforce simp: rbind_eq_Inr SendData_def block_to_send_def split: if_splits)
  then show ?thesis
  proof cases
    case 3
    then show ?thesis by (intro seq_inv_send [OF assms(1) seq assms(3)]) (auto simp: count_block_def Let_def)
  next
    case 4
    then have "seq_inv n t" by (intro seq_inv_fail [OF assms(1) seq]) auto
    then show ?thesis by (rule seq_inv_mono) simp
  qed (use assms(1,3) seq_inv_mono [of n s "n + 1"] seq_inv_count in auto)
qed

lemma seq_inv_FinRetry:
  assumes "seq_inv n s" and "thread_step L ck ok T_FinRetry s = Inr t" and "n + 1 < 2 ^ 64" and "thread s = T_FinRetry"
  shows "seq_inv (n + 1) t"
proof -
  note seq = seq_inv_seq_ok [OF assms(1), unfolded assms(4), simplified]
  let ?d = "take (nat (ideal_length s)) (iperf_data s)"
  consider "t = s" | "t = s\<lparr>thread := T_Exited\<rparr>"
    | "ok" "t = upd_sender (count_sent (ideal_length s)) (emit (Sent ?d BATS_SEND_FLAG_FIN True) s)\<lparr>thread := T_Exited\<rparr>"
    | "\<not> ok" "t = emit (Sent ?d BATS_SEND_FLAG_FIN False) s"
    using assms(2) by (fastforce simp: rbind_eq_Inr SendData_def block_to_send_def split: if_splits)
  then show ?thesis
  proof cases
    case 2
    then have "seq_inv n t" by (intro seq_inv_quiet [OF assms(1)]) auto
    then show ?thesis by (rule seq_inv_mono) simp
  next
    case 3
    then show ?thesis by (intro seq_inv_send [OF assms(1) seq assms(3)]) auto
  next
    case 4
    then have "seq_inv n t" by (intro seq_inv_fail [OF assms(1) seq]) auto
    then show ?thesis by (rule seq_inv_mono) simp
  qed (use assms(1) seq_inv_mono [of n s "n + 1"] in auto)
qed

lemma seq_inv_Block:
  assumes "seq_inv n s" and "thread_step L ck ok T_Block s = Inr t" and "n + 1 < 2 ^ 64"
  shows "seq_inv (n + 1) t"
proof (cases "t = s\<lparr>thread := T_Loop\<rparr>")
  case True
  then have "seq_inv n t" by (intro seq_inv_quiet [OF assms(1)]) auto
  then show ?thesis by (rule seq_inv_mono) simp
next
  case False
  then obtain u where u: "prepare_block ck s = Inr u"
    "rbind (SendData BATS_SEND_FLAG_NONE (ideal_length u) ok u) (\<lambda>s.
        Inr (if ok then count_block L (ideal_length s) s else s\<lparr>thread := T_Retry (ideal_length s)\<rparr>)) = Inr t"
    using assms(2) by (auto simp: rbind_eq_Inr split: if_splits)
  have d: "data_ok (iperf_data s)" using assms(1) by (simp add: seq_inv_def Let_def)
  obtain b g where b: "u = s\<lparr>iperf_data := b, thread_grp_id := g\<rparr>" "seq_ok (datagrams (summary (tx s))) b"
    using prepare_block_seq [OF u(1) d] .
  let ?v = "emit (Sent (take (nat (ideal_length s)) b) BATS_SEND_FLAG_NONE ok) u"
  have t: "t = (if ok then count_block L (ideal_length s) ?v else ?v\<lparr>thread := T_Retry (ideal_length s)\<rparr>)"
    using u(2) b(1) by (auto simp: rbind_eq_Inr SendData_def block_to_send_def split: if_splits)
  show ?thesis
  proof (cases ok)
    case True
    then show ?thesis using t b(1)
      by (intro seq_inv_send [OF assms(1) b(2) assms(3)]) (auto simp: count_block_def Let_def)
  next
    case False
    then have "seq_inv n t" using t b(1) by (intro seq_inv_fail [OF assms(1) b(2)]) auto
    then show ?thesis by (rule seq_inv_mono) simp
  qed
qed

lemma seq_inv_thread_step:
  assumes "seq_inv n s" and "thread_step L ck ok (thread s) s = Inr t" and "n + 1 < 2 ^ 64"
  shows "seq_inv (n + 1) t"
proof (cases "thread s = T_Fin \<or> retrying (thread s) \<or> thread s = T_Block")
  case True
  then show ?thesis
    using assms seq_inv_SendFIN [OF assms(1) _ assms(3)] seq_inv_Block [OF assms(1) _ assms(3)]
      seq_inv_Retry [OF assms(1) _ assms(3)] seq_inv_FinRetry [OF assms(1) _ assms(3)]
    by (cases "thread s") (auto simp del: thread_step.simps(4-9) simp: thread_step.simps(8))
next
  case False
  have stop: "seq_inv n (Stop ck s)" using assms(1) by (rule seq_inv_Stop)
  have "seq_inv n t"
    using assms(1,2) False stop
    by (cases "thread s")
      (auto split: if_splits simp: calls_def intro: seq_inv_quiet [OF assms(1)] seq_inv_quiet [OF stop])
  then show ?thesis by (rule seq_inv_mono) simp
qed

text \<open>The polling thread's operations on reports do not touch what is sent.\<close>

lemma view_reports:
  "SnapshotReport ck s = Inr (r, t) \<Longrightarrow> view t = view s"
  "IsIntervalDataReceivedTimeout ck s = Inr (r, t) \<Longrightarrow> view t = view s"
  by (auto simp: SnapshotReport_def IsIntervalDataReceivedTimeout_def Let_def rbind_eq_Inr split: if_splits)

lemma seq_inv_StartRecv: "seq_inv n s \<Longrightarrow> StartRecv s = Inr t \<Longrightarrow> seq_inv n t"
  by (erule seq_inv_quiet) (auto simp: StartRecv_def calls_def split: if_splits)

lemma seq_inv_StartSend: "seq_inv n s \<Longrightarrow> StartSend ck s = Inr t \<Longrightarrow> seq_inv n t"
  by (erule seq_inv_quiet) (auto simp: StartSend_def Let_def calls_def split: if_splits)

lemma seq_inv_step:
  assumes "seq_inv n s" and "stream_step L s e = Inr t" and "sender_event e" and "n + 1 < 2 ^ 64"
  shows "seq_inv (n + 1) t"
proof (cases "\<exists>ck ok. e = EvThread ck ok")
  case True
  then show ?thesis using assms seq_inv_thread_step by auto
next
  case False
  have "seq_inv n t"
  proof (cases e)
    case (EvCallback ck fs obs cn ideal ev d len)
    then show ?thesis using assms(1-3) seq_inv_callback by (auto simp: rmap_eq_Inr)
  next
    case (EvSnapshot ck)
    then show ?thesis using assms(1,2) view_reports(1) seq_inv_view by (fastforce simp: rmap_eq_Inr)
  next
    case (EvIntervalTimeout ck)
    then show ?thesis using assms(1,2) view_reports(2) seq_inv_view by (fastforce simp: rmap_eq_Inr)
  qed (use assms(1-3) False seq_inv_StartConnect seq_inv_Stop seq_inv_StartRecv seq_inv_StartSend in
       auto)
  then show ?thesis by (rule seq_inv_mono) simp
qed

lemma seq_inv_run:
  assumes "seq_inv n s" and "run_events (stream_step L) es s = Inr t" and "\<forall>e \<in> set es. sender_event e"
    and "n + length es < 2 ^ 64"
  shows "seq_inv (n + length es) t"
  using assms
proof (induction es arbitrary: s n)
  case Nil
  then show ?case by simp
next
  case (Cons e es)
  from Cons.prems(2) obtain u where u: "stream_step L s e = Inr u" "run_events (stream_step L) es u = Inr t"
    by (auto simp: rbind_eq_Inr)
  have "seq_inv (n + 1) u" using Cons.prems by (intro seq_inv_step [OF Cons.prems(1) u(1)]) auto
  from Cons.IH [OF this u(2)] Cons.prems show ?case by simp
qed


lemma seq_inv_fresh:
  assumes "stream_inv s" and "datagrams (summary (tx s)) = 0" and "out s = []" and "thread s = T_None"
  shows "seq_inv 0 s"
  using assms by (simp add: seq_inv_def calls_def stream_inv_def)

lemma new_stream_fresh:
  assumes "new_stream r0 sh c sid now = Inr s"
  shows "datagrams (summary (tx s)) = 0 \<and> out s = [] \<and> thread s = T_None \<and> connect_retry_cnt s = 0 \<and> config s = c"
  using assms by (auto simp: new_stream_def rbind_eq_Inr Let_def blank_stream_def TestReport_init_def TestInterval_init_def)

lemma accept_stream_fresh:
  assumes "accept_stream r0 sh c sid cn ideal = Inr s"
  shows "datagrams (summary (tx s)) = 0 \<and> out s = [] \<and> thread s = T_None \<and> connect_retry_cnt s = 0
    \<and> \<not> connector s \<and> config s = c"
  using assms by (auto simp: accept_stream_def SwitchDataBlockLength_def rbind_eq_Inr Let_def blank_stream_def TestReport_init_def TestInterval_init_def)

end
