(* ===== verification/Stream_Handshake.thy ===== *)
theory Stream_Handshake
  imports Stream_Integrity
begin

text \<open>
  The FIN handshake of two streams: what the header of a block says after each store
  (\<open>carries\<close>, with rules for \<open>returns\<close>), what \<open>SendFIN\<close> and \<open>OnReceivedFIN\<close> put on the wire, and
  how each side takes it.
\<close>

definition carries :: "octet list \<Rightarrow> iperf_test_header \<Rightarrow> bool" where
  "carries b h \<longleftrightarrow> data_ok b \<and> read_test_header b = Inr h"

lemma carries_exists: "data_ok b \<Longrightarrow> \<exists>h. carries b h"
  using read_test_header_defined [of b] by (auto simp: carries_def data_ok_def)

lemma carries_length: "carries b h \<Longrightarrow> 72 \<le> length b"
  by (simp add: carries_def data_ok_def)

lemma carries_store:
  assumes "carries b h" and "store64 b off q = Inr b'" and "8 \<le> off" and "off + 8 \<le> 72"
    and "read_test_header b' = Inr h'"
  shows "carries b' h'"
  using assms data_ok_store64 by (auto simp: carries_def)

lemma carries_seq [wp]:
  assumes "carries b h" and "\<And>b'. carries b' (h\<lparr>th_seq := q\<rparr>) \<Longrightarrow> length b' = length b \<Longrightarrow> Q b'"
  shows "returns (store64 b 16 q) Q"
proof -
  have l: "72 \<le> length b" using assms(1) by (rule carries_length)
  then have st: "store64 b 16 q = Inr (overwrite b 16 (enc64 q))" by (simp add: buf_simps)
  have "carries (overwrite b 16 (enc64 q)) (h\<lparr>th_seq := q\<rparr>)"
    by (rule carries_store [OF assms(1) st])
      (use assms(1) l in \<open>auto simp: carries_def read_test_header_def rbind_eq_Inr buf_simps\<close>)
  then show ?thesis using assms(2) l by (simp add: returns_def st length_overwrite)
qed

lemma carries_time [wp]:
  assumes "carries b h" and "\<And>b'. carries b' (h\<lparr>th_time := q\<rparr>) \<Longrightarrow> length b' = length b \<Longrightarrow> Q b'"
  shows "returns (store64 b 24 q) Q"
proof -
  have l: "72 \<le> length b" using assms(1) by (rule carries_length)
  then have st: "store64 b 24 q = Inr (overwrite b 24 (enc64 q))" by (simp add: buf_simps)
  have "carries (overwrite b 24 (enc64 q)) (h\<lparr>th_time := q\<rparr>)"
    by (rule carries_store [OF assms(1) st])
      (use assms(1) l in \<open>auto simp: carries_def read_test_header_def rbind_eq_Inr buf_simps\<close>)
  then show ?thesis using assms(2) l by (simp add: returns_def st length_overwrite)
qed

lemma carries_flag:
  assumes "carries b h"
  shows "returns (set_header_flag n v b) (\<lambda>b'. length b' = length b
    \<and> (n = 0 \<longrightarrow> carries b' (h\<lparr>th_grp_id := v\<rparr>)) \<and> (n = 1 \<longrightarrow> carries b' (h\<lparr>th_last := v\<rparr>))
    \<and> (n = 2 \<longrightarrow> carries b' (h\<lparr>th_ack := v\<rparr>)) \<and> (n = 3 \<longrightarrow> carries b' (h\<lparr>th_has_interval := v\<rparr>)))"
proof -
  have l: "72 \<le> length b" using assms by (rule carries_length)
  obtain f where f: "load8 b 32 = Inr f" using l by (auto simp: load8_def peek_ok)
  let ?b = "overwrite b 32 [put_bit n v f]"
  have st: "set_header_flag n v b = Inr ?b" using l f by (simp add: set_header_flag_def buf_simps)
  moreover have "data_ok ?b" using assms by (intro data_ok_flag [OF _ st]) (simp add: carries_def)
  moreover have "length ?b = length b" using l by (simp add: length_overwrite)
  ultimately show ?thesis
    using assms l f by (auto simp: returns_def carries_def read_test_header_def rbind_eq_Inr buf_simps)
qed

lemma carries_flags [wp]:
  "carries b h \<Longrightarrow> (\<And>b'. carries b' (h\<lparr>th_grp_id := v\<rparr>) \<Longrightarrow> length b' = length b \<Longrightarrow> Q b') \<Longrightarrow> returns (set_grp_id v b) Q"
  "carries b h \<Longrightarrow> (\<And>b'. carries b' (h\<lparr>th_last := v\<rparr>) \<Longrightarrow> length b' = length b \<Longrightarrow> Q b') \<Longrightarrow> returns (set_last v b) Q"
  "carries b h \<Longrightarrow> (\<And>b'. carries b' (h\<lparr>th_ack := v\<rparr>) \<Longrightarrow> length b' = length b \<Longrightarrow> Q b') \<Longrightarrow> returns (set_ack v b) Q"
  "carries b h \<Longrightarrow> (\<And>b'. carries b' (h\<lparr>th_last := v\<rparr>) \<Longrightarrow> length b' = length b \<Longrightarrow> Q b') \<Longrightarrow> returns (set_header_flag (Suc 0) v b) Q"
  "carries b h \<Longrightarrow> (\<And>b'. carries b' (h\<lparr>th_has_interval := v\<rparr>) \<Longrightarrow> length b' = length b \<Longrightarrow> Q b') \<Longrightarrow> returns (set_has_interval v b) Q"
  by (drule carries_flag, erule returns_mono, simp)+

text \<open>What the sender's FIN looks like to a receiver.\<close>

lemma returns_SendData [wp]:
  assumes "data_conn s \<noteq> None" and "Q (emit (Sent (block_to_send s len) flag ok) s)"
  shows "returns (SendData flag len ok s) Q"
  using assms by (simp add: SendData_def returns_def)

lemma SendFIN_ok:
  assumes "IsReliableProtocol (protocol (config s))" and "data_conn s \<noteq> None" and "carries (iperf_data s) h"
  shows "returns (SendFIN ck True s) (\<lambda>t. \<exists>b.
     t = (upd_sender (count_sent (ideal_length s))
           (emit (Sent (take (nat (ideal_length s)) b) BATS_SEND_FLAG_FIN True) (s\<lparr>iperf_data := b\<rparr>)))\<lparr>thread := T_Exited\<rparr>
     \<and> length b = length (iperf_data s)
     \<and> carries b (h\<lparr>th_seq := datagrams (summary (tx s)), th_grp_id := snapshot_cnt (tx s) mod 2 = 1,
            th_time := wall_ms ck, th_last := True, th_ack := False, th_has_interval := False\<rparr>))"
  using assms unfolding SendFIN_def
  by simp (intro wp, (assumption | simp add: block_to_send_def | blast)+)

lemma block_header:
  assumes "carries b h" and "40 \<le> n" and "n \<le> length b"
  shows "read_test_header (take n b) = Inr h \<and> ValidateReceivedData (take n b) (int n) = Inr True"
proof
  show "read_test_header (take n b) = Inr h"
    using assms by (simp add: carries_def read_test_header_def buf_simps)
  have "block_ok (take n b)" using assms(1) by (simp add: carries_def block_ok_take)
  then show "ValidateReceivedData (take n b) (int n) = Inr True"
    using validate_block_ok [of "take n b"] assms by simp
qed

text \<open>An incoming block of a stream that is already identified and carries no interval.\<close>

definition received :: "('r, 'f) stream_lib \<Rightarrow> clock \<Rightarrow> int \<Rightarrow> iperf_test_header \<Rightarrow> ('r, 'f) IperfStream \<Rightarrow> ('r, 'f) IperfStream" where
  "received L ck len h s =
     (let s = upd_receiver (count_received ck len) s
      in s\<lparr>recv_seq_recorder := Record L (th_seq h) (recv_seq_recorder s)\<rparr>)"

lemma UpdateReceived_plain:
  assumes "0 < len" and "read_test_header d = Inr h" and "ValidateReceivedData d len = Inr True"
    and "stream_identifier s \<noteq> 0" and "\<not> th_has_interval h"
  shows "UpdateReceived L ck fs obs (Some d) len s =
    rbind (let s = received L ck len h s;
               s = (if th_last h \<and> th_ack h then PrintSendSummary (s\<lparr>is_fin_acked := True, state := STREAM_DONE\<rparr>) else s)
           in if th_last h \<and> \<not> th_ack h then OnReceivedFIN ck fs obs s else Inr s) (\<lambda>s.
    rbind (UpdateJitter (diff_s_r (wall_ms ck) (th_time h)) (snd (HasNewGrpId L (th_grp_id h) (th_seq h) s))) (\<lambda>s.
    Inr (True, s)))"
  using assms by (simp add: UpdateReceived_def received_def Let_def UpdateGroup_def upd_receiver_def)

lemma HasNewGrpId_fields [simp]:
  "out (snd (HasNewGrpId L g q s)) = out s" "state (snd (HasNewGrpId L g q s)) = state s"
  "is_fin_received (snd (HasNewGrpId L g q s)) = is_fin_received s"
  "is_fin_acked (snd (HasNewGrpId L g q s)) = is_fin_acked s"
  "diff_s_r_list (snd (HasNewGrpId L g q s)) = diff_s_r_list s"
  by (simp_all add: HasNewGrpId_def)

definition jitter_ok :: "int \<Rightarrow> ('r, 'f) IperfStream \<Rightarrow> bool" where
  "jitter_ok d s \<longleftrightarrow> diff_s_r_list s = [] \<or> \<bar>d - last (diff_s_r_list s)\<bar> < 2 ^ 31"

lemma returns_UpdateJitter [wp]:
  assumes "jitter_ok d s"
    and "\<And>t. out t = out s \<Longrightarrow> state t = state s \<Longrightarrow> is_fin_received t = is_fin_received s \<Longrightarrow>
           is_fin_acked t = is_fin_acked s \<Longrightarrow> Q t"
  shows "returns (UpdateJitter d s) Q"
  using assms by (auto simp: UpdateJitter_def jitter_ok_def Let_def upd_receiver_def intro!: wp)

lemma FinishReport_fields [simp]:
  "\<exists>ps. out (FinishReport ck s) = out s @ ps \<and> (\<forall>d f ok. Sent d f ok \<notin> set ps)"
  "diff_s_r_list (FinishReport ck s) = diff_s_r_list s"
  "is_fin_acked (FinishReport ck s) = is_fin_acked s"
  by (auto simp: FinishReport_def Let_def PrintLastInterval_def emit_def upd_receiver_def)

lemma OnReceivedFIN_ok:
  assumes "data_conn s \<noteq> None" and "carries (iperf_data s) h"
  shows "returns (OnReceivedFIN ck True obs s) (\<lambda>t. \<exists>b ps.
     out t = out s @ Sent (take (nat (ideal_length s)) b) BATS_SEND_FLAG_FIN True # ps
     \<and> length b = length (iperf_data s) \<and> state t = STREAM_DONE \<and> is_fin_received t
     \<and> diff_s_r_list t = diff_s_r_list s
     \<and> carries b (h\<lparr>th_seq := datagrams (summary (tx s)), th_last := True, th_ack := True, th_has_interval := False\<rparr>))"
proof -
  have "returns (rbind (store64 (iperf_data s) 16 (datagrams (summary (tx s)))) (\<lambda>b.
     rbind (set_last True b) (\<lambda>b. rbind (set_ack True b) (\<lambda>b. set_has_interval False b))))
    (\<lambda>b. length b = length (iperf_data s) \<and>
      carries b (h\<lparr>th_seq := datagrams (summary (tx s)), th_last := True, th_ack := True, th_has_interval := False\<rparr>))"
    using assms(2) by (intro wp, (assumption | simp)+)
  then obtain b where b: "carries b (h\<lparr>th_seq := datagrams (summary (tx s)), th_last := True, th_ack := True, th_has_interval := False\<rparr>)"
      "length b = length (iperf_data s)"
    and run: "OnReceivedFIN ck True obs s =
       Inr ((FinishReport ck (upd_sender (count_sent (ideal_length s))
          (emit (Sent (take (nat (ideal_length s)) b) BATS_SEND_FLAG_FIN True) (s\<lparr>iperf_data := b\<rparr>))))
          \<lparr>is_fin_received := True, state := STREAM_DONE\<rparr>)"
    using assms(1) by (auto simp: returns_def rbind_eq_Inr OnReceivedFIN_def Let_def block_to_send_def emit_def emit_calls_def)
  let ?s = "upd_sender (count_sent (ideal_length s))
          (emit (Sent (take (nat (ideal_length s)) b) BATS_SEND_FLAG_FIN True) (s\<lparr>iperf_data := b\<rparr>))"
  obtain ps where "out (FinishReport ck ?s) = out ?s @ ps" using FinishReport_fields(1) by blast
  then show ?thesis using b unfolding run by (intro wp exI [of _ b] exI [of _ ps]) (simp add: emit_def upd_sender_def)
qed


text \<open>The two receptions of the handshake.\<close>

lemma receive_fin:
  assumes "carries b h" and "th_last h" and "\<not> th_ack h" and "\<not> th_has_interval h"
    and "40 \<le> n" and "n \<le> length b"
    and "stream_inv r" and "data_conn r \<noteq> None" and "stream_identifier r \<noteq> 0"
    and "jitter_ok (diff_s_r (wall_ms ck) (th_time h)) r"
  shows "returns (UpdateReceived L ck True obs (Some (take n b)) (int n) r) (\<lambda>(res, t). res \<and>
     state t = STREAM_DONE \<and> is_fin_received t \<and>
     (\<exists>d ps h'. out t = out r @ Sent (take (nat (ideal_length r)) d) BATS_SEND_FLAG_FIN True # ps
        \<and> length d = length (iperf_data r) \<and> carries d h' \<and> th_last h' \<and> th_ack h' \<and> \<not> th_has_interval h'))"
proof -
  have hd: "read_test_header (take n b) = Inr h" "ValidateReceivedData (take n b) (int n) = Inr True"
    using block_header [OF assms(1,5,6)] by simp_all
  obtain h' where h': "carries (iperf_data r) h'" using assms(7) carries_exists data_ok_of_inv by blast
  have r: "iperf_data (received L ck (int n) h r) = iperf_data r" "data_conn (received L ck (int n) h r) = data_conn r"
    "ideal_length (received L ck (int n) h r) = ideal_length r" "out (received L ck (int n) h r) = out r"
    "diff_s_r_list (received L ck (int n) h r) = diff_s_r_list r"
    by (simp_all add: received_def)
  obtain t d ps where t: "OnReceivedFIN ck True obs (received L ck (int n) h r) = Inr t"
    "out t = out r @ Sent (take (nat (ideal_length r)) d) BATS_SEND_FLAG_FIN True # ps"
    "length d = length (iperf_data r)" "state t = STREAM_DONE" "is_fin_received t" "diff_s_r_list t = diff_s_r_list r"
    "carries d (h'\<lparr>th_seq := datagrams (summary (tx (received L ck (int n) h r))), th_last := True, th_ack := True, th_has_interval := False\<rparr>)"
    using OnReceivedFIN_ok [of "received L ck (int n) h r" h' ck obs] assms(8) h' unfolding r returns_def by auto
  let ?u = "snd (HasNewGrpId L (th_grp_id h) (th_seq h) t)"
  have "jitter_ok (diff_s_r (wall_ms ck) (th_time h)) ?u" using assms(10) t(6) by (simp add: jitter_ok_def)
  then have "returns (UpdateJitter (diff_s_r (wall_ms ck) (th_time h)) ?u)
    (\<lambda>v. out v = out t \<and> state v = STREAM_DONE \<and> is_fin_received v)"
    using t by (intro wp) auto
  then show ?thesis
  proof (rule returnsE)
    fix v assume v: "UpdateJitter (diff_s_r (wall_ms ck) (th_time h)) ?u = Inr v"
      "out v = out t \<and> state v = STREAM_DONE \<and> is_fin_received v"
    have "UpdateReceived L ck True obs (Some (take n b)) (int n) r = Inr (True, v)"
      using assms t v hd UpdateReceived_plain [of "int n" "take n b" h r L ck True obs] by (simp add: Let_def)
    moreover let ?h = "h'\<lparr>th_seq := datagrams (summary (tx (received L ck (int n) h r))), th_last := True, th_ack := True, th_has_interval := False\<rparr>"
    have "th_last ?h \<and> th_ack ?h \<and> \<not> th_has_interval ?h" by simp
    then have "\<exists>d ps h'. out v = out r @ Sent (take (nat (ideal_length r)) d) BATS_SEND_FLAG_FIN True # ps
        \<and> length d = length (iperf_data r) \<and> carries d h' \<and> th_last h' \<and> th_ack h' \<and> \<not> th_has_interval h'"
      using t(2,3,7) v(2) by metis
    ultimately show ?thesis using v(2) by (simp add: returns_def)
  qed
qed

lemma receive_fin_ack:
  assumes "carries b h" and "th_last h" and "th_ack h" and "\<not> th_has_interval h"
    and "40 \<le> n" and "n \<le> length b" and "stream_identifier s \<noteq> 0"
    and "jitter_ok (diff_s_r (wall_ms ck) (th_time h)) s"
  shows "returns (UpdateReceived L ck fs obs (Some (take n b)) (int n) s)
     (\<lambda>(res, t). res \<and> state t = STREAM_DONE \<and> is_fin_acked t)"
proof -
  have hd: "read_test_header (take n b) = Inr h" "ValidateReceivedData (take n b) (int n) = Inr True"
    using block_header [OF assms(1,5,6)] by simp_all
  let ?s = "PrintSendSummary (received L ck (int n) h s\<lparr>is_fin_acked := True, state := STREAM_DONE\<rparr>)"
  let ?u = "snd (HasNewGrpId L (th_grp_id h) (th_seq h) ?s)"
  have "jitter_ok (diff_s_r (wall_ms ck) (th_time h)) ?u"
    using assms(8) by (simp add: jitter_ok_def PrintSendSummary_def received_def)
  then have "returns (UpdateJitter (diff_s_r (wall_ms ck) (th_time h)) ?u)
    (\<lambda>v. state v = STREAM_DONE \<and> is_fin_acked v)"
    by (intro wp) (auto simp: PrintSendSummary_def)
  then show ?thesis
    using assms hd UpdateReceived_plain [of "int n" "take n b" h s L ck fs obs]
    by (auto simp: returns_def Let_def)
qed

end
