(* ===== verification/Stream_Lifetime.thy ===== *)
theory Stream_Lifetime
  imports Stream_Sequence Stream_Handshake
begin

text \<open>
  The life of a stream: connection attempts, streams accepted from a listener, the end of the
  sending thread, \<open>Stop\<close>.
\<close>

section \<open>Connection attempts\<close>

fun is_connect :: "stream_out \<Rightarrow> bool" where
  "is_connect (Connect h p) = True"
| "is_connect _ = False"

text \<open>The attempts made so far, the retry counter and whether the stream still has a connector.\<close>

definition attempts :: "('r, 'f) IperfStream \<Rightarrow> nat \<times> int \<times> bool" where
  "attempts s = (length (filter is_connect (out s)), connect_retry_cnt s, connector s)"

lemma attempts_fields [simp]:
  "attempts (s\<lparr>state := a\<rparr>) = attempts s"
  "attempts (s\<lparr>conn_state := b\<rparr>) = attempts s"
  "attempts (s\<lparr>data_conn := d\<rparr>) = attempts s"
  "attempts (s\<lparr>thread := pc\<rparr>) = attempts s"
  "attempts (s\<lparr>iperf_data := db\<rparr>) = attempts s"
  "attempts (s\<lparr>report := rep\<rparr>) = attempts s"
  "attempts (s\<lparr>flow_shaper := h\<rparr>) = attempts s"
  "attempts (s\<lparr>thread_grp_id := i\<rparr>) = attempts s"
  "attempts (s\<lparr>is_stopped := i\<rparr>) = attempts s"
  "attempts (s\<lparr>is_writable := i\<rparr>) = attempts s"
  "attempts (s\<lparr>has_err_in_send := i\<rparr>) = attempts s"
  "attempts (s\<lparr>is_fin_received := i\<rparr>) = attempts s"
  "attempts (s\<lparr>is_fin_acked := i\<rparr>) = attempts s"
  "attempts (s\<lparr>is_sum_received := i\<rparr>) = attempts s"
  "attempts (s\<lparr>is_sum_printed := i\<rparr>) = attempts s"
  "attempts (s\<lparr>ideal_length := j\<rparr>) = attempts s"
  "attempts (s\<lparr>last_grp_id := j\<rparr>) = attempts s"
  "attempts (s\<lparr>stream_identifier := k\<rparr>) = attempts s"
  "attempts (s\<lparr>seq_of_last_changed_grp_id := k\<rparr>) = attempts s"
  "attempts (s\<lparr>recv_seq_recorder := l\<rparr>) = attempts s"
  "attempts (s\<lparr>diff_s_r_list := m\<rparr>) = attempts s"
  "attempts (s\<lparr>is_first_jitter_calculation := i\<rparr>) = attempts s"
  "attempts (upd_receiver f s) = attempts s"
  "attempts (upd_sender f s) = attempts s"
  "\<not> is_connect x \<Longrightarrow> attempts (emit x s) = attempts s"
  by (simp_all add: attempts_def)

lemma attempts_connector [simp]:
  "attempts (s\<lparr>connector := c\<rparr>) = (fst (attempts s), fst (snd (attempts s)), c)"
  by (simp add: attempts_def)

lemma filter_connect_calls: "filter is_connect (calls s) = filter is_connect (out s)"
  unfolding calls_def filter_filter by (rule filter_cong) (auto elim: is_connect.elims)

lemma attempts_view: "view t = view s \<Longrightarrow> attempts t = attempts s"
  by (simp add: attempts_def view_def flip: filter_connect_calls)

lemma attempts_quiet [simp]:
  "attempts (FinishReport ck s) = attempts s" "attempts (PrintLastInterval ck s) = attempts s"
  "attempts (PrintSendSummary s) = attempts s" "attempts (PrintSendRecvSummary s) = attempts s"
  by (rule attempts_view, simp)+

lemma attempts_Stop: "attempts (Stop ck s) = (if is_stopped s then attempts s else (fst (attempts s), fst (snd (attempts s)), False))"
  by (simp add: Stop_def Let_def)

lemma attempts_emit_calls [simp]: "attempts (emit_calls d f oks s) = attempts s"
  by (simp add: attempts_def emit_calls_def filter_map comp_def)

lemma attempts_OnReceivedFIN: "OnReceivedFIN ck fs obs s = Inr t \<Longrightarrow> attempts t = attempts s"
  by (elim OnReceivedFIN_cases) simp

lemma attempts_UpdateReceived:
  assumes "UpdateReceived L ck fs obs d len s = Inr (r, t)"
  shows "attempts t = attempts s"
  using assms
  by (auto simp: UpdateReceived_def Let_def rbind_eq_Inr split: option.splits if_splits
      dest!: view_UpdateGroup [THEN attempts_view] view_UpdateJitter [THEN attempts_view] attempts_OnReceivedFIN)

lemma attempts_SendData: "SendData flag len ok s = Inr t \<Longrightarrow> attempts t = attempts s"
  by (auto simp: SendData_def split: if_splits)

lemma attempts_prepare_block: "prepare_block ck s = Inr t \<Longrightarrow> attempts t = attempts s"
  unfolding prepare_block_def Let_def
  by (elim rbindE) (auto split: if_splits elim!: rbindE)

lemma attempts_count_block [simp]: "attempts (count_block L len s) = attempts s"
  by (simp add: count_block_def Let_def)

lemma attempts_SendFIN: "SendFIN ck ok s = Inr t \<Longrightarrow> attempts t = attempts s"
  by (cases "IsReliableProtocol (protocol (config s))")
    (auto simp: SendFIN_def split: if_splits elim!: rbindE dest!: attempts_SendData)

lemma attempts_thread_step:
  assumes "thread_step L ck ok pc s = Inr t"
  shows "attempts t = attempts s \<or> attempts t = attempts (Stop ck s)"
  using assms
  by (cases pc)
    (auto simp: rbind_eq_Inr split: if_splits dest!: attempts_SendData attempts_SendFIN attempts_prepare_block)

text \<open>
  Every operation but \<open>StartConnect\<close> and the retry of a failed attempt leaves the attempts alone;
  \<open>Stop\<close> gives up the connector.
\<close>

definition attempts_inv :: "nat \<Rightarrow> nat \<times> int \<times> bool \<Rightarrow> bool" where
  "attempts_inv k a \<longleftrightarrow> (case a of (n, r, c) \<Rightarrow> 0 \<le> r \<and> r \<le> max_connect_retry \<and> int n = int k + r)"

lemma attempts_StartConnect:
  "StartConnect s = Inr t \<Longrightarrow> attempts_inv k (attempts s) \<Longrightarrow> attempts_inv (Suc k) (attempts t)"
  by (auto simp: StartConnect_def rbind_eq_Inr attempts_def attempts_inv_def)

lemma attempts_retry:
  "retry_connect cn s = Inr (r, t) \<Longrightarrow> attempts_inv k (attempts s) \<Longrightarrow> attempts_inv k (attempts t)"
  by (auto simp: retry_connect_def StartConnect_def rbind_eq_Inr attempts_def attempts_inv_def split: if_splits)

lemma attempts_callback:
  assumes "ConnectionCallback L ck fs obs cn ideal ev d len s = Inr (r, t)" and "\<not> retry_connect cn s = Inr (r, t)"
  shows "attempts t = attempts s"
proof (cases "ev = BATS_CONNECTION_DATA_RECEIVED")
  case True
  then show ?thesis using assms(1) attempts_UpdateReceived by (simp add: ConnectionCallback_def)
next
  case False
  have "attempts (if ev = BATS_CONNECTION_WRITABLE then emit Notify s else s) = attempts s" by simp
  then show ?thesis using attempts_view [OF callback_view [OF assms(1) False assms(2)]] by simp
qed

fun starts :: "stream_event list \<Rightarrow> nat" where
  "starts [] = 0"
| "starts (EvStartConnect # es) = Suc (starts es)"
| "starts (e # es) = starts es"

lemma attempts_stop_inv: "attempts_inv k (attempts s) \<Longrightarrow> attempts_inv k (attempts (Stop ck s))"
  by (auto simp: attempts_Stop attempts_inv_def split: prod.splits)

lemma attempts_quiet_step:
  assumes "stream_step L s e = Inr t" and "e \<noteq> EvStartConnect" and "attempts_inv k (attempts s)"
  shows "attempts_inv k (attempts t)"
proof (cases e)
  case (EvCallback ck fs obs cn ideal ev d len)
  then obtain r where "ConnectionCallback L ck fs obs cn ideal ev d len s = Inr (r, t)"
    using assms(1) by (auto simp: rmap_eq_Inr)
  then show ?thesis using assms(3) attempts_callback attempts_retry by metis
next
  case (EvThread ck ok)
  then show ?thesis using assms attempts_thread_step attempts_stop_inv by fastforce
next
  case (EvSnapshot ck)
  then show ?thesis using assms(1,3) view_reports(1) attempts_view by (fastforce simp: rmap_eq_Inr)
next
  case (EvIntervalTimeout ck)
  then show ?thesis using assms(1,3) view_reports(2) attempts_view by (fastforce simp: rmap_eq_Inr)
next
  case (EvDeserializeReport b p)
  then show ?thesis using assms(1,3) by (auto simp: DeserializeReport_def rbind_eq_Inr rmap_eq_Inr)
qed (use assms attempts_stop_inv in \<open>auto simp: StartRecv_def StartSend_def Let_def split: if_splits\<close>)

lemma attempts_run:
  assumes "run_events (stream_step L) es s = Inr t" and "attempts_inv k (attempts s)"
  shows "attempts_inv (k + starts es) (attempts t)"
  using assms
proof (induction es arbitrary: s k rule: starts.induct)
  case (2 es)
  then obtain u where "StartConnect s = Inr u" "run_events (stream_step L) es u = Inr t" by (auto simp: rbind_eq_Inr)
  then show ?case using 2 attempts_StartConnect by fastforce
qed (auto simp del: stream_step.simps simp: rbind_eq_Inr dest!: attempts_quiet_step)


section \<open>Accepted streams\<close>

definition no_connector :: "('r, 'f) IperfStream \<Rightarrow> bool" where
  "no_connector s \<longleftrightarrow> \<not> connector s \<and> connect_retry_cnt s = 0"

lemma no_connector_attempts: "no_connector s \<longleftrightarrow> snd (attempts s) = (0, False)"
  by (auto simp: no_connector_def attempts_def)

lemma no_connector_step:
  assumes "no_connector s" and "stream_step L s e = Inr t"
  shows "no_connector t"
proof (cases e)
  case (EvCallback ck fs obs cn ideal ev d len)
  then obtain r where r: "ConnectionCallback L ck fs obs cn ideal ev d len s = Inr (r, t)"
    using assms(2) by (auto simp: rmap_eq_Inr)
  have "retry_connect cn s \<noteq> Inr (r, t)"
    using assms(1) by (simp add: retry_connect_def no_connector_def max_connect_retry_def)
  then show ?thesis using assms(1) attempts_callback [OF r] by (simp add: no_connector_attempts)
next
  case (EvThread ck ok)
  then have "attempts t = attempts s \<or> attempts t = attempts (Stop ck s)"
    using assms(2) attempts_thread_step by (simp, blast)
  then show ?thesis using assms(1) by (auto simp: no_connector_attempts attempts_Stop split: if_splits)
next
  case EvStartConnect
  then show ?thesis using assms by (simp add: StartConnect_def no_connector_def)
next
  case (EvSnapshot ck)
  then show ?thesis using assms view_reports(1) [THEN attempts_view] by (fastforce simp: rmap_eq_Inr no_connector_attempts)
next
  case (EvIntervalTimeout ck)
  then show ?thesis using assms view_reports(2) [THEN attempts_view] by (fastforce simp: rmap_eq_Inr no_connector_attempts)
next
  case (EvStop ck)
  then show ?thesis using assms by (auto simp: no_connector_attempts attempts_Stop)
qed (use assms in \<open>auto simp: no_connector_attempts StartRecv_def StartSend_def DeserializeReport_def Let_def rmap_eq_Inr rbind_eq_Inr split: if_splits\<close>)

interpretation accepted: event_machine "stream_step L" no_connector
  by unfold_locales (rule no_connector_step)

section \<open>The end of the sending thread\<close>

lemma returns_prepare_block [wp]:
  assumes "data_ok (iperf_data s)" and "\<exists>w. rate_to_wire (bitrate (LastInterval (tx s))) = Inr w"
    and "\<And>b g. data_ok b \<Longrightarrow> length b = length (iperf_data s) \<Longrightarrow> Q (s\<lparr>iperf_data := b, thread_grp_id := g\<rparr>)"
  shows "returns (prepare_block ck s) Q"
proof -
  obtain h where h: "carries (iperf_data s) h" using assms(1) carries_exists by blast
  obtain w where w: "rate_to_wire (bitrate (LastInterval (tx s))) = Inr w" using assms(2) by blast
  have ser: "returns (SerializeInterval b sizeof_test_header (LastInterval (tx s))) R"
    if "carries b h'" and "\<And>b' p. data_ok b' \<Longrightarrow> length b' = length b \<Longrightarrow> R (b', p)" for b h' R
    using SerializeInterval_ok [OF w, of sizeof_test_header b] data_ok_interval [of b] that carries_length [OF that(1)]
    by (auto simp: returns_def carries_def sizeof_test_header_def)
  have same: "Q (s\<lparr>iperf_data := b\<rparr>)" if "carries b h'" and "length b = length (iperf_data s)" for b h'
    using assms(3) [of b "thread_grp_id s"] that by (simp add: carries_def)
  show ?thesis
    unfolding prepare_block_def Let_def using h
    by - (assumption | rule wp ser | (rule same, assumption, simp) | (erule assms(3), simp))+
qed

text \<open>One step of the thread once the stream is no longer in \<open>STREAM_START\<close>.\<close>

definition winding_down :: "('r, 'f) IperfStream \<Rightarrow> bool" where
  "winding_down s \<longleftrightarrow> state s \<noteq> STREAM_START \<and> data_ok (iperf_data s) \<and> data_conn s \<noteq> None
     \<and> (\<exists>w. rate_to_wire (bitrate (LastInterval (tx s))) = Inr w)"

lemma winding_down_upd [simp]:
  "winding_down (s\<lparr>thread := pc\<rparr>) = winding_down s"
  "winding_down (s\<lparr>thread_grp_id := g\<rparr>) = winding_down s"
  "winding_down (s\<lparr>flow_shaper := f\<rparr>) = winding_down s"
  "winding_down (emit x s) = winding_down s"
  "winding_down (upd_sender (count_sent n) s) = winding_down s"
  by (simp_all add: winding_down_def count_sent_def)

lemma winding_down_data: "winding_down s \<Longrightarrow> data_ok b \<Longrightarrow> winding_down (s\<lparr>iperf_data := b\<rparr>)"
  by (simp add: winding_down_def)

lemma winding_down_Stop: "thread (Stop ck s) = thread s"
  using view_FinishReport [of ck "s\<lparr>is_stopped := True\<rparr>"]
  by (simp add: Stop_def Let_def view_def)

text \<open>\<open>Stop\<close>.\<close>

lemma Stop_result:
  "\<not> is_stopped s \<Longrightarrow> data_conn (Stop ck s) = None \<and> \<not> connector (Stop ck s) \<and> state (Stop ck s) = STREAM_DONE
     \<and> conn_state (Stop ck s) = CONN_DISCONNECTED \<and> is_stopped (Stop ck s) \<and> config (Stop ck s) = config s"
  by (simp add: Stop_def Let_def FinishReport_def PrintLastInterval_def)

text \<open>In the destructor the thread returns whatever its sends return.\<close>

definition being_destroyed :: "('r, 'f) IperfStream \<Rightarrow> bool" where
  "being_destroyed s \<longleftrightarrow> winding_down s \<and> state s = STREAM_DONE \<and> conn_state s = CONN_NONE"

fun join_rank :: "thread_pc \<Rightarrow> nat" where
  "join_rank T_Wait = 6" | "join_rank T_Block = 5" | "join_rank (T_Retry n) = 4" | "join_rank T_Loop = 3"
| "join_rank T_Fin = 2" | "join_rank T_FinRetry = 1" | "join_rank T_Entered = 1" | "join_rank _ = 0"

lemma join_rank_0: "join_rank pc = 0 \<longleftrightarrow> pc = T_None \<or> pc = T_Exited"
  by (cases pc) auto

lemma SendFIN_destroyed:
  assumes "being_destroyed s"
  shows "returns (SendFIN ck ok s) (\<lambda>t. state t = STREAM_DONE \<and> (thread t = T_Exited \<or> being_destroyed t \<and> thread t = T_FinRetry))"
proof (cases "IsReliableProtocol (protocol (config s))")
  case False
  then show ?thesis using assms by (simp add: SendFIN_def returns_def being_destroyed_def PrintSendSummary_def)
next
  case True
  have d: "data_ok (iperf_data s)" "data_conn s \<noteq> None" "state s = STREAM_DONE"
    using assms by (simp_all add: being_destroyed_def winding_down_def)
  obtain h where h: "carries (iperf_data s) h" using d(1) carries_exists by blast
  show ?thesis
    unfolding SendFIN_def using True h d assms
    by (simp only: if_True)
      (rule wp | assumption | (simp add: being_destroyed_def winding_down_data carries_def; fail))+
qed

lemma destroyed_step:
  assumes "being_destroyed s" and "0 < join_rank (thread s)"
  shows "returns (thread_step L ck ok (thread s) s) (\<lambda>t. state t = STREAM_DONE \<and> (thread t = T_Exited
    \<or> being_destroyed t \<and> join_rank (thread t) < join_rank (thread s)))"
proof (cases "thread s")
  case T_Entered
  then show ?thesis using assms(1) Stop_result [of s ck]
    by (auto simp: being_destroyed_def returns_def Stop_def)
next
  case T_Block
  then show ?thesis using assms(1)
    by (cases ok) (auto intro!: wp winding_down_data simp: being_destroyed_def winding_down_def count_block_def count_sent_def Let_def)
next
  case T_Fin
  then show ?thesis using SendFIN_destroyed [OF assms(1), of ck ok] by (auto elim: returns_mono)
qed (use assms in \<open>auto intro!: wp simp: being_destroyed_def winding_down_def count_block_def count_sent_def Let_def\<close>)

lemma join_sending_thread_returns:
  assumes "being_destroyed s" and "join_rank (thread s) \<le> length obs"
  shows "returns (join_sending_thread L obs s) (\<lambda>t. state t = STREAM_DONE \<and> (thread t = T_None \<or> thread t = T_Exited))"
  using assms
proof (induction obs arbitrary: s)
  case Nil
  then show ?case by (simp add: returns_def being_destroyed_def join_rank_0)
next
  case (Cons ob obs)
  obtain ck ok where ob: "ob = (ck, ok)" by (cases ob)
  show ?case
  proof (cases "join_rank (thread s) = 0")
    case True
    then show ?thesis using Cons.prems(1) by (simp add: ob join_rank_0 returns_def being_destroyed_def)
  next
    case False
    obtain t where t: "thread_step L ck ok (thread s) s = Inr t" "state t = STREAM_DONE"
        "thread t = T_Exited \<or> being_destroyed t \<and> join_rank (thread t) < join_rank (thread s)"
      using destroyed_step [OF Cons.prems(1), of L ck ok] False by (auto simp: returns_def)
    have "returns (join_sending_thread L obs t) (\<lambda>t. state t = STREAM_DONE \<and> (thread t = T_None \<or> thread t = T_Exited))"
    proof (cases "thread t = T_Exited")
      case True
      then show ?thesis using t(2) by (cases obs) (auto simp: returns_def)
    next
      case False
      then show ?thesis using t(3) Cons.prems(2) by (intro Cons.IH) auto
    qed
    then show ?thesis using t(1) False by (simp add: ob join_rank_0)
  qed
qed

end
