(* ===== verification/Stream_Reports.thy ===== *)
theory Stream_Reports
  imports Stream_Lifetime
begin

text \<open>
  When a receiving stream gives up, and the laws of snapshots, intervals and reports.
\<close>

section \<open>When a receiver gives up\<close>

lemma buffer_no_exit [simp]:
  "store64 b off v \<noteq> Inl ExitFailure" "store8 b off w \<noteq> Inl ExitFailure"
  "load64 b off \<noteq> Inl ExitFailure" "load8 b off \<noteq> Inl ExitFailure"
  by (auto simp: store_defs load_defs poke_def peek_def)

lemma header_no_exit [simp]: "set_header_flag n v b \<noteq> Inl ExitFailure" "read_test_header b \<noteq> Inl ExitFailure"
  "DeserializeInterval b p \<noteq> Inl ExitFailure" "guard AssertFail c \<noteq> Inl ExitFailure" "guard SignedOverflow c \<noteq> Inl ExitFailure"
  "to_i64 x \<noteq> Inl ExitFailure"
  by (auto simp: set_header_flag_def read_test_header_def DeserializeInterval_def rbind_eq_Inl guard_def to_i64_def fcast_def split: flt.splits)

lemma retry_send_no_exit [simp]: "retry_send obs \<noteq> Inl ExitFailure"
  by (induction obs) auto

lemma OnReceivedFIN_no_exit [simp]: "OnReceivedFIN ck fs obs s \<noteq> Inl ExitFailure"
  by (auto simp: OnReceivedFIN_def rbind_eq_Inl Let_def)

lemma UpdateGroup_no_exit [simp]: "UpdateGroup L ck d h s \<noteq> Inl ExitFailure"
  by (auto simp: UpdateGroup_def OnReceivedIntervalData_def rbind_eq_Inl Let_def)

lemma UpdateJitter_no_exit [simp]: "UpdateJitter d s \<noteq> Inl ExitFailure"
  by (auto simp: UpdateJitter_def rbind_eq_Inl Let_def)

lemma Validate_no_exit [simp]: "ValidateReceivedData d len \<noteq> Inl ExitFailure"
  by (auto simp: ValidateReceivedData_def rbind_eq_Inl Let_def nth_octet_def)

section \<open>Intervals\<close>

text \<open>The reports after a series of snapshots, each taken when the counters have the given values.\<close>

fun snapshots :: "TestReport \<Rightarrow> (u64 \<times> u64 \<times> u64 \<times> u64) list \<Rightarrow> TestReport list" where
  "snapshots r [] = []"
| "snapshots r ((nb, nd, now, ms) # xs) =
     (let r' = SnapshotRxTxReport (r\<lparr>summary := (summary r)\<lparr>bytes := nb, datagrams := nd\<rparr>\<rparr>) now ms
      in r' # snapshots r' xs)"

section \<open>Reports\<close>

lemma rate_of_division_by_zero: "rate_to_wire (fdiv Double a (Fin 0)) = Inl BadCast"
  by (cases a) (auto simp: rate_to_wire_def to_u64_def fdiv_def fmul_def inf_of_def fcast_def)

end
