(* ===== verification/Stream_Properties.thy ===== *)
theory Stream_Properties
  imports Stream_Reports
begin

text \<open>
  The properties of a data stream, each with a concrete instance. The example stream has a buffer
  of 80 bytes; \<open>example_new\<close> is a connecting stream as the constructor makes it, and
  \<open>example_events\<close> takes it through a timed-out attempt, a retry and its first block.
\<close>

section \<open>Example values\<close>

definition example_lib :: "(u64 list, unit) stream_lib" where
  "example_lib = \<lparr>Record = (\<lambda>q r. if q \<in> set r then r else q # r), Has = (\<lambda>q r. q \<in> set r), Reset = (\<lambda>r. []),
     MaxSeqRecorded = (\<lambda>r. fold max r 0),
     RecordedNumInRange = (\<lambda>a b r. word_of_nat (length (filter (\<lambda>q. a \<le> q \<and> q < b) r))),
     is_less_than_in_half_ring = (\<lambda>a b. a \<noteq> b \<and> b - a < 2 ^ 63),
     is_bandwidth_limit_hit = (\<lambda>t f. False), update_bytes_counter = (\<lambda>n f. f)\<rparr>"

definition example_clock :: "u64 \<Rightarrow> clock" where
  "example_clock t = \<lparr>mono_ms = t, wall_ms = 1000000 + t, stamp = ''''\<rparr>"

definition example_config :: "TestRole \<Rightarrow> TestConfig" where
  "example_config r = TestConfig_init\<lparr>role := r, protocol := 1\<rparr>"

definition example_data :: "octet list" where
  "example_data = (case init_iperf_data 80 7 of Inr b \<Rightarrow> b | Inl _ \<Rightarrow> [])"

definition example_stream :: "TestRole \<Rightarrow> (u64 list, unit) IperfStream" where
  "example_stream r = (blank_stream [] None (example_config r) 1)
     \<lparr>iperf_data := example_data, stream_identifier := 7, data_conn := Some 1, conn_state := CONN_CONNECTED,
      state := STREAM_START, is_writable := True, ideal_length := 80\<rparr>"

lemma example_data_ok: "data_ok example_data" "length example_data = 80"
  using init_iperf_data_ok [of 80 7] by (auto simp: example_data_def)

lemma example_stream_fields [simp]:
  "config (example_stream r) = example_config r" "stream_identifier (example_stream r) = 7"
  "data_conn (example_stream r) = Some 1" "ideal_length (example_stream r) = 80"
  "iperf_data (example_stream r) = example_data" "diff_s_r_list (example_stream r) = []"
  "out (example_stream r) = []" "state (example_stream r) = STREAM_START" "thread (example_stream r) = T_None"
  "is_stopped (example_stream r) = False"
  "tx (example_stream r) = TestReport_init" "rx (example_stream r) = TestReport_init"
  by (simp_all add: example_stream_def blank_stream_def TestReport_init_def example_config_def TestConfig_init_def)

lemma example_stream_inv: "stream_inv (example_stream r)"
  by (simp add: stream_inv_def example_data_ok)

lemma example_protocol: "protocol (example_config r) = 1" "IsReliableProtocol 1"
  by (simp_all add: example_config_def TestConfig_init_def IsReliableProtocol_def BATSTransMode_of_int_def BRTP_def)

lemma example_connector_config: "\<exists>c. connector_config (example_config r) = Inr c"
proof -
  have "timeout_of (example_config r) = timeout_of TestConfig_init"
    by (simp add: timeout_of_def example_config_def)
  moreover have "timeout_of TestConfig_init = Inr 10000" by code_simp
  ultimately show ?thesis by (simp add: connector_config_def Let_def)
qed

lemma accept_stream_defined:
  assumes "0 < ideal" and "ideal \<le> int (data_buffer_size c)"
  shows "\<exists>s. accept_stream r0 sh c sid cn ideal = Inr s"
proof -
  have "72 \<le> data_buffer_size c" by (simp add: data_buffer_size_def max_bats_iperf_buffer_def max_bats_iperf_buffer_for_rc_def)
  from init_iperf_data_ok [OF this, of 0] obtain b where
    "init_iperf_data (data_buffer_size c) 0 = Inr b" "length b = data_buffer_size c" by blast
  then show ?thesis using assms by (simp add: accept_stream_def SwitchDataBlockLength_def)
qed

lemma new_stream_defined:
  assumes "connector_config c = Inr bc"
  shows "\<exists>b. new_stream r0 sh c sid now = Inr ((blank_stream r0 sh c sid)
      \<lparr>stream_identifier := now + word_of_int sid, iperf_data := b, connector := True\<rparr>)
    \<and> data_ok b \<and> length b = data_buffer_size c"
proof -
  have "72 \<le> data_buffer_size c" by (simp add: data_buffer_size_def max_bats_iperf_buffer_def max_bats_iperf_buffer_for_rc_def)
  from init_iperf_data_ok [OF this, of "now + word_of_int sid"] obtain b where
    "init_iperf_data (data_buffer_size c) (now + word_of_int sid) = Inr b" "data_ok b" "length b = data_buffer_size c" by blast
  then show ?thesis using assms by (intro exI [of _ b]) (simp add: new_stream_def Let_def)
qed

definition example_events :: "stream_event list" where
  "example_events =
     [EvStartConnect,
      EvCallback (example_clock 1) True [] 1 80 BATS_CONNECTION_TIMEOUT None 0,
      EvCallback (example_clock 2) True [] 1 80 BATS_CONNECTION_ESTABLISHED None 0,
      EvCallback (example_clock 2) True [] 1 80 BATS_CONNECTION_WRITABLE None 0,
      EvStartSend (example_clock 3),
      EvThread (example_clock 3) True, EvThread (example_clock 3) True, EvThread (example_clock 3) True,
      EvThread (example_clock 3) True]"

lemma example_rate: "\<exists>w. rate_to_wire (Fin 0) = Inr w"
  by (rule exI [of _ 0]) code_simp

definition example_new :: "(u64 list, unit) IperfStream res" where
  "example_new = new_stream [] None (example_config ROLE_SENDER) 1 100"

lemma example_run:
  "\<exists>s t. example_new = Inr s
    \<and> run_events (stream_step example_lib) example_events s = Inr t
    \<and> length (filter is_connect (out t)) = 2
    \<and> (\<exists>d. Sent d BATS_SEND_FLAG_NONE True \<in> set (out t) \<and> length d = 80)
    \<and> state t = STREAM_START \<and> \<not> has_err_in_send t \<and> bitrate (summary (tx t)) = Fin 0
    \<and> length (blocks_accepted (out t)) = 1 \<and> bytes (summary (tx t)) = 80"
proof -
  obtain c where "connector_config (example_config ROLE_SENDER) = Inr c" using example_connector_config by blast
  moreover have "data_buffer_size (example_config ROLE_SENDER) = 150000"
    by (simp add: data_buffer_size_def example_protocol max_bats_iperf_buffer_def)
  ultimately obtain b where b: "data_ok b" "length b = 150000"
      and new: "example_new = Inr ((blank_stream [] None (example_config ROLE_SENDER) 1)
        \<lparr>stream_identifier := 100 + word_of_int 1, iperf_data := b, connector := True\<rparr>)"
    unfolding example_new_def using new_stream_defined by metis
  let ?s = "(blank_stream [] None (example_config ROLE_SENDER) 1 :: (u64 list, unit) IperfStream)
        \<lparr>stream_identifier := 100 + word_of_int 1, iperf_data := b, connector := True\<rparr>"
  have "returns (run_events (stream_step example_lib) example_events ?s) (\<lambda>t. length (filter is_connect (out t)) = 2
    \<and> (\<exists>d. Sent d BATS_SEND_FLAG_NONE True \<in> set (out t) \<and> length d = 80)
    \<and> state t = STREAM_START \<and> \<not> has_err_in_send t \<and> bitrate (summary (tx t)) = Fin 0
    \<and> length (blocks_accepted (out t)) = 1 \<and> bytes (summary (tx t)) = 80)"
    using b example_rate
    by (simp add: example_events_def ConnectionCallback_def retry_connect_def StartConnect_def SwitchDataBlockLength_def
        StartSend_def blank_stream_def max_connect_retry_def Let_def example_config_def TestConfig_init_def guard_def
        TestReport_init_def TestInterval_init_def)
      (rule wp | simp add: count_block_def count_sent_def block_to_send_def Let_def)+
  then show ?thesis using new by (auto simp: returns_def)
qed

section \<open>Data integrity\<close>

text \<open>
  C3. Every block that a stream hands to \<open>SendData\<close>, after any interleaving of its sending thread
  with callbacks, polls and \<open>Stop\<close>, carries the magic code and the fill pattern: a receiver that
  gets the block unchanged validates it.
\<close>

theorem sent_blocks_validate:
  assumes "new_stream r0 sh c sid now = Inr s \<or> accept_stream r0 sh c sid cn ideal = Inr s"
    and "run_events (stream_step L) es s = Inr t"
    and "Sent d f ok \<in> set (out t)" and "8 \<le> length d"
  shows "ValidateReceivedData d (int (length d)) = Inr True"
proof -
  have "stream_inv s" using assms(1) by (elim disjE) (rule stream_inv_new stream_inv_accept, assumption)+
  then have "stream_inv t" using assms(2) by (rule stream.run_inv)
  then show ?thesis using assms(3,4) by (intro validate_block_ok) (auto simp: stream_inv_def)
qed

theorem sent_blocks_validate_witness:
  "\<exists>s t d. example_new = Inr s \<and> run_events (stream_step example_lib) example_events s = Inr t
     \<and> Sent d BATS_SEND_FLAG_NONE True \<in> set (out t) \<and> ValidateReceivedData d 80 = Inr True"
proof -
  obtain s t d where r: "example_new = Inr s" "run_events (stream_step example_lib) example_events s = Inr t"
    "Sent d BATS_SEND_FLAG_NONE True \<in> set (out t)" "length d = 80"
    using example_run by blast
  have "ValidateReceivedData d (int (length d)) = Inr True"
    by (rule sent_blocks_validate [OF disjI1 [OF r(1) [unfolded example_new_def]] r(2,3)]) (simp add: r(4))
  then show ?thesis using r by auto
qed

text \<open>
  A receiver ends the process on a block exactly when the block does not validate (and the
  protocol is not 2), or when it is the first block of the stream and, for protocols 1 and 10, its
  sequence number is not 0.
\<close>

theorem receiver_exits_iff:
  assumes "0 < len" and "read_test_header d = Inr h"
  shows "UpdateReceived L ck fs obs (Some d) len s = Inl ExitFailure \<longleftrightarrow>
    (protocol (config s) \<noteq> 2 \<and> ValidateReceivedData d len = Inr False) \<or>
    ((protocol (config s) = 2 \<or> ValidateReceivedData d len = Inr True) \<and> stream_identifier s = 0 \<and> th_seq h \<noteq> 0 \<and>
       (protocol (config s) = 1 \<or> protocol (config s) = 10))"
  using assms by (auto simp: UpdateReceived_def Let_def rbind_eq_Inl split: if_splits)

theorem receiver_exits_iff_witness:
  "UpdateReceived example_lib (example_clock 2) True [] (Some (replicate 40 0)) 40 (example_stream ROLE_RECEIVER)
     = Inl ExitFailure"
proof -
  have "\<exists>h. read_test_header (replicate 40 0) = Inr h" by (simp add: read_test_header_defined)
  then obtain h where h: "read_test_header (replicate 40 0) = Inr h" by blast
  have "ValidateReceivedData (replicate 40 0) 40 = Inr False" by code_simp
  then show ?thesis using receiver_exits_iff [OF _ h, of 40 example_lib "example_clock 2" True "[]" "example_stream ROLE_RECEIVER"]
    by (simp add: example_protocol)
qed

section \<open>Sequence numbers and connections\<close>

text \<open>
  C7. On a sending stream the sequence numbers of the blocks that \<open>SendData\<close> accepted are strictly
  increasing, whatever the interleaving: no accepted block repeats the number of another.
\<close>

theorem accepted_seqs_increase:
  assumes "new_stream r0 sh c sid now = Inr s" and "run_events (stream_step L) es s = Inr t"
    and "\<forall>e \<in> set es. sender_event e" and "length es < 2 ^ 64"
  shows "sorted_wrt (<) (map unat (accepted_seqs (out t)))"
proof -
  have "seq_inv 0 s"
    using stream_inv_new [OF assms(1)] new_stream_fresh [OF assms(1)] by (intro seq_inv_fresh) auto
  then have "seq_inv (length es) t" using seq_inv_run [OF _ assms(2,3)] assms(4) by fastforce
  then show ?thesis by (simp add: seq_inv_def Let_def calls_def accepted_seqs_calls)
qed

theorem accepted_seqs_increase_witness:
  "\<exists>s t. example_new = Inr s \<and> run_events (stream_step example_lib) example_events s = Inr t
     \<and> sorted_wrt (<) (map unat (accepted_seqs (out t)))"
proof -
  obtain s t where r: "example_new = Inr s" "run_events (stream_step example_lib) example_events s = Inr t"
    using example_run by blast
  have "sorted_wrt (<) (map unat (accepted_seqs (out t)))"
    by (rule accepted_seqs_increase [OF r(1) [unfolded example_new_def] r(2)]) (simp_all add: example_events_def)
  then show ?thesis using r by blast
qed

text \<open>
  C22. A connecting stream calls \<open>StartConnect\<close> of its connector at most three times more than it
  was asked to, however many failures and timeouts arrive.
\<close>

theorem connect_attempts_bounded:
  assumes "new_stream r0 sh c sid now = Inr s" and "run_events (stream_step L) es s = Inr t"
  shows "length (filter is_connect (out t)) \<le> starts es + nat max_connect_retry"
proof -
  have "attempts_inv 0 (attempts s)"
    using new_stream_fresh [OF assms(1)] by (simp add: attempts_inv_def attempts_def max_connect_retry_def)
  from attempts_run [OF assms(2) this] show ?thesis
    by (simp add: attempts_inv_def attempts_def max_connect_retry_def)
qed

theorem connect_attempts_bounded_witness:
  "\<exists>s t. example_new = Inr s \<and> run_events (stream_step example_lib) example_events s = Inr t
     \<and> length (filter is_connect (out t)) = 2 \<and> length (filter is_connect (out t)) \<le> starts example_events + nat max_connect_retry"
proof -
  obtain s t where r: "example_new = Inr s" "run_events (stream_step example_lib) example_events s = Inr t"
    "length (filter is_connect (out t)) = 2"
    using example_run by blast
  then show ?thesis using connect_attempts_bounded [OF r(1) [unfolded example_new_def] r(2)] by blast
qed

text \<open>
  C24. A stream made from an accepted connection has no connector. If its connection reports a
  failure or a timeout, at any time, the callback calls through the null connector.
\<close>

theorem accepted_stream_timeout_faults:
  assumes "accept_stream r0 sh c sid cn ideal = Inr s" and "run_events (stream_step L) es s = Inr t"
    and "ev = BATS_CONNECTION_FAILED \<or> ev = BATS_CONNECTION_TIMEOUT"
  shows "stream_step L t (EvCallback ck fs obs cn' ideal' ev d len) = Inl NullDeref"
proof -
  have "no_connector s" using accept_stream_fresh [OF assms(1)] by (simp add: no_connector_def)
  then have "no_connector t" using assms(2) by (rule accepted.run_inv)
  then show ?thesis using assms(3)
    by (auto simp: ConnectionCallback_def retry_connect_def no_connector_def max_connect_retry_def)
qed

theorem accepted_stream_timeout_faults_witness:
  "\<exists>s :: (u64 list, unit) IperfStream. accept_stream [] None (example_config ROLE_RECEIVER) 1 1 1400 = Inr s
     \<and> stream_step example_lib s (EvCallback (example_clock 1) True [] 1 1400 BATS_CONNECTION_TIMEOUT None 0) = Inl NullDeref"
proof -
  obtain s :: "(u64 list, unit) IperfStream" where s: "accept_stream [] None (example_config ROLE_RECEIVER) 1 1 1400 = Inr s"
    using accept_stream_defined [of 1400 "example_config ROLE_RECEIVER"]
    by (fastforce simp: data_buffer_size_def example_protocol max_bats_iperf_buffer_def)
  then show ?thesis using accepted_stream_timeout_faults [OF s, of example_lib "[]"] by auto
qed

section \<open>The end of a stream\<close>

text \<open>
  C10. The FIN handshake completes: the FIN block of a reliable sender, delivered unchanged, takes
  the receiver to \<open>STREAM_DONE\<close> and makes it answer; the answer, delivered unchanged, takes the
  sender to \<open>STREAM_DONE\<close> with the FIN acknowledged.
\<close>

theorem fin_handshake:
  assumes s: "stream_inv s" "IsReliableProtocol (protocol (config s))" "data_conn s \<noteq> None"
      "stream_identifier s \<noteq> 0" "diff_s_r_list s = []" "40 \<le> ideal_length s" "ideal_length s \<le> int (length (iperf_data s))"
    and r: "stream_inv r" "data_conn r \<noteq> None" "stream_identifier r \<noteq> 0"
      "40 \<le> ideal_length r" "ideal_length r \<le> int (length (iperf_data r))"
      "jitter_ok (diff_s_r (wall_ms ck2) (wall_ms ck1)) r"
  shows "\<exists>s' fin r' ack ps s''. SendFIN ck1 True s = Inr s'
     \<and> out s' = out s @ [Sent fin BATS_SEND_FLAG_FIN True]
     \<and> UpdateReceived L ck2 True obs (Some fin) (int (length fin)) r = Inr (True, r')
     \<and> state r' = STREAM_DONE \<and> is_fin_received r'
     \<and> out r' = out r @ Sent ack BATS_SEND_FLAG_FIN True # ps
     \<and> UpdateReceived L ck3 fs obs' (Some ack) (int (length ack)) s' = Inr (True, s'')
     \<and> state s'' = STREAM_DONE \<and> is_fin_acked s''"
proof -
  obtain h where "carries (iperf_data s) h" using s(1) carries_exists data_ok_of_inv by blast
  from SendFIN_ok [OF s(2,3) this, of ck1] obtain b h1 where
    b: "SendFIN ck1 True s = Inr ((upd_sender (count_sent (ideal_length s))
           (emit (Sent (take (nat (ideal_length s)) b) BATS_SEND_FLAG_FIN True) (s\<lparr>iperf_data := b\<rparr>)))\<lparr>thread := T_Exited\<rparr>)"
      "length b = length (iperf_data s)" "carries b h1" "th_last h1" "\<not> th_ack h1" "\<not> th_has_interval h1"
      "th_time h1 = wall_ms ck1"
    unfolding returns_def by force
  let ?n = "nat (ideal_length s)" and ?m = "nat (ideal_length r)"
  let ?fin = "take ?n b"
  have "length ?fin = ?n" using b(2) s(7) by simp
  obtain r' d ps h2 where r': "UpdateReceived L ck2 True obs (Some ?fin) (int ?n) r = Inr (True, r')"
      "state r' = STREAM_DONE" "is_fin_received r'"
      "out r' = out r @ Sent (take ?m d) BATS_SEND_FLAG_FIN True # ps" "length d = length (iperf_data r)"
      "carries d h2" "th_last h2" "th_ack h2" "\<not> th_has_interval h2"
    using receive_fin [OF b(3-6), of ?n r ck2 L obs] b(2,7) r s unfolding returns_def by force
  let ?s = "(upd_sender (count_sent (ideal_length s))
           (emit (Sent ?fin BATS_SEND_FLAG_FIN True) (s\<lparr>iperf_data := b\<rparr>)))\<lparr>thread := T_Exited\<rparr>"
  have "length (take ?m d) = ?m" using r'(5) r(5) by simp
  moreover obtain s'' where "UpdateReceived L ck3 fs obs' (Some (take ?m d)) (int ?m) ?s = Inr (True, s'')"
      "state s'' = STREAM_DONE" "is_fin_acked s''"
    using receive_fin_ack [OF r'(6-9), of ?m ?s ck3 L fs obs'] r'(5) r s unfolding returns_def
    by (force simp: jitter_ok_def)
  ultimately show ?thesis using b(1) r' \<open>length ?fin = ?n\<close>
    by (intro exI [of _ ?s] exI [of _ ?fin] exI [of _ r'] exI [of _ "take ?m d"] exI [of _ ps] exI [of _ s'']) simp
qed

theorem fin_handshake_witness:
  "\<exists>s' r' s'' fin ack. SendFIN (example_clock 1) True (example_stream ROLE_SENDER) = Inr s'
     \<and> UpdateReceived example_lib (example_clock 2) True [] (Some fin) (int (length fin)) (example_stream ROLE_RECEIVER) = Inr (True, r')
     \<and> UpdateReceived example_lib (example_clock 3) True [] (Some ack) (int (length ack)) s' = Inr (True, s'')
     \<and> state r' = STREAM_DONE \<and> state s'' = STREAM_DONE \<and> is_fin_received r' \<and> is_fin_acked s''"
  using fin_handshake [of "example_stream ROLE_SENDER" "example_stream ROLE_RECEIVER" "example_clock 2" "example_clock 1"
      example_lib "[]" "example_clock 3" True "[]"]
  by (auto simp: example_stream_inv example_protocol example_data_ok jitter_ok_def)





section \<open>Reports\<close>

text \<open>
  C17. Successive snapshots partition the traffic: the intervals add up to the counters (modulo
  \<open>2^64\<close>) and each interval starts at the sequence number where the one before ends.
\<close>

theorem intervals_partition_traffic:
  assumes "rs = snapshots r xs" and "xs \<noteq> []"
  shows "sum_list (map (\<lambda>q. bytes (LastInterval q)) rs) = bytes (summary (last rs)) - bytes (LastSnapshot r)
    \<and> sum_list (map (\<lambda>q. datagrams (LastInterval q)) rs) = datagrams (summary (last rs)) - datagrams (LastSnapshot r)
    \<and> start_seq (LastInterval (hd rs)) = datagrams (LastSnapshot r)
    \<and> (\<forall>i. Suc i < length rs \<longrightarrow>
         start_seq (LastInterval (rs ! Suc i)) = start_seq (LastInterval (rs ! i)) + datagrams (LastInterval (rs ! i)))"
  using assms
proof (induction xs arbitrary: r rs rule: induct_list012)
  case 1
  then show ?case by simp
next
  case (2 x)
  then show ?case by (cases x) (simp add: Let_def)
next
  case (3 x y zs)
  obtain nb nd now ms where x: "x = (nb, nd, now, ms)" by (cases x)
  let ?r = "SnapshotRxTxReport (r\<lparr>summary := (summary r)\<lparr>bytes := nb, datagrams := nd\<rparr>\<rparr>) now ms"
  have rs: "rs = ?r # snapshots ?r (y # zs)" using 3(3) x by (simp add: Let_def)
  have ne: "snapshots ?r (y # zs) \<noteq> []" by (cases y) (simp add: Let_def)
  have ih: "sum_list (map (\<lambda>q. bytes (LastInterval q)) (snapshots ?r (y # zs))) = bytes (summary (last (snapshots ?r (y # zs)))) - nb"
    "sum_list (map (\<lambda>q. datagrams (LastInterval q)) (snapshots ?r (y # zs))) = datagrams (summary (last (snapshots ?r (y # zs)))) - nd"
    "start_seq (LastInterval (hd (snapshots ?r (y # zs)))) = nd"
    "Suc i < length (snapshots ?r (y # zs)) \<Longrightarrow> start_seq (LastInterval (snapshots ?r (y # zs) ! Suc i)) =
       start_seq (LastInterval (snapshots ?r (y # zs) ! i)) + datagrams (LastInterval (snapshots ?r (y # zs) ! i))" for i
    using 3(2) [of "snapshots ?r (y # zs)" ?r] by simp_all
  have "start_seq (LastInterval (rs ! Suc i)) = start_seq (LastInterval (rs ! i)) + datagrams (LastInterval (rs ! i))"
    if "Suc i < length rs" for i
  proof (cases i)
    case 0
    then show ?thesis using ih(3) ne by (simp add: rs hd_conv_nth del: snapshots.simps)
  next
    case (Suc j)
    then show ?thesis using ih(4) [of j] that by (simp add: rs del: snapshots.simps)
  qed
  then show ?case using ih ne by (simp add: rs del: snapshots.simps)
qed

theorem intervals_partition_traffic_witness:
  "map (\<lambda>q. (start_seq (LastInterval q), datagrams (LastInterval q)))
     (snapshots TestReport_init [(1000, 10, 1, 1), (2500, 25, 2, 1)]) = [(0, 10), (10, 15)]
   \<and> sum_list (map (\<lambda>q. bytes (LastInterval q)) (snapshots TestReport_init [(1000, 10, 1, 1), (2500, 25, 2, 1)])) = 2500"
  using intervals_partition_traffic [OF refl, of "[(1000, 10, 1, 1), (2500, 25, 2, 1)]" TestReport_init]
  by (simp add: Let_def TestReport_init_def TestInterval_init_def)

text \<open>
  The sender's report crosses the control message: identifier, bytes and datagrams exactly, the
  rate as the two decimals of the wire give it; nothing outside the 32 bytes is touched.
\<close>

theorem report_roundtrip:
  assumes "rate_to_wire (bitrate (summary (tx s))) = Inr w" and "p + 32 \<le> length b"
  shows "returns (SerializeReport s b p) (\<lambda>(b', p'). p' = p + 32 \<and> length b' = length b
    \<and> load64 b' p = Inr (stream_identifier s)
    \<and> returns (DeserializeReport b' (p + 8) r) (\<lambda>(r', q). q = p' \<and> is_sum_received r'
        \<and> bytes (summary (tx r')) = bytes (summary (tx s)) \<and> datagrams (summary (tx r')) = datagrams (summary (tx s))
        \<and> bitrate (summary (tx r')) = rate_of_wire w \<and> rx r' = rx r)
    \<and> (\<forall>q n. q + n \<le> p \<or> p + 32 \<le> q \<longrightarrow> peek b' q n = peek b q n))"
proof -
  have 3: "p + 8 + 8 = p + 16" "p + 8 + 16 = p + 24" "p + 8 + 24 = p + 32" by simp_all
  obtain b' where "SerializeReport s b p = Inr (b', p + 32)" "length b' = length b"
    "load64 b' p = Inr (stream_identifier s)" "load64 b' (p + 8) = Inr (bytes (summary (tx s)))"
    "load64 b' (p + 16) = Inr (datagrams (summary (tx s)))" "load64 b' (p + 24) = Inr w"
    "\<forall>q n. q + n \<le> p \<or> p + 32 \<le> q \<longrightarrow> peek b' q n = peek b q n"
    using write_report_ok [OF assms, of "stream_identifier s"] unfolding SerializeReport_def by blast
  then show ?thesis by (simp add: returns_def DeserializeReport_def read_report_def 3)
qed

theorem report_roundtrip_witness:
  "\<exists>b'. SerializeReport (example_stream ROLE_SENDER) (replicate 40 0) 4 = Inr (b', 36)
     \<and> load64 b' 4 = Inr 7"
proof -
  obtain w where "rate_to_wire (Fin 0) = Inr w" using example_rate by blast
  then have "rate_to_wire (bitrate (summary (tx (example_stream ROLE_SENDER)))) = Inr w"
    by (simp add: TestReport_init_def TestInterval_init_def)
  from report_roundtrip [OF this, of 4 "replicate 40 0" "example_stream ROLE_RECEIVER"] show ?thesis
    by (auto simp: returns_def)
qed

text \<open>
  A sender that is stopped before its first snapshot has an infinite or undefined rate; putting
  it on the wire converts it to an integer, which C++ leaves undefined.
\<close>

theorem report_before_snapshot_faults:
  assumes "role (config s) = ROLE_SENDER" and "state s \<noteq> STREAM_DONE" and "snapshot_cnt (tx s) = 0"
    and "interval (config s) = Fin i" and "p + 32 \<le> length b"
  shows "SerializeReport (FinishReport ck s) b p = Inl BadCast"
proof -
  let ?r = "tx (FinishReport ck s)"
  have z: "fmul Single (fl_int Single 0) (Fin i) = Fin 0"
    by (simp add: fl_int_def fl_def fmul_def)
  have "bitrate (summary ?r) = fdiv Double (fl_int Double (uint (bytes (summary (tx s))))) (Fin 0)"
    using assms z by (simp add: FinishReport_def GenSendSummary_def summary_rate_def Let_def)
  then have "rate_to_wire (bitrate (summary ?r)) = Inl BadCast"
    by (simp add: rate_of_division_by_zero)
  then show ?thesis using assms(5) by (simp add: SerializeReport_def write_report_def buf_simps)
qed

theorem report_before_snapshot_faults_witness:
  "SerializeReport (FinishReport (example_clock 9) (example_stream ROLE_SENDER)) (replicate 64 0) 32 = Inl BadCast"
  by (rule report_before_snapshot_faults [where i = 1])
    (simp_all add: example_config_def TestConfig_init_def TestReport_init_def)

end
