(* ===== verification/Stream_Accounts.thy ===== *)
theory Stream_Accounts
  imports Stream_Properties
begin

text \<open>
  What the two ends of a stream count. The sending end counts the blocks that its connection accepted, and the receiving end
  the blocks that arrived: for each operation of \<open>IperfStream\<close>, which of these counts it changes and by how much.
\<close>

section \<open>Blocks handed to the connection\<close>

definition volume :: "octet list list \<Rightarrow> u64" where
  "volume ds = word_of_nat (sum_list (map length ds))"

lemma volume_simps [simp]: "volume [] = 0" "volume (d # ds) = word_of_nat (length d) + volume ds" "volume (ds @ ds') = volume ds + volume ds'"
  by (simp_all add: volume_def)

text \<open>Differences of counters, read as signed numbers.\<close>

lemma sint_small: "\<bar>x\<bar> < 2 ^ 63 \<Longrightarrow> sint (word_of_int x :: u64) = x"
  by (simp only: sint_sbintrunc' signed_take_bit_int_eq_self) (simp add: signed_take_bit_int_eq_self)

lemma sint_small_nat: "n < 2 ^ 63 \<Longrightarrow> sint (word_of_nat n :: u64) = int n"
  using sint_small [of "int n"] by simp

section \<open>What the sending end counts\<close>

text \<open>
  The lengths that the thread works with stay inside the buffer; an accepted block is not empty; the counters are those of the
  accepted blocks, unless the thread has given up a block, which it counts all the same: then the stream is no
  longer sending or has an error.
\<close>

definition lengths_ok :: "('r, 'f) IperfStream \<Rightarrow> bool" where
  "lengths_ok s \<longleftrightarrow> ideal_length s \<le> int (length (iperf_data s)) \<and> (data_conn s \<noteq> None \<longrightarrow> 0 < ideal_length s)
     \<and> (\<forall>n. thread s = T_Retry n \<longrightarrow> 0 < n \<and> n \<le> int (length (iperf_data s)))"

definition counted :: "('r, 'f) IperfStream \<Rightarrow> bool" where
  "counted s \<longleftrightarrow> bytes (summary (tx s)) = volume (blocks_accepted (out s))
     \<and> datagrams (summary (tx s)) = word_of_nat (length (blocks_accepted (out s)))"

definition given_up :: "('r, 'f) IperfStream \<Rightarrow> bool" where
  "given_up s \<longleftrightarrow> thread s \<noteq> T_None \<and> (state s \<noteq> STREAM_START \<or> has_err_in_send s)"

definition count_inv :: "('r, 'f) IperfStream \<Rightarrow> bool" where
  "count_inv s \<longleftrightarrow> lengths_ok s \<and> [] \<notin> set (blocks_accepted (out s)) \<and> (counted s \<or> given_up s)"

text \<open>Operations that touch none of this.\<close>

definition keeps_count :: "('r, 'f) IperfStream \<Rightarrow> ('r, 'f) IperfStream \<Rightarrow> bool" where
  "keeps_count s t \<longleftrightarrow> blocks_accepted (out t) = blocks_accepted (out s)
     \<and> bytes (summary (tx t)) = bytes (summary (tx s)) \<and> datagrams (summary (tx t)) = datagrams (summary (tx s))
     \<and> thread t = thread s \<and> ideal_length t = ideal_length s \<and> iperf_data t = iperf_data s
     \<and> (data_conn t = None \<or> data_conn t = data_conn s) \<and> (has_err_in_send s \<longrightarrow> has_err_in_send t)
     \<and> (state t = state s \<or> state t \<noteq> STREAM_START)"

lemma keeps_count_refl [simp]: "keeps_count s s"
  by (simp add: keeps_count_def)

lemma keeps_count_trans: "keeps_count s t \<Longrightarrow> keeps_count t u \<Longrightarrow> keeps_count s u"
  by (auto simp: keeps_count_def)

lemma keeps_count_inv: "keeps_count s t \<Longrightarrow> count_inv s \<Longrightarrow> count_inv t"
  by (auto simp: keeps_count_def count_inv_def lengths_ok_def counted_def given_up_def)

lemma keeps_count_upd [simp]:
  "keeps_count s (t\<lparr>conn_state := x0\<rparr>) = keeps_count s t"
  "keeps_count s (t\<lparr>is_stopped := x1\<rparr>) = keeps_count s t"
  "keeps_count s (t\<lparr>connector := x2\<rparr>) = keeps_count s t"
  "keeps_count s (t\<lparr>is_writable := x3\<rparr>) = keeps_count s t"
  "keeps_count s (t\<lparr>is_fin_received := x4\<rparr>) = keeps_count s t"
  "keeps_count s (t\<lparr>is_fin_acked := x5\<rparr>) = keeps_count s t"
  "keeps_count s (t\<lparr>is_sum_printed := x6\<rparr>) = keeps_count s t"
  "keeps_count s (t\<lparr>is_sum_received := x7\<rparr>) = keeps_count s t"
  "keeps_count s (t\<lparr>connect_retry_cnt := x8\<rparr>) = keeps_count s t"
  "keeps_count s (t\<lparr>last_grp_id := x9\<rparr>) = keeps_count s t"
  "keeps_count s (t\<lparr>seq_of_last_changed_grp_id := x10\<rparr>) = keeps_count s t"
  "keeps_count s (t\<lparr>stream_identifier := x11\<rparr>) = keeps_count s t"
  "keeps_count s (t\<lparr>recv_seq_recorder := x12\<rparr>) = keeps_count s t"
  "keeps_count s (t\<lparr>diff_s_r_list := x13\<rparr>) = keeps_count s t"
  "keeps_count s (t\<lparr>is_first_jitter_calculation := x14\<rparr>) = keeps_count s t"
  "keeps_count s (t\<lparr>flow_shaper := x15\<rparr>) = keeps_count s t"
  "keeps_count s (t\<lparr>thread_grp_id := x16\<rparr>) = keeps_count s t"
  "keeps_count s (emit (Print m) t) = keeps_count s t" "keeps_count s (emit (StopConn c) t) = keeps_count s t"
  "keeps_count s (emit (Connect host p) t) = keeps_count s t" "keeps_count s (emit SetCallback t) = keeps_count s t"
  "keeps_count s (emit Notify t) = keeps_count s t" "keeps_count s (upd_receiver g t) = keeps_count s t"
  by (auto simp: keeps_count_def)

lemma keeps_count_updI [intro!]:
  "keeps_count s t \<Longrightarrow> keeps_count s (t\<lparr>state := STREAM_DONE\<rparr>)" "keeps_count s t \<Longrightarrow> keeps_count s (t\<lparr>state := STREAM_STOP\<rparr>)"
  "keeps_count s t \<Longrightarrow> keeps_count s (t\<lparr>data_conn := None\<rparr>)" "keeps_count s t \<Longrightarrow> keeps_count s (t\<lparr>has_err_in_send := True\<rparr>)"
  by (simp_all add: keeps_count_def)

lemma keeps_count_prints [simp]:
  "keeps_count s (PrintLastInterval ck s)" "keeps_count s (PrintSendSummary s)" "keeps_count s (PrintReceiveSummary s)"
  "keeps_count s (PrintSendRecvSummary s)"
  by (simp_all add: keeps_count_def PrintLastInterval_def PrintSendSummary_def PrintReceiveSummary_def PrintSendRecvSummary_def)

lemma keeps_count_FinishReport [simp]: "keeps_count s (FinishReport ck s)"
  by (simp add: keeps_count_def FinishReport_def Let_def GenSendSummary_def GenReceiveSummary_def PrintLastInterval_def)

lemma keeps_count_Stop [simp]: "keeps_count s (Stop ck s)"
proof -
  have "keeps_count s (FinishReport ck (s\<lparr>is_stopped := True\<rparr>))"
    by (rule keeps_count_trans [OF _ keeps_count_FinishReport]) simp
  then show ?thesis by (auto simp: Stop_def Let_def)
qed

lemma keeps_count_polls:
  "SnapshotReport ck s = Inr (r, t) \<Longrightarrow> keeps_count s t"
  "IsIntervalDataReceivedTimeout ck s = Inr (r, t) \<Longrightarrow> keeps_count s t"
  by (auto simp: SnapshotReport_def IsIntervalDataReceivedTimeout_def Let_def rbind_eq_Inr keeps_count_def split: if_splits)

lemma keeps_count_record_interval [simp]: "keeps_count s (reset_jitter t) = keeps_count s t"
  "keeps_count s (record_interval ck ms i n t) = keeps_count s t"
  by (simp_all add: record_interval_def reset_jitter_def Let_def del: upd_reports upd_receiver_fields)

lemma keeps_count_OnReceivedIntervalData: "OnReceivedIntervalData L ck d p s = Inr t \<Longrightarrow> keeps_count s t"
  by (auto simp: OnReceivedIntervalData_def rbind_eq_Inr Let_def ResetSeqRecord_def split: if_splits)

lemma keeps_count_UpdateGroup: "UpdateGroup L ck d h s = Inr t \<Longrightarrow> keeps_count s t"
proof -
  assume u: "UpdateGroup L ck d h s = Inr t"
  let ?s = "snd (HasNewGrpId L (th_grp_id h) (th_seq h) s)"
  have "keeps_count s ?s" by (simp add: HasNewGrpId_def keeps_count_def)
  moreover have "keeps_count ?s t"
    using u keeps_count_OnReceivedIntervalData by (auto simp: UpdateGroup_def Let_def split: if_splits)
  ultimately show ?thesis by (rule keeps_count_trans)
qed

lemma keeps_count_UpdateJitter: "UpdateJitter d s = Inr t \<Longrightarrow> keeps_count s t"
  by (auto simp: UpdateJitter_def rbind_eq_Inr Let_def keeps_count_def split: if_splits)

lemma keeps_count_StartConnect: "StartConnect s = Inr t \<Longrightarrow> keeps_count s t"
  by (auto simp: StartConnect_def rbind_eq_Inr)

lemma keeps_count_retry_connect: "retry_connect cn s = Inr (r, t) \<Longrightarrow> keeps_count s t"
proof -
  assume r: "retry_connect cn s = Inr (r, t)"
  have "keeps_count s (emit (StopConn (Some cn)) s)" by simp
  then show ?thesis using r
    by (auto simp: retry_connect_def rbind_eq_Inr split: if_splits dest!: keeps_count_StartConnect
        intro: keeps_count_trans [of s "emit (StopConn (Some cn)) s"])
qed

section \<open>The counters follow the blocks\<close>

text \<open>\<open>sends s t ds\<close>: the accepted blocks of \<open>t\<close> are those of \<open>s\<close> and \<open>ds\<close>, and the counters have grown accordingly.\<close>

definition sends :: "('r, 'f) IperfStream \<Rightarrow> ('r, 'f) IperfStream \<Rightarrow> octet list list \<Rightarrow> bool" where
  "sends s t ds \<longleftrightarrow> blocks_accepted (out t) = blocks_accepted (out s) @ ds
     \<and> bytes (summary (tx t)) = bytes (summary (tx s)) + volume ds
     \<and> datagrams (summary (tx t)) = datagrams (summary (tx s)) + word_of_nat (length ds)"

lemma sends_counted: "sends s t ds \<Longrightarrow> counted s \<Longrightarrow> counted t"
  by (simp add: sends_def counted_def)

lemma sends_inv:
  assumes "count_inv s" and "sends s t ds" and "[] \<notin> set ds" and "lengths_ok t" and "given_up s \<Longrightarrow> given_up t"
  shows "count_inv t"
  using assms sends_counted [OF assms(2)] by (auto simp: count_inv_def sends_def)

lemma given_upI [simp]: "given_up s \<Longrightarrow> pc \<noteq> T_None \<Longrightarrow> given_up (s\<lparr>thread := pc\<rparr>)"
  by (simp add: given_up_def)

lemma count_inv_Switch: "count_inv s \<Longrightarrow> SwitchDataBlockLength n s = Inr t \<Longrightarrow> count_inv t"
  by (auto simp: SwitchDataBlockLength_def rbind_eq_Inr count_inv_def lengths_ok_def counted_def given_up_def)

lemma count_inv_established:
  assumes "count_inv s" and "SwitchDataBlockLength n (s\<lparr>conn_state := c, data_conn := Some cn\<rparr>) = Inr t"
  shows "count_inv t"
  using assms by (auto simp: SwitchDataBlockLength_def rbind_eq_Inr count_inv_def lengths_ok_def counted_def given_up_def)

lemma count_inv_OnReceivedFIN:
  assumes "count_inv s" and "OnReceivedFIN ck fs obs s = Inr t"
  shows "count_inv t"
  using assms(2)
proof (cases rule: OnReceivedFIN_cases)
  case (1 b results)
  let ?d = "take (nat (ideal_length s)) b"
  let ?u = "(if last results then upd_sender (count_sent (ideal_length s)) else id)
        (emit_calls ?d BATS_SEND_FLAG_FIN results (s\<lparr>iperf_data := b\<rparr>))"
  have len: "0 < ideal_length s" "ideal_length s \<le> int (length b)" "length ?d = nat (ideal_length s)"
    using assms(1) 1(1,4) by (auto simp: count_inv_def lengths_ok_def)
  have "thread ?u = thread s" "state ?u = state s" "has_err_in_send ?u = has_err_in_send s" by (simp_all add: emit_calls_def)
  moreover have "sends s ?u (if last results then [?d] else [])"
    using 1(2) len by (auto simp: sends_def count_sent_def emit_calls_def id_def)
  moreover have "lengths_ok ?u" using assms(1) 1(1,4) by (simp add: count_inv_def lengths_ok_def emit_calls_def)
  ultimately have "count_inv ?u" using len by (intro sends_inv [OF assms(1)]) (auto simp: given_up_def)
  moreover have "keeps_count ?u t" unfolding 1(5) by auto
  ultimately show ?thesis by (rule keeps_count_inv [rotated])
qed

text \<open>The thread.\<close>

lemma prepare_block_cases:
  assumes "prepare_block ck s = Inr t"
  obtains b g where "t = s\<lparr>thread_grp_id := g, iperf_data := b\<rparr>" "length b = length (iperf_data s)"
    "restamped (datagrams (summary (tx s))) (iperf_data s) b"
proof -
  obtain b0 where b0: "restamped (datagrams (summary (tx s))) (iperf_data s) b0" "(if snapshot_cnt (tx s) > 0 \<and> thread_grp_id s \<noteq> (snapshot_cnt (tx s) mod 2 = 1)
      then rbind (set_has_interval True b0) (\<lambda>b.
           rbind (SerializeInterval b sizeof_test_header (LastInterval (tx s))) (\<lambda>(b, p).
           Inr (s\<lparr>iperf_data := b, thread_grp_id := snapshot_cnt (tx s) mod 2 = 1\<rparr>)))
      else Inr (s\<lparr>iperf_data := b0\<rparr>)) = Inr t"
    using assms unfolding prepare_block_def Let_def
    by (elim restamped_bind_seq) ((erule restamped_bind_store, assumption)+, erule rbindE, rule that, auto split: if_splits dest: restamped_store(2))
  show thesis
  proof (cases "snapshot_cnt (tx s) > 0 \<and> thread_grp_id s \<noteq> (snapshot_cnt (tx s) mod 2 = 1)")
    case True
    then obtain b1 b2 p where "set_has_interval True b0 = Inr b1"
        "SerializeInterval b1 sizeof_test_header (LastInterval (tx s)) = Inr (b2, p)"
        "t = s\<lparr>thread_grp_id := snapshot_cnt (tx s) mod 2 = 1, iperf_data := b2\<rparr>"
      using b0(2) unfolding if_P [OF True] by (cases s) (auto simp: rbind_eq_Inr)
    moreover from this have r: "restamped (datagrams (summary (tx s))) (iperf_data s) b2"
      using b0(1) restamped_store(2) restamped_interval by blast
    moreover have "length b2 = length (iperf_data s)" using r by (simp add: restamped_def)
    ultimately show thesis using that by blast
  next
    case False
    then have "t = s\<lparr>thread_grp_id := thread_grp_id s, iperf_data := b0\<rparr>" using b0(2) unfolding if_not_P [OF False] by (cases s) auto
    moreover have "length b0 = length (iperf_data s)" using b0(1) by (simp add: restamped_def)
    ultimately show thesis using that b0(1) by blast
  qed
qed

lemma SendFIN_cases:
  assumes "SendFIN ck ok s = Inr t"
  obtains (reliable) b where "data_conn s \<noteq> None" "length b = length (iperf_data s)"
      "restamped (datagrams (summary (tx s))) (iperf_data s) b"
      "t = (let u = emit (Sent (take (nat (ideal_length s)) b) BATS_SEND_FLAG_FIN ok) (s\<lparr>iperf_data := b\<rparr>)
            in if ok then (upd_sender (count_sent (ideal_length s)) u)\<lparr>thread := T_Exited\<rparr> else u\<lparr>thread := T_FinRetry\<rparr>)"
  | (unreliable) "t = (PrintSendSummary s)\<lparr>thread := T_Exited\<rparr>"
proof (cases "IsReliableProtocol (protocol (config s))")
  case True
  then obtain b u where "SendData BATS_SEND_FLAG_FIN (ideal_length s) ok (s\<lparr>iperf_data := b\<rparr>) = Inr u"
      "t = (if ok then (upd_sender (count_sent (ideal_length u)) u)\<lparr>thread := T_Exited\<rparr> else u\<lparr>thread := T_FinRetry\<rparr>)"
      "length b = length (iperf_data s)" "restamped (datagrams (summary (tx s))) (iperf_data s) b"
    using assms unfolding SendFIN_def
    by (simp only: if_True) (erule restamped_bind_seq, (erule restamped_bind_store, assumption)+, erule rbindE, rule that, assumption, simp_all add: restamped_def)
  then show thesis using reliable by (auto simp: SendData_def block_to_send_def Let_def split: if_splits)
qed (use assms unreliable in \<open>simp add: SendFIN_def\<close>)

text \<open>An accepted block is counted with its length.\<close>

lemma sends_block:
  assumes "0 < n" and "n \<le> int (length b)"
  shows "sends s (upd_sender (count_sent n) (emit (Sent (take (nat n) b) f True) (s\<lparr>iperf_data := c\<rparr>))) [take (nat n) b]"
    "[] \<notin> set [take (nat n) b]"
  using assms by (auto simp: sends_def count_sent_def)

lemma sends_fields [simp]:
  "sends s (t\<lparr>thread := pc\<rparr>) ds = sends s t ds" "sends s (t\<lparr>flow_shaper := x\<rparr>) ds = sends s t ds"
  "sends s (t\<lparr>thread_grp_id := g\<rparr>) ds = sends s t ds" "sends (s\<lparr>thread_grp_id := g\<rparr>) t ds = sends s t ds"
  "sends (s\<lparr>iperf_data := b\<rparr>) t ds = sends s t ds"
  by (simp_all add: sends_def)

lemma count_inv_thread: "count_inv s \<Longrightarrow> pc \<noteq> T_None \<Longrightarrow> \<not> (\<exists>n. pc = T_Retry n) \<Longrightarrow> count_inv (s\<lparr>thread := pc\<rparr>)"
  by (auto simp: count_inv_def lengths_ok_def counted_def given_up_def)

lemma count_inv_fail:
  "count_inv s \<Longrightarrow> length b = length (iperf_data s) \<Longrightarrow> count_inv (emit (Sent d f False) (s\<lparr>iperf_data := b\<rparr>))"
  by (auto simp: count_inv_def lengths_ok_def counted_def given_up_def)

text \<open>A block that is accepted, and what the thread does after it.\<close>

lemma count_inv_send:
  assumes "count_inv s" and "0 < n" and "n \<le> int (length b)" and "length b = length (iperf_data s)" and "thread s \<noteq> T_None"
  shows "count_inv (upd_sender (count_sent n) (emit (Sent (take (nat n) b) f True) (s\<lparr>iperf_data := b\<rparr>)))" (is "count_inv ?t")
proof (rule sends_inv [OF assms(1) sends_block(1) [OF assms(2,3)] sends_block(2) [OF assms(2,3)]])
  show "lengths_ok ?t" using assms(1,4) by (simp add: count_inv_def lengths_ok_def)
  show "given_up s \<Longrightarrow> given_up ?t" by (simp add: given_up_def)
qed

lemma count_block_eq: "count_block L n s = (upd_sender (count_sent n) s)
    \<lparr>flow_shaper := map_option (update_bytes_counter L n) (flow_shaper s), thread := T_Loop\<rparr>"
  by (simp add: count_block_def)

lemma count_inv_shaper [simp]: "count_inv (s\<lparr>flow_shaper := x\<rparr>) = count_inv s" "count_inv (s\<lparr>thread_grp_id := g\<rparr>) = count_inv s"
  by (simp_all add: count_inv_def lengths_ok_def counted_def given_up_def)

lemma count_inv_Block:
  assumes inv: "count_inv s" and st: "thread_step L ck ok T_Block s = Inr t" and pc: "thread s = T_Block"
  shows "count_inv t"
proof (cases "t = s\<lparr>thread := T_Loop\<rparr>")
  case True
  then show ?thesis using inv by (simp add: count_inv_thread)
next
  case False
  then obtain u where u: "prepare_block ck s = Inr u" "rbind (SendData BATS_SEND_FLAG_NONE (ideal_length u) ok u) (\<lambda>s.
      Inr (if ok then count_block L (ideal_length s) s else s\<lparr>thread := T_Retry (ideal_length s)\<rparr>)) = Inr t"
    using st by (auto simp: rbind_eq_Inr split: if_splits)
  obtain b g where b: "u = s\<lparr>thread_grp_id := g, iperf_data := b\<rparr>" "length b = length (iperf_data s)"
    using prepare_block_cases [OF u(1)] .
  let ?n = "ideal_length s" and ?s = "s\<lparr>thread_grp_id := g\<rparr>"
  have n: "0 < ?n" "?n \<le> int (length b)"
    and t: "t = (let v = emit (Sent (take (nat ?n) b) BATS_SEND_FLAG_NONE ok) (?s\<lparr>iperf_data := b\<rparr>) in
        if ok then count_block L ?n v else v\<lparr>thread := T_Retry ?n\<rparr>)"
    using u(2) b inv by (auto simp: count_inv_def lengths_ok_def rbind_eq_Inr SendData_def block_to_send_def split: if_splits)
  show ?thesis
  proof (cases ok)
    case True
    then show ?thesis using count_inv_send [of ?s ?n b] inv n b(2) pc t by (simp add: count_block_eq count_inv_thread)
  next
    case False
    then show ?thesis using count_inv_fail [of ?s b "take (nat ?n) b" BATS_SEND_FLAG_NONE] inv n t b(2) pc
      by (simp add: count_inv_def lengths_ok_def counted_def given_up_def)
  qed
qed

lemma count_inv_Retry:
  assumes inv: "count_inv s" and st: "thread_step L ck ok (T_Retry n) s = Inr t" and pc: "thread s = T_Retry n"
  shows "count_inv t"
proof -
  have n: "0 < n" "n \<le> int (length (iperf_data s))" using inv pc by (auto simp: count_inv_def lengths_ok_def)
  let ?v = "\<lambda>ok. emit (Sent (take (nat n) (iperf_data s)) BATS_SEND_FLAG_NONE ok) (s\<lparr>iperf_data := iperf_data s\<rparr>)"
  consider "t = s" | "given_up s" "t = count_block L n s" | "t = count_block L n (?v True)" | "t = ?v False"
    using st pc by (fastforce simp: given_up_def rbind_eq_Inr SendData_def block_to_send_def split: if_splits)
  then show ?thesis
  proof cases
    case 2
    then show ?thesis using inv by (auto simp: count_block_eq count_inv_def lengths_ok_def given_up_def)
  next
    case 3
    then show ?thesis using count_inv_send [OF inv n refl] pc by (simp add: count_block_eq count_inv_thread)
  qed (use inv count_inv_fail [OF inv refl] in auto)
qed

lemma count_inv_Fin:
  assumes inv: "count_inv s" and st: "SendFIN ck ok s = Inr t" and pc: "thread s = T_Fin"
  shows "count_inv t"
  using st
proof (cases rule: SendFIN_cases)
  case (reliable b)
  have n: "0 < ideal_length s" "ideal_length s \<le> int (length b)" using reliable(1,2) inv by (auto simp: count_inv_def lengths_ok_def)
  show ?thesis
    using count_inv_send [OF inv n reliable(2)] count_inv_fail [OF inv reliable(2)] pc
    by (cases ok) (simp_all add: reliable(4) count_inv_thread)
next
  case unreliable
  then show ?thesis using keeps_count_inv [OF keeps_count_prints(2) inv] by (simp add: count_inv_thread)
qed

lemma count_inv_FinRetry:
  assumes inv: "count_inv s" and st: "thread_step L ck ok T_FinRetry s = Inr t" and pc: "thread s = T_FinRetry"
  shows "count_inv t"
proof -
  let ?v = "\<lambda>ok. emit (Sent (take (nat (ideal_length s)) (iperf_data s)) BATS_SEND_FLAG_FIN ok) (s\<lparr>iperf_data := iperf_data s\<rparr>)"
  consider "t = s" | "t = s\<lparr>thread := T_Exited\<rparr>"
    | "data_conn s \<noteq> None" "t = (upd_sender (count_sent (ideal_length s)) (?v True))\<lparr>thread := T_Exited\<rparr>" | "t = ?v False"
    using st by (fastforce simp: rbind_eq_Inr SendData_def block_to_send_def split: if_splits)
  then show ?thesis
  proof cases
    case 3
    then have n: "0 < ideal_length s" "ideal_length s \<le> int (length (iperf_data s))" using inv by (auto simp: count_inv_def lengths_ok_def)
    show ?thesis using count_inv_send [OF inv n refl] pc 3(2) by (simp add: count_inv_thread)
  qed (use inv count_inv_fail [OF inv refl] in \<open>auto simp: count_inv_thread\<close>)
qed

lemma count_inv_thread_step:
  assumes inv: "count_inv s" and st: "thread_step L ck ok (thread s) s = Inr t"
  shows "count_inv t"
proof (cases "thread s")
  case T_Entered
  then show ?thesis using st inv keeps_count_inv [OF keeps_count_Stop inv]
    by (auto simp: count_inv_thread split: if_splits)
next
  case T_Loop
  have "count_inv (s\<lparr>has_err_in_send := False, state := STREAM_DONE, thread := T_Fin\<rparr>)"
    using inv T_Loop by (auto simp: count_inv_def lengths_ok_def counted_def given_up_def)
  then show ?thesis using st inv T_Loop by (auto simp: count_inv_thread split: if_splits)
qed (use inv st count_inv_Block count_inv_Retry count_inv_Fin count_inv_FinRetry in
    \<open>auto simp: count_inv_thread simp del: thread_step.simps(6,7,9) split: if_splits\<close>)

text \<open>What a valid block changes before the stream reacts to its flags.\<close>

definition noted :: "('r, 'f) stream_lib \<Rightarrow> clock \<Rightarrow> int \<Rightarrow> iperf_test_header \<Rightarrow> ('r, 'f) IperfStream \<Rightarrow> ('r, 'f) IperfStream" where
  "noted L ck len h s =
     (let s = upd_receiver (count_received ck len) s;
          s = s\<lparr>recv_seq_recorder := Record L (th_seq h) (recv_seq_recorder s)\<rparr>;
          s = (if stream_identifier s = 0 then s\<lparr>stream_identifier := th_stream_identifier h\<rparr> else s)
      in if th_last h \<and> th_ack h then PrintSendSummary (s\<lparr>is_fin_acked := True, state := STREAM_DONE\<rparr>) else s)"

lemma noted_fields:
  "keeps_count s (noted L ck len h s)" "rx (noted L ck len h s) = count_received ck len (rx s)"
  "config (noted L ck len h s) = config s \<and> (state (noted L ck len h s) = state s \<or> state (noted L ck len h s) = STREAM_DONE)
     \<and> stream_identifier (noted L ck len h s) = (if stream_identifier s = 0 then th_stream_identifier h else stream_identifier s)"
  by (auto simp: noted_def Let_def PrintSendSummary_def)

lemma UpdateReceived_block:
  assumes "0 < len"
  shows "UpdateReceived L ck fs obs (Some x) len s =
     rbind (read_test_header x) (\<lambda>h.
     rbind (if protocol (config s) = 2 then Inr True else ValidateReceivedData x len) (\<lambda>valid.
     if \<not> valid then Inl ExitFailure
     else if stream_identifier s = 0 \<and> th_seq h \<noteq> 0 \<and> (protocol (config s) = 1 \<or> protocol (config s) = 10) then Inl ExitFailure
     else rbind (if th_last h \<and> \<not> th_ack h then OnReceivedFIN ck fs obs (noted L ck len h s) else Inr (noted L ck len h s)) (\<lambda>s.
          rbind (UpdateGroup L ck x h s) (\<lambda>s.
          rbind (UpdateJitter (diff_s_r (wall_ms ck) (th_time h)) s) (\<lambda>s. Inr (True, s))))))"
  using assms unfolding UpdateReceived_def noted_def Let_def by (simp cong: if_cong)

lemma if_Inl_Inr: "(if c then Inl e else m) = Inr y \<Longrightarrow> m = Inr y"
  by (simp split: if_splits)

lemma UpdateReceived_cases:
  assumes "UpdateReceived L ck fs obs d len s = Inr (r, t)"
  obtains (nothing) "t = s" "d = None \<or> len \<le> 0"
  | (block) x h s1 s2 s3 where "d = Some x" "0 < len" "keeps_count s s1" "rx s1 = count_received ck len (rx s)"
      "config s1 = config s \<and> (state s1 = state s \<or> state s1 = STREAM_DONE)
        \<and> stream_identifier s1 = (if stream_identifier s = 0 then th_stream_identifier h else stream_identifier s)"
      "(if th_last h \<and> \<not> th_ack h then OnReceivedFIN ck fs obs s1 else Inr s1) = Inr s2"
      "UpdateGroup L ck x h s2 = Inr s3" "UpdateJitter (diff_s_r (wall_ms ck) (th_time h)) s3 = Inr t" "read_test_header x = Inr h"
proof (cases "d = None \<or> len \<le> 0")
  case True
  then have "t = s" using assms by (auto simp: UpdateReceived_def split: option.splits)
  then show thesis by (rule nothing) (rule True)
next
  case False
  then obtain x where x: "d = Some x" "0 < len" by auto
  obtain h v where h: "read_test_header x = Inr h" and "(if \<not> v then Inl ExitFailure
      else if stream_identifier s = 0 \<and> th_seq h \<noteq> 0 \<and> (protocol (config s) = 1 \<or> protocol (config s) = 10) then Inl ExitFailure
      else rbind (if th_last h \<and> \<not> th_ack h then OnReceivedFIN ck fs obs (noted L ck len h s) else Inr (noted L ck len h s)) (\<lambda>s.
           rbind (UpdateGroup L ck x h s) (\<lambda>s.
           rbind (UpdateJitter (diff_s_r (wall_ms ck) (th_time h)) s) (\<lambda>s. Inr (True, s))))) = Inr (r, t)"
    using assms unfolding x(1) UpdateReceived_block [OF x(2)] by (elim rbindE) (rule that)
  note this(2) [THEN if_Inl_Inr, THEN if_Inl_Inr]
  then obtain s2 s3 where "(if th_last h \<and> \<not> th_ack h then OnReceivedFIN ck fs obs (noted L ck len h s) else Inr (noted L ck len h s)) = Inr s2"
      "UpdateGroup L ck x h s2 = Inr s3" "UpdateJitter (diff_s_r (wall_ms ck) (th_time h)) s3 = Inr t"
    by (elim rbindE) (rule that, assumption+, simp)
  then show thesis by (rule block [OF x noted_fields _ _ _ h])
qed

lemma count_inv_UpdateReceived:
  assumes "count_inv s" and "UpdateReceived L ck fs obs d len s = Inr (r, t)"
  shows "count_inv t"
  using assms(2)
proof (cases rule: UpdateReceived_cases)
  case (block x h s1 s2 s3)
  have "count_inv s1" using block(3) assms(1) by (rule keeps_count_inv)
  then have "count_inv s2" using block(6) count_inv_OnReceivedFIN by (auto split: if_splits)
  then show ?thesis using keeps_count_inv keeps_count_UpdateGroup [OF block(7)] keeps_count_UpdateJitter [OF block(8)] by blast
qed (use assms(1) in simp)

lemma count_inv_callback:
  assumes "count_inv s" and "ConnectionCallback L ck fs obs cn ideal ev d len s = Inr (r, t)"
  shows "count_inv t"
proof (cases "keeps_count s t")
  case True
  then show ?thesis using assms(1) by (rule keeps_count_inv)
next
  case False
  then show ?thesis using assms
    by (cases ev) (auto simp: ConnectionCallback_def rmap_eq_Inr split: if_splits
        dest: count_inv_established count_inv_Switch count_inv_UpdateReceived keeps_count_retry_connect)
qed

text \<open>All operations but \<open>DeserializeReport\<close>, by which a receiver takes over the counters of its peer.\<close>

fun own_counts :: "stream_event \<Rightarrow> bool" where
  "own_counts (EvDeserializeReport b p) = False"
| "own_counts e = True"

lemma count_inv_step:
  assumes "count_inv s" and "stream_step L s e = Inr t" and "own_counts e"
  shows "count_inv t"
proof (cases "keeps_count s t")
  case True
  then show ?thesis using assms(1) by (rule keeps_count_inv)
next
  case False
  then show ?thesis
  proof (cases e)
    case (EvStartSend ck)
    then show ?thesis using assms(1,2)
      by (auto simp: StartSend_def Let_def count_inv_def lengths_ok_def counted_def given_up_def split: if_splits)
  qed (use False assms in \<open>auto simp: rmap_eq_Inr StartRecv_def split: if_splits
      dest: count_inv_thread_step count_inv_callback keeps_count_StartConnect keeps_count_polls\<close>)
qed

section \<open>What the receiving end counts\<close>

text \<open>
  The bytes change only with received blocks. So do the datagrams until the report is finished: the state of a receiver is
  \<open>STREAM_NONE\<close> up to then.
\<close>

definition keeps_rx :: "('r, 'f) IperfStream \<Rightarrow> ('r, 'f) IperfStream \<Rightarrow> bool" where
  "keeps_rx s t \<longleftrightarrow> config t = config s \<and> stream_identifier t = stream_identifier s \<and> bytes (summary (rx t)) = bytes (summary (rx s))
     \<and> (state t = STREAM_NONE \<longrightarrow> state s = STREAM_NONE \<and> datagrams (summary (rx t)) = datagrams (summary (rx s)))"

lemma keeps_rx_refl [simp]: "keeps_rx s s"
  by (simp add: keeps_rx_def)

lemma keeps_rx_trans: "keeps_rx s t \<Longrightarrow> keeps_rx t u \<Longrightarrow> keeps_rx s u"
  by (auto simp: keeps_rx_def)

lemma keeps_rx_upd [simp]:
  "keeps_rx s (emit x t) = keeps_rx s t" "keeps_rx s (upd_sender f t) = keeps_rx s t" "keeps_rx s (emit_calls d flag oks t) = keeps_rx s t"
  "keeps_rx s (t\<lparr>thread := pc\<rparr>) = keeps_rx s t" "keeps_rx s (t\<lparr>iperf_data := b\<rparr>) = keeps_rx s t"
  "keeps_rx s (t\<lparr>thread_grp_id := g\<rparr>) = keeps_rx s t" "keeps_rx s (t\<lparr>flow_shaper := f'\<rparr>) = keeps_rx s t"
  "keeps_rx s (t\<lparr>conn_state := c\<rparr>) = keeps_rx s t" "keeps_rx s (t\<lparr>data_conn := c'\<rparr>) = keeps_rx s t"
  "keeps_rx s (t\<lparr>is_stopped := g\<rparr>) = keeps_rx s t" "keeps_rx s (t\<lparr>connector := g\<rparr>) = keeps_rx s t"
  "keeps_rx s (t\<lparr>is_fin_received := g\<rparr>) = keeps_rx s t" "keeps_rx s (t\<lparr>is_writable := g\<rparr>) = keeps_rx s t"
  "keeps_rx s (t\<lparr>has_err_in_send := g\<rparr>) = keeps_rx s t" "keeps_rx s (t\<lparr>is_sum_received := g\<rparr>) = keeps_rx s t"
  "keeps_rx s (t\<lparr>ideal_length := n\<rparr>) = keeps_rx s t" "keeps_rx s (t\<lparr>connect_retry_cnt := n\<rparr>) = keeps_rx s t"
  "keeps_rx s (t\<lparr>last_grp_id := n\<rparr>) = keeps_rx s t" "keeps_rx s (t\<lparr>seq_of_last_changed_grp_id := q\<rparr>) = keeps_rx s t"
  "keeps_rx s (t\<lparr>recv_seq_recorder := k\<rparr>) = keeps_rx s t" "keeps_rx s (t\<lparr>diff_s_r_list := m\<rparr>) = keeps_rx s t"
  "keeps_rx s (t\<lparr>is_first_jitter_calculation := g\<rparr>) = keeps_rx s t" "keeps_rx s (t\<lparr>is_sum_printed := g\<rparr>) = keeps_rx s t"
  by (simp_all add: keeps_rx_def emit_calls_def)

lemma keeps_rx_updI:
  "keeps_rx s t \<Longrightarrow> a \<noteq> STREAM_NONE \<Longrightarrow> keeps_rx s (t\<lparr>state := a\<rparr>)"
  "keeps_rx s t \<Longrightarrow> bytes (summary (f (rx t))) = bytes (summary (rx t)) \<Longrightarrow> datagrams (summary (f (rx t))) = datagrams (summary (rx t))
     \<Longrightarrow> keeps_rx s (upd_receiver f t)"
  by (simp_all add: keeps_rx_def)

lemma keeps_rx_prints [simp]:
  "keeps_rx s (PrintLastInterval ck t) = keeps_rx s t" "keeps_rx s (PrintSendSummary t) = keeps_rx s t"
  "keeps_rx s (PrintReceiveSummary t) = keeps_rx s t" "keeps_rx s (PrintSendRecvSummary t) = keeps_rx s t"
  by (simp_all add: PrintLastInterval_def PrintSendSummary_def PrintReceiveSummary_def PrintSendRecvSummary_def)

lemma keeps_rx_FinishReport [simp]: "keeps_rx s (FinishReport ck s)"
  by (simp add: keeps_rx_def FinishReport_def Let_def GenSendSummary_def GenReceiveSummary_def PrintLastInterval_def)

lemma keeps_rx_FinishReportI: "keeps_rx s t \<Longrightarrow> keeps_rx s (FinishReport ck t)"
  by (rule keeps_rx_trans [OF _ keeps_rx_FinishReport])

lemma keeps_rx_Stop [simp]: "keeps_rx s (Stop ck s)"
  by (auto simp: Stop_def Let_def intro!: keeps_rx_updI keeps_rx_FinishReportI)

lemma keeps_rx_thread_step:
  assumes "thread_step L ck ok (thread s) s = Inr t"
  shows "keeps_rx s t"
proof (cases "thread s")
  case T_Block
  show ?thesis
  proof (cases "t = s\<lparr>thread := T_Loop\<rparr>")
    case False
    then obtain u where u: "prepare_block ck s = Inr u" "rbind (SendData BATS_SEND_FLAG_NONE (ideal_length u) ok u) (\<lambda>s.
        Inr (if ok then count_block L (ideal_length s) s else s\<lparr>thread := T_Retry (ideal_length s)\<rparr>)) = Inr t"
      using assms T_Block by (auto simp: rbind_eq_Inr split: if_splits)
    obtain b g where "u = s\<lparr>thread_grp_id := g, iperf_data := b\<rparr>" using prepare_block_cases [OF u(1)] .
    then show ?thesis using u(2) by (auto simp: rbind_eq_Inr SendData_def count_block_eq split: if_splits)
  qed simp
next
  case T_Fin
  then have "SendFIN ck ok s = Inr t" using assms by simp
  then show ?thesis by (cases rule: SendFIN_cases) (auto simp: Let_def)
qed (use assms in \<open>auto simp: rbind_eq_Inr SendData_def count_block_eq split: if_splits intro!: keeps_rx_updI\<close>)

lemma keeps_rx_StartConnect: "StartConnect s = Inr t \<Longrightarrow> keeps_rx u s \<Longrightarrow> keeps_rx u t"
  by (auto simp: StartConnect_def rbind_eq_Inr)

fun local_event :: "stream_event \<Rightarrow> bool" where
  "local_event (EvCallback ck ok obs cn ideal ev d len) \<longleftrightarrow> ev \<noteq> BATS_CONNECTION_DATA_RECEIVED"
| "local_event e \<longleftrightarrow> True"

lemma keeps_rx_step:
  assumes "stream_step L s e = Inr t" and "local_event e"
  shows "keeps_rx s t"
proof (cases e)
  case (EvCallback ck ok obs cn ideal ev d len)
  then show ?thesis using assms
    by (cases ev) (auto simp: ConnectionCallback_def retry_connect_def SwitchDataBlockLength_def rmap_eq_Inr rbind_eq_Inr split: if_splits
        dest!: keeps_rx_StartConnect intro: keeps_rx_StartConnect)
next
  case (EvStartSend ck)
  then show ?thesis using assms(1) by (auto simp: StartSend_def Let_def split: if_splits intro!: keeps_rx_updI)
qed (use assms keeps_rx_thread_step in \<open>auto simp: rmap_eq_Inr rbind_eq_Inr StartRecv_def SnapshotReport_def IsIntervalDataReceivedTimeout_def
      DeserializeReport_def Let_def split: if_splits intro!: keeps_rx_updI
      intro: keeps_rx_StartConnect [OF _ keeps_rx_refl]\<close>)

lemma keeps_rx_OnReceivedFIN: "OnReceivedFIN ck fs obs s = Inr t \<Longrightarrow> keeps_rx s t"
  by (elim OnReceivedFIN_cases) (auto intro!: keeps_rx_updI keeps_rx_FinishReportI)

lemma keeps_rx_record_interval:
  "keeps_rx s t \<Longrightarrow> keeps_rx s (reset_jitter t)" "keeps_rx s t \<Longrightarrow> keeps_rx s (record_interval ck ms i n t)"
  by (auto simp: record_interval_def reset_jitter_def Let_def simp del: upd_reports upd_receiver_fields intro!: keeps_rx_updI)

lemma keeps_rx_OnReceivedIntervalData: "OnReceivedIntervalData L ck d p s = Inr t \<Longrightarrow> keeps_rx s t"
  by (auto simp: OnReceivedIntervalData_def rbind_eq_Inr Let_def ResetSeqRecord_def split: if_splits intro!: keeps_rx_record_interval)

lemma keeps_rx_UpdateGroup: "UpdateGroup L ck d h s = Inr t \<Longrightarrow> keeps_rx s t"
proof -
  assume u: "UpdateGroup L ck d h s = Inr t"
  let ?s = "snd (HasNewGrpId L (th_grp_id h) (th_seq h) s)"
  have "keeps_rx s ?s" by (simp add: HasNewGrpId_def)
  moreover have "keeps_rx ?s t"
    using u keeps_rx_OnReceivedIntervalData by (auto simp: UpdateGroup_def Let_def split: if_splits)
  ultimately show ?thesis by (rule keeps_rx_trans)
qed

lemma keeps_rx_UpdateJitter: "UpdateJitter d s = Inr t \<Longrightarrow> keeps_rx s t"
  by (auto simp: UpdateJitter_def rbind_eq_Inr Let_def split: if_splits intro!: keeps_rx_updI)

text \<open>A received block.\<close>

lemma received_block:
  assumes "stream_step L s (EvCallback ck ok obs cn ideal BATS_CONNECTION_DATA_RECEIVED (Some d) (int (length d))) = Inr t" and "d \<noteq> []"
  shows "bytes (summary (rx t)) = bytes (summary (rx s)) + word_of_nat (length d)"
    and "state t = STREAM_NONE \<Longrightarrow> state s = STREAM_NONE \<and> datagrams (summary (rx t)) = datagrams (summary (rx s)) + 1"
    and "config t = config s"
    and "read_test_header d = Inr h \<Longrightarrow> stream_identifier t = (if stream_identifier s = 0 then th_stream_identifier h else stream_identifier s)"
    and "\<exists>h. read_test_header d = Inr h"
proof -
  obtain r where "UpdateReceived L ck ok obs (Some d) (int (length d)) s = Inr (r, t)"
    using assms(1) by (auto simp: ConnectionCallback_def rmap_eq_Inr)
  then have "config t = config s \<and> bytes (summary (rx t)) = bytes (summary (rx s)) + word_of_nat (length d)
    \<and> (state t = STREAM_NONE \<longrightarrow> state s = STREAM_NONE \<and> datagrams (summary (rx t)) = datagrams (summary (rx s)) + 1)
    \<and> (\<exists>h. read_test_header d = Inr h
        \<and> stream_identifier t = (if stream_identifier s = 0 then th_stream_identifier h else stream_identifier s))"
  proof (cases rule: UpdateReceived_cases)
    case (block x h s1 s2 s3)
    have "keeps_rx s1 s2" using block(6) by (auto split: if_splits dest: keeps_rx_OnReceivedFIN)
    with keeps_rx_UpdateGroup [OF block(7)] keeps_rx_UpdateJitter [OF block(8)] have "keeps_rx s1 t"
      by (blast intro: keeps_rx_trans)
    then show ?thesis using block(1,4,5,9) by (auto simp: keeps_rx_def count_received_def Let_def)
  qed (use assms(2) in simp)
  then show "bytes (summary (rx t)) = bytes (summary (rx s)) + word_of_nat (length d)"
    and "state t = STREAM_NONE \<Longrightarrow> state s = STREAM_NONE \<and> datagrams (summary (rx t)) = datagrams (summary (rx s)) + 1"
    and "config t = config s"
    and "read_test_header d = Inr h \<Longrightarrow> stream_identifier t = (if stream_identifier s = 0 then th_stream_identifier h else stream_identifier s)"
    and "\<exists>h. read_test_header d = Inr h"
    by auto
qed

end
