(* ===== verification/Stream_Numbers.thy ===== *)
theory Stream_Numbers
  imports Stream_Accounts
begin

text \<open>
  What the header of an accepted block says: the identifier of its stream, and, for the very first block, the number 0, unless the
  thread has given up a block before. Each operation of \<open>IperfStream\<close> keeps this.
\<close>

section \<open>What one operation accepts\<close>

text \<open>A block that is tried again carries the current number, and an operation accepts at most the block in the buffer.\<close>

definition retry_ok :: "('r, 'f) IperfStream \<Rightarrow> bool" where
  "retry_ok s \<longleftrightarrow> (retrying (thread s) \<longrightarrow> given_up s \<or> load64 (iperf_data s) 16 = Inr (datagrams (summary (tx s))))"

definition accepts_at_most_one :: "('r, 'f) IperfStream \<Rightarrow> ('r, 'f) IperfStream \<Rightarrow> bool" where
  "accepts_at_most_one s t \<longleftrightarrow> load64 (iperf_data t) 8 = load64 (iperf_data s) 8 \<and> (given_up s \<longrightarrow> given_up t) \<and> retry_ok t
     \<and> (blocks_accepted (out t) = blocks_accepted (out s)
        \<or> (\<exists>k. blocks_accepted (out t) = blocks_accepted (out s) @ [take k (iperf_data t)])
          \<and> (given_up t \<or> load64 (iperf_data t) 16 = Inr (datagrams (summary (tx s)))))"

lemma keeps_count_given_up: "keeps_count s t \<Longrightarrow> given_up s \<Longrightarrow> given_up t"
  by (auto simp: keeps_count_def given_up_def)

lemma keeps_count_retry_ok: "keeps_count s t \<Longrightarrow> retry_ok s \<Longrightarrow> retry_ok t"
  using keeps_count_given_up [of s t] by (auto simp: retry_ok_def keeps_count_def)

lemma keeps_count_accepts: "keeps_count s t \<Longrightarrow> retry_ok s \<Longrightarrow> accepts_at_most_one s t"
  using keeps_count_given_up [of s t] keeps_count_retry_ok [of s t] by (auto simp: accepts_at_most_one_def keeps_count_def)

lemma accepts_keeps_count:
  assumes "keeps_count s s1" and "accepts_at_most_one s1 s2" and "keeps_count s2 t"
  shows "accepts_at_most_one s t"
proof -
  have "iperf_data t = iperf_data s2" "iperf_data s1 = iperf_data s" "datagrams (summary (tx s1)) = datagrams (summary (tx s))"
      "blocks_accepted (out s1) = blocks_accepted (out s)" "blocks_accepted (out t) = blocks_accepted (out s2)"
    using assms(1,3) by (simp_all add: keeps_count_def)
  then show ?thesis
    using assms(2) keeps_count_given_up [OF assms(1)] keeps_count_given_up [OF assms(3)] keeps_count_retry_ok [OF assms(3)]
    by (auto simp: accepts_at_most_one_def)
qed

lemma accepts_quiet:
  assumes "iperf_data t = iperf_data s" and "blocks_accepted (out t) = blocks_accepted (out s)" and "given_up s \<Longrightarrow> given_up t"
    and "\<not> retrying (thread t)"
  shows "accepts_at_most_one s t"
  using assms by (simp add: accepts_at_most_one_def retry_ok_def)

lemma accepts_FIN:
  assumes "OnReceivedFIN ck fs obs s = Inr t"
  shows "accepts_at_most_one s t"
  using assms
proof (cases rule: OnReceivedFIN_cases)
  case (1 b results)
  let ?u = "(if last results then upd_sender (count_sent (ideal_length s)) else id)
        (emit_calls (take (nat (ideal_length s)) b) BATS_SEND_FLAG_FIN results (s\<lparr>iperf_data := b\<rparr>))"
  have k: "keeps_count ?u t" unfolding 1(5) by auto
  have u: "iperf_data ?u = b" "thread ?u = thread s"
      "blocks_accepted (out ?u) = blocks_accepted (out s) @ (if last results then [take (nat (ideal_length s)) b] else [])"
    using 1(2) by (simp_all add: emit_calls_def)
  have t: "iperf_data t = b" "thread t = thread s" "state t = STREAM_DONE" "blocks_accepted (out t) = blocks_accepted (out ?u)"
    using k u(1,2) by (simp_all add: keeps_count_def) (simp add: 1(5))
  have "thread s \<noteq> T_None \<Longrightarrow> given_up t" using t(2,3) by (simp add: given_up_def)
  moreover have "given_up s \<Longrightarrow> thread s \<noteq> T_None" "retrying (thread s) \<Longrightarrow> thread s \<noteq> T_None" by (auto simp: given_up_def)
  ultimately show ?thesis using 1(6) t u(3) by (auto simp: accepts_at_most_one_def retry_ok_def restamped_def)
qed

text \<open>The thread: a block is made and sent, or the block in the buffer is sent again.\<close>

lemma accepts_send:
  assumes "restamped (datagrams (summary (tx s))) (iperf_data s) b" and "iperf_data t = b" and "given_up s \<Longrightarrow> given_up t"
    and "blocks_accepted (out t) = blocks_accepted (out s) @ (if ok then [take k b] else [])"
    and "\<not> ok \<Longrightarrow> datagrams (summary (tx t)) = datagrams (summary (tx s))" and "ok \<Longrightarrow> \<not> retrying (thread t)"
  shows "accepts_at_most_one s t"
  using assms by (cases ok) (auto simp: accepts_at_most_one_def retry_ok_def restamped_def)

lemma accepts_again:
  assumes "retry_ok s" and "retrying (thread s)" and "iperf_data t = iperf_data s" and "given_up s \<Longrightarrow> given_up t"
    and "blocks_accepted (out t) = blocks_accepted (out s) @ (if ok then [take k (iperf_data s)] else [])"
    and "\<not> ok \<Longrightarrow> datagrams (summary (tx t)) = datagrams (summary (tx s))" and "ok \<Longrightarrow> \<not> retrying (thread t)"
  shows "accepts_at_most_one s t"
  using assms by (cases ok) (auto simp: accepts_at_most_one_def retry_ok_def)

lemma accepts_thread_step:
  assumes "thread_step L ck ok (thread s) s = Inr t" and "retry_ok s"
  shows "accepts_at_most_one s t"
proof (cases "thread s")
  case T_Entered
  then consider "t = s\<lparr>thread := T_Loop\<rparr>" | "t = (Stop ck s)\<lparr>thread := T_Exited\<rparr>" using assms(1) by (auto split: if_splits)
  then show ?thesis
  proof cases
    case 2
    have k: "keeps_count s (Stop ck s)" by simp
    then show ?thesis using keeps_count_given_up [OF k]
      by (intro accepts_quiet) (simp_all add: 2 keeps_count_def)
  qed (auto intro!: accepts_quiet)
next
  case T_Loop
  then show ?thesis using assms(1) by (auto split: if_splits intro!: accepts_quiet simp: given_up_def)
next
  case T_Block
  show ?thesis
  proof (cases "t = s\<lparr>thread := T_Loop\<rparr>")
    case False
    then obtain u where u: "prepare_block ck s = Inr u" "rbind (SendData BATS_SEND_FLAG_NONE (ideal_length u) ok u) (\<lambda>s.
        Inr (if ok then count_block L (ideal_length s) s else s\<lparr>thread := T_Retry (ideal_length s)\<rparr>)) = Inr t"
      using assms(1) T_Block by (auto simp: rbind_eq_Inr split: if_splits)
    obtain b g where b: "u = s\<lparr>thread_grp_id := g, iperf_data := b\<rparr>" "restamped (datagrams (summary (tx s))) (iperf_data s) b"
      using prepare_block_cases [OF u(1)] .
    show ?thesis
      using u(2) b by (intro accepts_send [where ok = ok and k = "nat (ideal_length s)"])
        (auto simp: rbind_eq_Inr SendData_def block_to_send_def count_block_eq given_up_def split: if_splits)
  qed (auto intro!: accepts_quiet)
next
  case (T_Retry n)
  let ?v = "\<lambda>ok. emit (Sent (take (nat n) (iperf_data s)) BATS_SEND_FLAG_NONE ok) s"
  consider "t = s" | "t = count_block L n s" | "t = (if ok then count_block L n (?v ok) else ?v ok)"
    using assms(1) T_Retry by (fastforce simp: rbind_eq_Inr SendData_def block_to_send_def split: if_splits)
  then show ?thesis
  proof cases
    case 1
    then show ?thesis using assms(2) by (simp add: keeps_count_accepts)
  next
    case 2
    then show ?thesis by (intro accepts_quiet) (auto simp: count_block_eq given_up_def)
  next
    case 3
    then show ?thesis using assms(2) T_Retry
      by (intro accepts_again [where ok = ok and k = "nat n"]) (auto simp: count_block_eq given_up_def)
  qed
next
  case T_Fin
  then have "SendFIN ck ok s = Inr t" using assms(1) by simp
  then show ?thesis
  proof (cases rule: SendFIN_cases)
    case (reliable b)
    then show ?thesis using T_Fin
      by (intro accepts_send [where ok = ok and k = "nat (ideal_length s)"]) (auto simp: Let_def given_up_def)
  next
    case unreliable
    then show ?thesis by (intro accepts_quiet) (auto simp: PrintSendSummary_def given_up_def)
  qed
next
  case T_FinRetry
  let ?v = "\<lambda>ok. emit (Sent (take (nat (ideal_length s)) (iperf_data s)) BATS_SEND_FLAG_FIN ok) s"
  consider "t = s" | "t = s\<lparr>thread := T_Exited\<rparr>"
    | "t = (if ok then (upd_sender (count_sent (ideal_length s)) (?v ok))\<lparr>thread := T_Exited\<rparr> else ?v ok)"
    using assms(1) T_FinRetry by (fastforce simp: rbind_eq_Inr SendData_def block_to_send_def split: if_splits)
  then show ?thesis
  proof cases
    case 1
    then show ?thesis using assms(2) by (simp add: keeps_count_accepts)
  next
    case 2
    then show ?thesis by (intro accepts_quiet) (auto simp: given_up_def)
  next
    case 3
    then show ?thesis using assms(2) T_FinRetry
      by (intro accepts_again [where ok = ok and k = "nat (ideal_length s)"]) (auto simp: given_up_def)
  qed
qed (use assms in \<open>auto split: if_splits intro!: accepts_quiet simp: keeps_count_accepts given_up_def\<close>)

lemma accepts_UpdateReceived:
  assumes "retry_ok s" and "UpdateReceived L ck fs obs d len s = Inr (r, t)"
  shows "accepts_at_most_one s t"
  using assms(2)
proof (cases rule: UpdateReceived_cases)
  case (block x h s1 s2 s3)
  have "accepts_at_most_one s1 s2"
    using block(6) accepts_FIN keeps_count_retry_ok [OF block(3) assms(1)] by (auto simp: keeps_count_accepts split: if_splits)
  moreover have "keeps_count s2 t"
    using keeps_count_UpdateGroup [OF block(7)] keeps_count_UpdateJitter [OF block(8)] by (rule keeps_count_trans)
  ultimately show ?thesis using accepts_keeps_count [OF block(3)] by blast
qed (use assms(1) in \<open>simp add: keeps_count_accepts\<close>)

lemma accepts_Switch:
  assumes "SwitchDataBlockLength n s = Inr t" and "retry_ok s"
  shows "accepts_at_most_one s t"
  using assms by (auto simp: SwitchDataBlockLength_def rbind_eq_Inr accepts_at_most_one_def retry_ok_def given_up_def)

lemma accepts_established:
  assumes "SwitchDataBlockLength n (s\<lparr>conn_state := c, data_conn := Some cn\<rparr>) = Inr t" and "retry_ok s"
  shows "accepts_at_most_one s t"
  using assms by (auto simp: SwitchDataBlockLength_def rbind_eq_Inr accepts_at_most_one_def retry_ok_def given_up_def)

lemma accepts_callback:
  assumes "retry_ok s" and "ConnectionCallback L ck fs obs cn ideal ev d len s = Inr (r, t)"
  shows "accepts_at_most_one s t"
proof (cases "keeps_count s t")
  case True
  then show ?thesis using assms(1) by (rule keeps_count_accepts)
next
  case False
  then show ?thesis using assms
    by (cases ev) (auto simp: ConnectionCallback_def rmap_eq_Inr split: if_splits
        dest: accepts_established accepts_Switch accepts_UpdateReceived keeps_count_retry_connect)
qed

lemma accepts_step:
  assumes "retry_ok s" and "stream_step L s e = Inr t" and "own_counts e"
  shows "accepts_at_most_one s t"
proof (cases "keeps_count s t")
  case True
  then show ?thesis using assms(1) by (rule keeps_count_accepts)
next
  case False
  then show ?thesis
  proof (cases e)
    case (EvStartSend ck)
    then show ?thesis using assms(2)
      by (intro accepts_quiet) (auto simp: StartSend_def Let_def given_up_def split: if_splits)
  qed (use False assms in \<open>auto simp: rmap_eq_Inr StartRecv_def split: if_splits
      dest: accepts_thread_step accepts_callback keeps_count_StartConnect keeps_count_polls\<close>)
qed

section \<open>The numbering of a stream\<close>

definition numbered :: "u64 \<Rightarrow> ('r, 'f) IperfStream \<Rightarrow> bool" where
  "numbered i s \<longleftrightarrow> load64 (iperf_data s) 8 = Inr i \<and> retry_ok s
     \<and> (\<forall>d \<in> set (blocks_accepted (out s)). \<forall>h. read_test_header d = Inr h \<longrightarrow> th_stream_identifier h = i)
     \<and> (\<forall>d ds h. blocks_accepted (out s) = d # ds \<longrightarrow> read_test_header d = Inr h \<longrightarrow> th_seq h = 0 \<or> given_up s)"

lemma header_of_block:
  assumes "read_test_header (take k b) = Inr h"
  shows "load64 b 8 = Inr (th_stream_identifier h) \<and> load64 b 16 = Inr (th_seq h)"
proof -
  have "33 \<le> length (take k b)" using assms read_test_header_defined by blast
  then have "load64 (take k b) 8 = load64 b 8" "load64 (take k b) 16 = load64 b 16"
    by (cases "k \<le> length b"; simp add: buf_simps)+
  then show ?thesis using assms by (auto simp: read_test_header_def rbind_eq_Inr)
qed

lemma numbered_step:
  assumes "numbered i s" and "count_inv s" and "stream_step L s e = Inr t" and "own_counts e"
  shows "numbered i t"
proof -
  have "retry_ok s" using assms(1) by (simp add: numbered_def)
  then have acc: "accepts_at_most_one s t" using assms(3,4) by (rule accepts_step)
  show ?thesis
  proof (cases "blocks_accepted (out t) = blocks_accepted (out s)")
    case True
    then show ?thesis using assms(1) acc by (auto simp: numbered_def accepts_at_most_one_def)
  next
    case False
    then obtain k where k: "blocks_accepted (out t) = blocks_accepted (out s) @ [take k (iperf_data t)]"
        "given_up t \<or> load64 (iperf_data t) 16 = Inr (datagrams (summary (tx s)))"
      using acc by (auto simp: accepts_at_most_one_def)
    have "given_up t \<or> datagrams (summary (tx s)) = 0" if "blocks_accepted (out s) = []"
      using assms(2) acc that by (auto simp: count_inv_def counted_def accepts_at_most_one_def)
    then show ?thesis using assms(1) acc k
      by (cases "blocks_accepted (out s)") (auto simp: numbered_def accepts_at_most_one_def dest!: header_of_block)
  qed
qed

lemma numbered_new:
  assumes "new_stream r0 sh c sid now = Inr s"
  shows "numbered (now + word_of_int sid) s"
proof -
  obtain b where b: "init_iperf_data (data_buffer_size c) (now + word_of_int sid) = Inr b" "iperf_data s = b"
    using assms by (auto simp: new_stream_def rbind_eq_Inr Let_def)
  then have "load64 (iperf_data s) 8 = Inr (now + word_of_int sid)"
    by (auto simp: init_iperf_data_def rbind_eq_Inr store64_def load64_def poke_eq_Inr buf_simps f64.enc_length f64.dec_enc)
  then show ?thesis using new_stream_fresh [OF assms] by (simp add: numbered_def retry_ok_def)
qed

end
