(* ===== verification/Stream_Session.thy ===== *)
theory Stream_Session
  imports Stream_Numbers
begin

text \<open>
  Two streams of a test and the connection between them. A session is the sending stream, the receiving stream and the
  blocks on the way in both directions; its steps are any operation of either end, except that the sender does not
  read the report of a peer, and what the network does: it delivers, in order and without loss for a reliable protocol, in any
  order and with losses otherwise, and never twice. What both ends count adds up in every reachable session.
\<close>

section \<open>Sessions\<close>

text \<open>Blocks that were accepted are never taken back.\<close>

definition grows :: "('r, 'f) IperfStream \<Rightarrow> ('r, 'f) IperfStream \<Rightarrow> bool" where
  "grows s t \<longleftrightarrow> (\<exists>ds. blocks_accepted (out t) = blocks_accepted (out s) @ ds)"

lemma grows_trans: "grows s t \<Longrightarrow> grows t u \<Longrightarrow> grows s u"
  by (auto simp: grows_def)

lemma keeps_count_grows: "keeps_count s t \<Longrightarrow> grows s t"
  by (auto simp: keeps_count_def grows_def)

lemma grows_OnReceivedFIN:
  assumes "OnReceivedFIN ck fs obs s = Inr t"
  shows "grows s t"
  using assms
proof (cases rule: OnReceivedFIN_cases)
  case (1 b results)
  let ?u = "(if last results then upd_sender (count_sent (ideal_length s)) else id)
        (emit_calls (take (nat (ideal_length s)) b) BATS_SEND_FLAG_FIN results (s\<lparr>iperf_data := b\<rparr>))"
  have "grows s ?u" by (simp add: grows_def)
  moreover have "keeps_count ?u t" unfolding 1(5) by auto
  ultimately show ?thesis by (blast intro: grows_trans keeps_count_grows)
qed

lemma grows_thread_step:
  assumes "thread_step L ck ok (thread s) s = Inr t"
  shows "grows s t"
proof (cases "thread s")
  case T_Entered
  then show ?thesis using assms keeps_count_grows [OF keeps_count_Stop, of s ck] by (auto simp: grows_def split: if_splits)
next
  case T_Block
  show ?thesis
  proof (cases "t = s\<lparr>thread := T_Loop\<rparr>")
    case False
    then obtain u where u: "prepare_block ck s = Inr u" "rbind (SendData BATS_SEND_FLAG_NONE (ideal_length u) ok u) (\<lambda>s.
        Inr (if ok then count_block L (ideal_length s) s else s\<lparr>thread := T_Retry (ideal_length s)\<rparr>)) = Inr t"
      using assms T_Block by (auto simp: rbind_eq_Inr split: if_splits)
    obtain b g where "u = s\<lparr>thread_grp_id := g, iperf_data := b\<rparr>" using prepare_block_cases [OF u(1)] .
    then show ?thesis using u(2) by (auto simp: rbind_eq_Inr SendData_def count_block_eq grows_def split: if_splits)
  qed (simp add: grows_def)
next
  case T_Fin
  then have "SendFIN ck ok s = Inr t" using assms by simp
  then show ?thesis by (cases rule: SendFIN_cases) (auto simp: Let_def grows_def PrintSendSummary_def)
qed (use assms in \<open>auto simp: rbind_eq_Inr SendData_def count_block_eq grows_def split: if_splits\<close>)

lemma grows_callback:
  assumes "ConnectionCallback L ck fs obs cn ideal ev d len s = Inr (r, t)"
  shows "grows s t"
proof (cases "keeps_count s t")
  case False
  have "grows s t" if u: "UpdateReceived L ck fs obs d len s = Inr (r, t)"
    using u
  proof (cases rule: UpdateReceived_cases)
    case (block x h s1 s2 s3)
    have "grows s1 s2" using block(6) grows_OnReceivedFIN by (auto simp: grows_def split: if_splits)
    then show ?thesis using keeps_count_grows [OF block(3)] keeps_count_grows [OF keeps_count_UpdateGroup [OF block(7)]]
        keeps_count_grows [OF keeps_count_UpdateJitter [OF block(8)]] by (blast intro: grows_trans)
  qed (simp add: grows_def)
  then show ?thesis using False assms
    by (cases ev) (auto simp: ConnectionCallback_def rmap_eq_Inr SwitchDataBlockLength_def rbind_eq_Inr grows_def split: if_splits
        dest: keeps_count_retry_connect)
qed (rule keeps_count_grows)

lemma grows_step: "stream_step L s e = Inr t \<Longrightarrow> grows s t"
proof (cases "keeps_count s t")
  case False
  assume "stream_step L s e = Inr t"
  then show ?thesis using False
    by (cases e) (auto simp: rmap_eq_Inr rbind_eq_Inr StartRecv_def StartSend_def DeserializeReport_def Let_def grows_def split: if_splits
        dest: keeps_count_StartConnect keeps_count_polls grows_thread_step [unfolded grows_def] grows_callback [unfolded grows_def])
qed (rule keeps_count_grows)

text \<open>
  A session: the protocol, the ends, what is on the way, and what the network has lost on the way to the receiver. The blocks that an
  operation hands to the connection are those accepted meanwhile.
\<close>

record ('r, 'f, 'q, 'g) session =
  mode :: int
  snd_end :: "('r, 'f) IperfStream"
  rcv_end :: "('q, 'g) IperfStream"
  fwd :: "octet list list"
  bwd :: "octet list list"
  lost :: "octet list list"

definition new_blocks :: "('r, 'f) IperfStream \<Rightarrow> ('r, 'f) IperfStream \<Rightarrow> octet list list" where
  "new_blocks s t = drop (length (blocks_accepted (out s))) (blocks_accepted (out t))"

lemma new_blocks: "grows s t \<Longrightarrow> blocks_accepted (out t) = blocks_accepted (out s) @ new_blocks s t"
  by (auto simp: grows_def new_blocks_def)

definition new_session :: "('r, 'f) IperfStream \<Rightarrow> ('q, 'g) IperfStream \<Rightarrow> ('r, 'f, 'q, 'g) session" where
  "new_session s r = \<lparr>mode = protocol (config s), snd_end = s, rcv_end = r, fwd = [], bwd = [], lost = []\<rparr>"

definition in_order :: "('r, 'f, 'q, 'g) session \<Rightarrow> bool" where
  "in_order x \<longleftrightarrow> IsReliableProtocol (mode x)"

abbreviation arrival :: "clock \<Rightarrow> bool \<Rightarrow> send_obs list \<Rightarrow> conn \<Rightarrow> int \<Rightarrow> octet list \<Rightarrow> stream_event" where
  "arrival ck ok obs cn ideal d \<equiv> EvCallback ck ok obs cn ideal BATS_CONNECTION_DATA_RECEIVED (Some d) (int (length d))"

inductive session_step ::
  "('r, 'f) stream_lib \<Rightarrow> ('q, 'g) stream_lib \<Rightarrow> ('r, 'f, 'q, 'g) session \<Rightarrow> ('r, 'f, 'q, 'g) session \<Rightarrow> bool"
  for L :: "('r, 'f) stream_lib" and M :: "('q, 'g) stream_lib" where
  sender_acts: "local_event e \<Longrightarrow> own_counts e \<Longrightarrow> stream_step L (snd_end x) e = Inr s
    \<Longrightarrow> session_step L M x (x\<lparr>snd_end := s, fwd := fwd x @ new_blocks (snd_end x) s\<rparr>)"
| receiver_acts: "local_event e \<Longrightarrow> stream_step M (rcv_end x) e = Inr r
    \<Longrightarrow> session_step L M x (x\<lparr>rcv_end := r, bwd := bwd x @ new_blocks (rcv_end x) r\<rparr>)"
| block_arrives: "fwd x = ds @ d # ds' \<Longrightarrow> (in_order x \<longrightarrow> ds = []) \<Longrightarrow> stream_step M (rcv_end x) (arrival ck ok obs cn ideal d) = Inr r
    \<Longrightarrow> session_step L M x (x\<lparr>rcv_end := r, fwd := ds @ ds', bwd := bwd x @ new_blocks (rcv_end x) r\<rparr>)"
| answer_arrives: "bwd x = ds @ d # ds' \<Longrightarrow> (in_order x \<longrightarrow> ds = []) \<Longrightarrow> stream_step L (snd_end x) (arrival ck ok obs cn ideal d) = Inr s
    \<Longrightarrow> session_step L M x (x\<lparr>snd_end := s, bwd := ds @ ds', fwd := fwd x @ new_blocks (snd_end x) s\<rparr>)"
| block_lost: "\<not> in_order x \<Longrightarrow> fwd x = ds @ d # ds' \<Longrightarrow> session_step L M x (x\<lparr>fwd := ds @ ds', lost := d # lost x\<rparr>)"
| answer_lost: "\<not> in_order x \<Longrightarrow> bwd x = ds @ d # ds' \<Longrightarrow> session_step L M x (x\<lparr>bwd := ds @ ds'\<rparr>)"

inductive_cases session_stepE: "session_step L M x y"

text \<open>The books of a session balance.\<close>

definition session_inv :: "('r, 'f, 'q, 'g) session \<Rightarrow> bool" where
  "session_inv x \<longleftrightarrow> stream_inv (snd_end x) \<and> stream_inv (rcv_end x) \<and> count_inv (snd_end x)
     \<and> (\<forall>d \<in> set (fwd x) \<union> set (lost x). d \<in> set (blocks_accepted (out (snd_end x))))
     \<and> volume (blocks_accepted (out (snd_end x))) = bytes (summary (rx (rcv_end x))) + volume (fwd x) + volume (lost x)
     \<and> (state (rcv_end x) = STREAM_NONE \<longrightarrow> word_of_nat (length (blocks_accepted (out (snd_end x))))
          = datagrams (summary (rx (rcv_end x))) + (word_of_nat (length (fwd x) + length (lost x)) :: u64))
     \<and> (in_order x \<longrightarrow> lost x = [])"

lemma session_inv_sender:
  assumes "session_inv x" and "stream_step L (snd_end x) e = Inr s" and "own_counts e" and "\<And>d. d \<in> set ds \<Longrightarrow> d \<in> set (bwd x)"
  shows "session_inv (x\<lparr>snd_end := s, bwd := ds, fwd := fwd x @ new_blocks (snd_end x) s\<rparr>)"
proof -
  have g: "blocks_accepted (out s) = blocks_accepted (out (snd_end x)) @ new_blocks (snd_end x) s"
    using assms(2) by (intro new_blocks grows_step)
  moreover have "stream_inv s" "count_inv s"
    using assms(1-3) stream_inv_step count_inv_step by (auto simp: session_inv_def)
  ultimately show ?thesis using assms(1) by (auto simp: session_inv_def in_order_def g algebra_simps)
qed

lemma session_inv_receiver:
  assumes "session_inv x" and "stream_step M (rcv_end x) e = Inr r" and "local_event e"
  shows "session_inv (x\<lparr>rcv_end := r, bwd := bs\<rparr>)"
proof -
  have "keeps_rx (rcv_end x) r" using assms(2,3) by (rule keeps_rx_step)
  moreover have "stream_inv r" using assms(1,2) stream_inv_step by (auto simp: session_inv_def)
  ultimately show ?thesis using assms(1) by (auto simp: session_inv_def in_order_def keeps_rx_def)
qed

lemma session_inv_arrival:
  assumes inv: "session_inv x" and q: "fwd x = ds @ d # ds'" and st: "stream_step M (rcv_end x) (arrival ck ok obs cn ideal d) = Inr r"
  shows "session_inv (x\<lparr>rcv_end := r, fwd := ds @ ds', bwd := bs\<rparr>)"
proof -
  have "d \<noteq> []" using inv q by (auto simp: session_inv_def count_inv_def)
  note rb = received_block [OF st this]
  have "stream_inv (rcv_end x)" using inv by (simp add: session_inv_def)
  then have "stream_inv r" using st by (rule stream_inv_step)
  then show ?thesis using inv q rb by (auto simp: session_inv_def in_order_def algebra_simps)
qed

lemma session_inv_step: "session_step L M x y \<Longrightarrow> session_inv x \<Longrightarrow> session_inv y"
proof (induction rule: session_step.induct)
  case (sender_acts e x s)
  then show ?case using session_inv_sender [of x L e s "bwd x"] by simp
next
  case (receiver_acts e x r)
  then show ?case using session_inv_receiver by blast
next
  case (block_arrives x ds d ds' ck ok obs cn ideal r)
  then show ?case using session_inv_arrival by blast
next
  case (answer_arrives x ds d ds' ck ok obs cn ideal s)
  then show ?case using session_inv_sender [of x L "arrival ck ok obs cn ideal d" s "ds @ ds'"] by auto
next
  case (block_lost x ds d ds')
  then show ?case by (auto simp: session_inv_def in_order_def algebra_simps)
next
  case (answer_lost x ds d ds')
  then show ?case by (auto simp: session_inv_def in_order_def)
qed

lemma session_inv_reach: "(session_step L M)\<^sup>*\<^sup>* x y \<Longrightarrow> session_inv x \<Longrightarrow> session_inv y"
  by (induction rule: rtranclp_induct) (auto intro: session_inv_step)

lemma accept_stream_counts:
  assumes "accept_stream q0 sh c sid cn ideal = Inr r"
  shows "bytes (summary (rx r)) = 0 \<and> datagrams (summary (rx r)) = 0 \<and> state r = STREAM_NONE"
  using assms
  by (auto simp: accept_stream_def SwitchDataBlockLength_def rbind_eq_Inr Let_def blank_stream_def TestReport_init_def TestInterval_init_def)

lemma session_inv_new:
  assumes "new_stream r0 sh c sid now = Inr s" and "accept_stream q0 sh' c' sid' cn ideal = Inr r"
  shows "session_inv (new_session s r)"
proof -
  have "bytes (summary (tx s)) = 0" "data_conn s = None" "ideal_length s = 0"
    using assms(1) by (auto simp: new_stream_def rbind_eq_Inr Let_def blank_stream_def TestReport_init_def TestInterval_init_def)
  then have "count_inv s" using new_stream_fresh [OF assms(1)] by (simp add: count_inv_def lengths_ok_def counted_def)
  moreover have "bytes (summary (rx r)) = 0" "datagrams (summary (rx r)) = 0"
    using accept_stream_counts [OF assms(2)] by simp_all
  ultimately show ?thesis using stream_inv_new [OF assms(1)] stream_inv_accept [OF assms(2)] new_stream_fresh [OF assms(1)]
    by (simp add: session_inv_def new_session_def)
qed

lemma blocks_accepted_sent: "d \<in> set (blocks_accepted xs) \<Longrightarrow> \<exists>f. Sent d f True \<in> set xs"
  by (induction xs rule: blocks_accepted.induct) (auto split: if_splits)

text \<open>
  The receiver has no identifier until the first block arrives, and all blocks carry the identifier of the sender: as long as it has
  none, everything that was accepted is still on the way.
\<close>

definition session_numbered :: "u64 \<Rightarrow> ('r, 'f, 'q, 'g) session \<Rightarrow> bool" where
  "session_numbered i x \<longleftrightarrow> numbered i (snd_end x)
     \<and> (in_order x \<and> stream_identifier (rcv_end x) = 0 \<longrightarrow> fwd x = blocks_accepted (out (snd_end x)))"

lemma session_numbered_sender:
  assumes "session_numbered i x" and "session_inv x" and "stream_step L (snd_end x) e = Inr s" and "own_counts e"
  shows "session_numbered i (x\<lparr>snd_end := s, bwd := ds, fwd := fwd x @ new_blocks (snd_end x) s\<rparr>)"
proof -
  have "blocks_accepted (out s) = blocks_accepted (out (snd_end x)) @ new_blocks (snd_end x) s"
    using assms(3) by (intro new_blocks grows_step)
  moreover have "numbered i (snd_end x)" "count_inv (snd_end x)" using assms(1,2) by (simp_all add: session_numbered_def session_inv_def)
  then have "numbered i s" using assms(3,4) by (rule numbered_step)
  ultimately show ?thesis using assms(1) by (simp add: session_numbered_def in_order_def)
qed

lemma session_numbered_arrival:
  assumes "session_numbered i x" and "session_inv x" and "i \<noteq> 0" and "fwd x = ds @ d # ds'"
    and "stream_step M (rcv_end x) (arrival ck ok obs cn ideal d) = Inr r"
  shows "session_numbered i (x\<lparr>rcv_end := r, fwd := ds @ ds', bwd := bs\<rparr>)"
proof -
  have d: "d \<in> set (blocks_accepted (out (snd_end x)))" "d \<noteq> []" using assms(2,4) by (auto simp: session_inv_def count_inv_def)
  obtain h where h: "read_test_header d = Inr h" using received_block(5) [OF assms(5) d(2)] by blast
  then have "th_stream_identifier h = i" using assms(1) d(1) by (auto simp: session_numbered_def numbered_def)
  then have "stream_identifier r \<noteq> 0" using received_block(4) [OF assms(5) d(2) h] assms(3) by auto
  then show ?thesis using assms(1) by (simp add: session_numbered_def)
qed

lemma session_numbered_step:
  assumes "session_step L M x y" and "session_inv x" and "session_numbered i x" and "i \<noteq> 0"
  shows "session_numbered i y"
  using assms(1)
proof (cases rule: session_step.cases)
  case (sender_acts e s)
  then show ?thesis using session_numbered_sender [OF assms(3,2), of L e s "bwd x"] by simp
next
  case (receiver_acts e r)
  then show ?thesis using assms(3) keeps_rx_step [of M "rcv_end x" e r] by (simp add: session_numbered_def in_order_def keeps_rx_def)
next
  case (block_arrives ds d ds' ck ok obs cn ideal r)
  then show ?thesis using session_numbered_arrival [OF assms(3,2,4)] by blast
next
  case (answer_arrives ds d ds' ck ok obs cn ideal s)
  then show ?thesis using session_numbered_sender [OF assms(3,2), of L "arrival ck ok obs cn ideal d" s "ds @ ds'"] by simp
qed (use assms(3) in \<open>auto simp: session_numbered_def in_order_def\<close>)

lemma session_numbered_reach:
  "(session_step L M)\<^sup>*\<^sup>* x y \<Longrightarrow> session_inv x \<Longrightarrow> session_numbered i x \<Longrightarrow> i \<noteq> 0 \<Longrightarrow> session_numbered i y"
  by (induction rule: rtranclp_induct) (auto intro: session_numbered_step session_inv_reach)

lemma session_numbered_new:
  assumes "new_stream r0 sh c sid now = Inr s"
  shows "session_numbered (now + word_of_int sid) (new_session s r)"
  using numbered_new [OF assms] new_stream_fresh [OF assms] by (simp add: session_numbered_def new_session_def)

lemma sent_blocks_accepted: "Sent d f True \<in> set xs \<Longrightarrow> d \<in> set (blocks_accepted xs)"
  by (induction xs rule: blocks_accepted.induct) auto

lemma session_mode: "(session_step L M)\<^sup>*\<^sup>* x y \<Longrightarrow> mode y = mode x"
  by (induction rule: rtranclp_induct) (auto elim: session_stepE)

lemma session_config:
  "(session_step L M)\<^sup>*\<^sup>* x y \<Longrightarrow> session_inv x \<Longrightarrow> config (rcv_end y) = config (rcv_end x)"
proof (induction rule: rtranclp_induct)
  case (step y z)
  have inv: "session_inv y" using step.hyps(1) step.prems by (rule session_inv_reach)
  have "config (rcv_end z) = config (rcv_end y)"
    using step.hyps(2)
  proof (cases rule: session_step.cases)
    case (receiver_acts e r)
    then show ?thesis using keeps_rx_step by (fastforce simp: keeps_rx_def)
  next
    case (block_arrives ds d ds' ck ok obs cn ideal r)
    have "d \<noteq> []" using inv block_arrives(2) by (auto simp: session_inv_def count_inv_def)
    then show ?thesis using received_block(3) [OF block_arrives(4)] block_arrives(1) by simp
  qed simp_all
  then show ?case using step by simp
qed simp

text \<open>A run of the sender alone.\<close>

lemma sender_run:
  assumes "run_events (stream_step L) es (snd_end x) = Inr t" and "\<forall>e \<in> set es. local_event e \<and> own_counts e"
  shows "\<exists>y. (session_step L M)\<^sup>*\<^sup>* x y \<and> snd_end y = t \<and> rcv_end y = rcv_end x \<and> lost y = lost x
    \<and> fwd y = fwd x @ new_blocks (snd_end x) t"
  using assms
proof (induction es arbitrary: x)
  case Nil
  then show ?case by (intro exI [of _ x]) (simp add: new_blocks_def)
next
  case (Cons e es)
  then obtain s where s: "stream_step L (snd_end x) e = Inr s" "run_events (stream_step L) es s = Inr t" by (auto simp: rbind_eq_Inr)
  let ?x = "x\<lparr>snd_end := s, fwd := fwd x @ new_blocks (snd_end x) s\<rparr>"
  have st: "session_step L M x ?x" using Cons.prems(2) s(1) by (intro sender_acts [where e = e]) auto
  obtain y where y: "(session_step L M)\<^sup>*\<^sup>* ?x y" "snd_end y = t" "rcv_end y = rcv_end ?x" "lost y = lost ?x"
      "fwd y = fwd ?x @ new_blocks (snd_end ?x) t"
    using Cons.IH [of ?x] s(2) Cons.prems(2) by auto
  have "grows (snd_end x) s" using s(1) by (rule grows_step)
  moreover have "grows s t"
    using s(2) unfolding run_events_def
    by (rule rfold_invariant [where P = "grows s"]) (auto simp: grows_def [of s s] intro: grows_trans grows_step)
  ultimately have "new_blocks (snd_end x) t = new_blocks (snd_end x) s @ new_blocks s t"
    by (auto simp: grows_def new_blocks_def)
  then show ?case using y converse_rtranclp_into_rtranclp [OF st y(1)] by auto
qed

text \<open>A session in which the sender has sent its first block.\<close>

lemma example_session:
  "\<exists>s r x. example_new = Inr s \<and> accept_stream [] None (example_config ROLE_RECEIVER) 1 7 80 = Inr (r :: (u64 list, unit) IperfStream)
     \<and> (session_step example_lib example_lib)\<^sup>*\<^sup>* (new_session s r) x \<and> rcv_end x = r \<and> lost x = []
     \<and> state (snd_end x) = STREAM_START \<and> \<not> has_err_in_send (snd_end x) \<and> bytes (summary (tx (snd_end x))) = 80
     \<and> bitrate (summary (tx (snd_end x))) = Fin 0
     \<and> length (fwd x) = 1 \<and> (\<forall>d \<in> set (fwd x). length d = 80)"
proof -
  obtain r :: "(u64 list, unit) IperfStream" where r: "accept_stream [] None (example_config ROLE_RECEIVER) 1 7 80 = Inr r"
    using accept_stream_defined [of 80 "example_config ROLE_RECEIVER"]
    by (fastforce simp: data_buffer_size_def example_protocol max_bats_iperf_buffer_def)
  obtain s t d where s: "example_new = Inr s" "run_events (stream_step example_lib) example_events s = Inr t"
      "state t = STREAM_START" "\<not> has_err_in_send t" "bitrate (summary (tx t)) = Fin 0" "length (blocks_accepted (out t)) = 1"
      "bytes (summary (tx t)) = 80" "Sent d BATS_SEND_FLAG_NONE True \<in> set (out t)" "length d = 80"
    using example_run by blast
  have "\<forall>e \<in> set example_events. local_event e \<and> own_counts e" by (simp add: example_events_def)
  with s(2) obtain x where x: "(session_step example_lib example_lib)\<^sup>*\<^sup>* (new_session s r) x" "snd_end x = t"
      "rcv_end x = r" "lost x = []" "fwd x = new_blocks s t"
    using sender_run [where x = "new_session s r" and L = example_lib and M = example_lib and es = example_events and t = t]
    by (simp add: new_session_def) blast
  have "blocks_accepted (out s) = []" using new_stream_fresh [OF s(1) [unfolded example_new_def]] by simp
  then have f: "fwd x = blocks_accepted (out t)" using x(5) by (simp add: new_blocks_def)
  moreover have "d \<in> set (blocks_accepted (out t))" using s(8) by (rule sent_blocks_accepted)
  ultimately have "length (fwd x) = 1 \<and> (\<forall>d \<in> set (fwd x). length d = 80)" using s(6,9) by (auto simp: length_Suc_conv)
  then show ?thesis using r s x by blast
qed

section \<open>Properties\<close>


text \<open>
  C6. The loss that is printed is the loss that occurred: if at some point of a session the report of a sender all of whose counted
  blocks were accepted is put on the wire, read by the receiver and the receiver finishes its own report, then the number of lost
  datagrams in its summary is that of the blocks that have not arrived, out of those the sender counted.
\<close>

theorem loss_reported:
  assumes "new_stream r0 sh c sid now = Inr s" and "accept_stream q0 sh' c' sid' cn ideal = Inr r"
    and "(session_step L M)\<^sup>*\<^sup>* (new_session s r) x"
    and "datagrams (summary (tx (snd_end x))) = word_of_nat (length (blocks_accepted (out (snd_end x))))"
    and "state (rcv_end x) = STREAM_NONE" and "role (config (rcv_end x)) = ROLE_RECEIVER" and "length (fwd x) + length (lost x) < 2 ^ 63"
    and "rate_to_wire (bitrate (summary (tx (snd_end x)))) = Inr w" and "p + 32 \<le> length b"
  shows "returns (SerializeReport (snd_end x) b p) (\<lambda>(b', p'). returns (DeserializeReport b' (p + 8) (rcv_end x)) (\<lambda>(t, q).
    lost_datagrams (summary (rx (FinishReport ck t))) = int (length (fwd x) + length (lost x))
    \<and> datagrams (summary (rx (FinishReport ck t))) = datagrams (summary (tx (snd_end x)))))"
proof -
  let ?n = "length (fwd x) + length (lost x)"
  have "session_inv x" using assms(3) session_inv_new [OF assms(1,2)] by (rule session_inv_reach)
  then have d: "datagrams (summary (tx (snd_end x))) - datagrams (summary (rx (rcv_end x))) = word_of_nat ?n"
    using assms(4,5) by (simp add: session_inv_def)
  have n: "sint (word_of_nat ?n :: u64) = int ?n" using assms(7) by (rule sint_small_nat)
  have 3: "p + 8 + 8 = p + 16" "p + 8 + 16 = p + 24" by simp_all
  obtain b' where b': "SerializeReport (snd_end x) b p = Inr (b', p + 32)" "load64 b' (p + 8) = Inr (bytes (summary (tx (snd_end x))))"
    "load64 b' (p + 16) = Inr (datagrams (summary (tx (snd_end x))))" "load64 b' (p + 24) = Inr w"
    using write_report_ok [OF assms(8,9), of "stream_identifier (snd_end x)"] unfolding SerializeReport_def by blast
  obtain t q where t: "DeserializeReport b' (p + 8) (rcv_end x) = Inr (t, q)" "config t = config (rcv_end x)"
      "datagrams (summary (tx t)) = datagrams (summary (tx (snd_end x)))" "rx t = rx (rcv_end x)"
    using b'(2-4) by (auto simp: DeserializeReport_def read_report_def 3)
  have "lost_datagrams (summary (rx (FinishReport ck t))) = int ?n
      \<and> datagrams (summary (rx (FinishReport ck t))) = datagrams (summary (tx (snd_end x)))"
    using t(2-4) assms(6) d n by (simp add: FinishReport_def GenReceiveSummary_def Let_def PrintLastInterval_def)
  then show ?thesis using b'(1) t(1) by (simp add: returns_def)
qed


theorem loss_reported_witness:
  "\<exists>s r x. example_new = Inr s \<and> accept_stream [] None (example_config ROLE_RECEIVER) 1 7 80 = Inr (r :: (u64 list, unit) IperfStream)
     \<and> (session_step example_lib example_lib)\<^sup>*\<^sup>* (new_session s r) x
     \<and> returns (SerializeReport (snd_end x) (replicate 32 0) 0) (\<lambda>(b, p). returns (DeserializeReport b 8 r) (\<lambda>(t, q).
         lost_datagrams (summary (rx (FinishReport (example_clock 9) t))) = 1))"
proof -
  obtain s x and r :: "(u64 list, unit) IperfStream" where e: "example_new = Inr s"
      "accept_stream [] None (example_config ROLE_RECEIVER) 1 7 80 = Inr r"
      "(session_step example_lib example_lib)\<^sup>*\<^sup>* (new_session s r) x" "rcv_end x = r" "lost x = []"
      "state (snd_end x) = STREAM_START" "\<not> has_err_in_send (snd_end x)" "bitrate (summary (tx (snd_end x))) = Fin 0"
      "length (fwd x) = 1"
    using example_session by blast
  have "session_inv x" using e(3) session_inv_new [OF e(1) [unfolded example_new_def] e(2)] by (rule session_inv_reach)
  then have d: "datagrams (summary (tx (snd_end x))) = word_of_nat (length (blocks_accepted (out (snd_end x))))"
    using e(6,7) by (auto simp: session_inv_def count_inv_def given_up_def counted_def)
  have r: "state (rcv_end x) = STREAM_NONE" "role (config (rcv_end x)) = ROLE_RECEIVER"
    using accept_stream_counts [OF e(2)] accept_stream_fresh [OF e(2)] e(4) by (simp_all add: example_config_def)
  obtain w where w: "rate_to_wire (bitrate (summary (tx (snd_end x)))) = Inr w" using example_rate e(8) by metis
  have "returns (SerializeReport (snd_end x) (replicate 32 0) 0) (\<lambda>(b, p). returns (DeserializeReport b 8 r) (\<lambda>(t, q).
      lost_datagrams (summary (rx (FinishReport (example_clock 9) t))) = 1))"
    using loss_reported [OF e(1) [unfolded example_new_def] e(2,3) d r _ w, of 0 "replicate 32 0" "example_clock 9"] e(4,5,9)
    by (auto simp: returns_def)
  then show ?thesis using e(1-3) by blast
qed


text \<open>
  C8. The network of a test does not end the receiver, the numbering may: in a session the receiver ends the process on a block that reaches
  it exactly when this is the first block it sees, the protocol is 1 or 10 and the number of the block is not 0. No
  block is taken for a corrupted one. With an ordered protocol and an identifier other than 0 this never happens while the
  sender is sending without an error.
\<close>

theorem session_exits_iff:
  assumes "new_stream r0 sh c sid now = Inr s" and "accept_stream q0 sh' c' sid' cn ideal = Inr r"
    and "(session_step L M)\<^sup>*\<^sup>* (new_session s r) x" and "fwd x = ds @ d # ds'" and "read_test_header d = Inr h"
  shows "(stream_step M (rcv_end x) (arrival ck fs obs cn' ideal' d) = Inl ExitFailure
      \<longleftrightarrow> stream_identifier (rcv_end x) = 0 \<and> th_seq h \<noteq> 0 \<and> (protocol c' = 1 \<or> protocol c' = 10))
    \<and> (IsReliableProtocol (protocol c) \<and> ds = [] \<and> now + word_of_int sid \<noteq> 0
        \<and> state (snd_end x) = STREAM_START \<and> \<not> has_err_in_send (snd_end x) \<longrightarrow>
      stream_step M (rcv_end x) (arrival ck fs obs cn' ideal' d) \<noteq> Inl ExitFailure)"
proof -
  note new = session_inv_new [OF assms(1,2)]
  have inv: "session_inv x" using assms(3) new by (rule session_inv_reach)
  then have "d \<in> set (blocks_accepted (out (snd_end x)))" "stream_inv (snd_end x)" using assms(4) by (auto simp: session_inv_def)
  then have "block_ok d" unfolding stream_inv_def by (blast dest: blocks_accepted_sent)
  moreover have len: "33 \<le> length d" using assms(5) read_test_header_defined by blast
  ultimately have v: "ValidateReceivedData d (int (length d)) = Inr True" using validate_block_ok by simp
  have "config (rcv_end x) = c'" using session_config [OF assms(3) new] accept_stream_fresh [OF assms(2)] by (simp add: new_session_def)
  moreover have "0 < int (length d)" using len by (cases d) auto
  ultimately have iff: "stream_step M (rcv_end x) (arrival ck fs obs cn' ideal' d) = Inl ExitFailure
      \<longleftrightarrow> stream_identifier (rcv_end x) = 0 \<and> th_seq h \<noteq> 0 \<and> (protocol c' = 1 \<or> protocol c' = 10)"
    using receiver_exits_iff [OF _ assms(5), of "int (length d)" M ck fs obs "rcv_end x"] v
    by (auto simp: ConnectionCallback_def)
  have "th_seq h = 0" if "IsReliableProtocol (protocol c)" "ds = []" "now + word_of_int sid \<noteq> 0"
      "state (snd_end x) = STREAM_START" "\<not> has_err_in_send (snd_end x)" "stream_identifier (rcv_end x) = 0"
  proof -
    have "session_numbered (now + word_of_int sid) x"
      by (rule session_numbered_reach [OF assms(3) new session_numbered_new [OF assms(1)] that(3)])
    moreover have "mode x = protocol c" using session_mode [OF assms(3)] new_stream_fresh [OF assms(1)] by (simp add: new_session_def)
    ultimately have "blocks_accepted (out (snd_end x)) = d # ds'" "numbered (now + word_of_int sid) (snd_end x)"
      using that(1,2,6) assms(4) by (simp_all add: session_numbered_def in_order_def)
    then show ?thesis using assms(5) that(4,5) unfolding numbered_def given_up_def by blast
  qed
  then show ?thesis using iff by blast
qed

theorem session_exits_iff_witness:
  "\<exists>s r x d. example_new = Inr s \<and> accept_stream [] None (example_config ROLE_RECEIVER) 1 7 80 = Inr (r :: (u64 list, unit) IperfStream)
     \<and> (session_step example_lib example_lib)\<^sup>*\<^sup>* (new_session s r) x \<and> fwd x = [d] \<and> length d = 80
     \<and> stream_step example_lib r (arrival (example_clock 4) True [] 7 80 d) \<noteq> Inl ExitFailure"
proof -
  obtain s x and r :: "(u64 list, unit) IperfStream" where e: "example_new = Inr s"
      "accept_stream [] None (example_config ROLE_RECEIVER) 1 7 80 = Inr r"
      "(session_step example_lib example_lib)\<^sup>*\<^sup>* (new_session s r) x" "rcv_end x = r"
      "state (snd_end x) = STREAM_START" "\<not> has_err_in_send (snd_end x)"
      "length (fwd x) = 1" "\<forall>d \<in> set (fwd x). length d = 80"
    using example_session by blast
  obtain d where d: "fwd x = [] @ d # []" "length d = 80" using e(7,8) by (auto simp: length_Suc_conv)
  then obtain h where h: "read_test_header d = Inr h" using read_test_header_defined [of d] by auto
  have "stream_step example_lib r (arrival (example_clock 4) True [] 7 80 d) \<noteq> Inl ExitFailure"
    using session_exits_iff [OF e(1) [unfolded example_new_def] e(2,3) d(1) h, of "example_clock 4" True "[]" 7 80] e(4-6)
    by (auto simp: example_protocol simp del: stream_step.simps)
  moreover have "fwd x = [d]" using d(1) by simp
  ultimately show ?thesis using e(1-3) d(2) by blast
qed

text \<open>A difference of counters that is printed as a loss of none.\<close>

lemma sint_diff:
  fixes a b :: u64
  assumes "\<bar>uint a - uint b\<bar> < 2 ^ 63"
  shows "sint (a - b) = uint a - uint b"
proof -
  have "sint (word_of_int (uint a - uint b) :: u64) = uint a - uint b"
    using assms by (intro sint_small) simp
  then show ?thesis by simp
qed

text \<open>
  C19. A FIN overtakes the summary: the summary of a test and the FIN of a stream travel over different connections. If the FIN is
  received first, the receiver finishes its report with its own FIN-ACK as the only datagram the sender is known to have sent: the
  summary counts at most one datagram and no loss, whatever was received.
\<close>

theorem fin_overtakes_summary:
  assumes "OnReceivedFIN ck fs obs s = Inr t" and "role (config s) = ROLE_RECEIVER"
    and "datagrams (summary (tx s)) = 0" and "datagrams (summary (rx s)) \<in> {1..<2 ^ 63}"
  shows "datagrams (summary (rx t)) \<le> 1 \<and> lost_datagrams (summary (rx t)) = 0 \<and> bytes (summary (rx t)) = bytes (summary (rx s))"
  using assms(1)
proof (cases rule: OnReceivedFIN_cases)
  case (1 b results)
  let ?n = "datagrams (summary (rx s))"
  have n: "1 \<le> uint ?n" "uint ?n < 2 ^ 63" using assms(4) by (simp_all add: word_le_def word_less_def)
  have "sint (1 - ?n) \<le> 0" "sint (0 - ?n) < 0" using n sint_diff [of 1 ?n] sint_diff [of 0 ?n] by simp_all
  then show ?thesis unfolding 1(5) using assms(2,3)
    by (simp add: FinishReport_def GenReceiveSummary_def Let_def count_sent_def emit_calls_def PrintLastInterval_def)
qed

theorem fin_overtakes_summary_witness:
  "returns (OnReceivedFIN (example_clock 2) True [] (upd_receiver (count_received (example_clock 1) 80) (example_stream ROLE_RECEIVER)))
     (\<lambda>t. datagrams (summary (rx t)) \<le> 1 \<and> lost_datagrams (summary (rx t)) = 0)"
proof -
  let ?s = "upd_receiver (count_received (example_clock 1) 80) (example_stream ROLE_RECEIVER)"
  obtain h where "carries (iperf_data ?s) h" using carries_exists example_data_ok by fastforce
  then obtain t where t: "OnReceivedFIN (example_clock 2) True [] ?s = Inr t"
    using OnReceivedFIN_ok [of ?s h "example_clock 2" "[]"] by (auto simp: returns_def)
  have "datagrams (summary (rx ?s)) = 1" by (simp add: count_received_def TestReport_init_def TestInterval_init_def)
  with fin_overtakes_summary [OF t] show ?thesis
    using t by (simp add: returns_def example_config_def TestReport_init_def TestInterval_init_def)
qed



end
