(* ===== verification/Test_Api.thy ===== *)
theory Test_Api
  imports Bats_Api
begin

text \<open>
  \<open>IIperfTest\<close> (\<open>iperf_test_api.h\<close>, \<open>iperf_test_api.cc\<close>): the base class of the two kinds of test.
  Its members are the record \<open>IIperfTest\<close>, which \<open>IperfTest\<close> and \<open>IperfFileTransfer\<close> extend; its
  accessors are defined on every extension. The pure virtual operations are the constants of the
  locale \<open>iperf_test\<close>, whose laws are what \<open>IperfBatsApi\<close> relies on when it stops a test.
  The printer pointer is either not set (\<open>False\<close>) or set.
\<close>

datatype TestState =
    TEST_NONE | TEST_EXCHANGE_PARAMETERS | TEST_START | TEST_EXCHANGE_REPORTS | TEST_DONE

record IIperfTest =
  t_config :: TestConfig
  test_id :: u32
  ctrl_chn :: "conn option"
  t_state :: TestState
  interface_name :: string
  printer :: bool
  t_stopped :: bool

text \<open>The constructor with an id takes it cut to 32 bits.\<close>

definition new_IIperfTest :: "u64 \<Rightarrow> TestConfig \<Rightarrow> IIperfTest" where
  "new_IIperfTest ident c = \<lparr>t_config = c, test_id = ucast ident, ctrl_chn = None, t_state = TEST_NONE,
     interface_name = '''', printer = False, t_stopped = False\<rparr>"

section \<open>Accessors\<close>

definition Id :: "'z IIperfTest_scheme \<Rightarrow> u32 res" where
  "Id t = (if test_id t = 0 then Inl AssertFail else Inr (test_id t))"

definition CloseCtrlChannel :: "'z IIperfTest_scheme \<Rightarrow> 'z IIperfTest_scheme" where
  "CloseCtrlChannel t = t\<lparr>ctrl_chn := None\<rparr>"

definition SetResolution :: "int \<Rightarrow> 'z IIperfTest_scheme \<Rightarrow> 'z IIperfTest_scheme" where
  "SetResolution n t = t\<lparr>t_config := (t_config t)\<lparr>resolution := fl_int Single n\<rparr>\<rparr>"

definition SetBoundInf :: "string \<Rightarrow> 'z IIperfTest_scheme \<Rightarrow> 'z IIperfTest_scheme" where
  "SetBoundInf name t = t\<lparr>interface_name := name\<rparr>"

definition SetPrinter :: "bool \<Rightarrow> 'z IIperfTest_scheme \<Rightarrow> 'z IIperfTest_scheme" where
  "SetPrinter p t = t\<lparr>printer := p\<rparr>"

definition SetRole :: "TestRole \<Rightarrow> 'z IIperfTest_scheme \<Rightarrow> 'z IIperfTest_scheme" where
  "SetRole r t = t\<lparr>t_config := (t_config t)\<lparr>role := r\<rparr>\<rparr>"

text \<open>A control message in a zeroed buffer: magic, id and action code; the rest as the caller sets it.\<close>

definition control_message :: "u32 \<Rightarrow> octet \<Rightarrow> iperf_control_data" where
  "control_message ident code = zero_control\<lparr>ctl_magic := bats_iperf_magic_code, ctl_test_id := ident, ctl_action_code := code\<rparr>"

section \<open>Lemmas\<close>

lemma returns_Id [wp]: "test_id t \<noteq> 0 \<Longrightarrow> Q (test_id t) \<Longrightarrow> returns (Id t) Q"
  by (simp add: Id_def returns_def)

lemma returns_write_control [wp]:
  assumes "32 \<le> length b" and "\<And>b'. length b' = length b \<Longrightarrow> read_control b' = Inr h \<Longrightarrow> Q b'"
  shows "returns (write_control b h) Q"
  using write_control_ok [OF assms(1), of h] assms(2) by (auto simp: returns_def)

section \<open>The contract of a test\<close>

text \<open>
  What \<open>IperfBatsApi::StopAll\<close> and its polling loops rely on: a second \<open>Stop\<close> does nothing, a first
  one leaves a stopped test in state \<open>TEST_DONE\<close> with no stream left to wait for.
  \<open>stop ob t\<close> is \<open>Stop\<close> with what it observes; \<open>can_stop ob t\<close> says that it returns with these
  observations.
\<close>

locale iperf_test =
  fixes stop :: "'o \<Rightarrow> 'z IIperfTest_scheme \<Rightarrow> (bool \<times> 'z IIperfTest_scheme) res"
    and stream_done :: "'z IIperfTest_scheme \<Rightarrow> bool"
    and can_stop :: "'o \<Rightarrow> 'z IIperfTest_scheme \<Rightarrow> bool"
  assumes stop_again: "t_stopped t \<Longrightarrow> stop ob t = Inr (False, t)"
    and stop_first: "\<not> t_stopped t \<Longrightarrow> can_stop ob t \<Longrightarrow>
      returns (stop ob t) (\<lambda>(r, u). t_stopped u \<and> t_state u = TEST_DONE \<and> stream_done u \<and> test_id u = test_id t)"
begin

text \<open>Stopping is idempotent: the second call, with whatever it observes, changes nothing.\<close>

lemma stop_idempotent:
  assumes "t_stopped t \<or> can_stop ob t"
  shows "returns (stop ob t) (\<lambda>(r, u). t_stopped u \<and> (\<forall>ob'. stop ob' u = Inr (False, u)))"
proof (cases "t_stopped t")
  case True
  then show ?thesis by (simp add: returns_def stop_again)
next
  case False
  then have "returns (stop ob t) (\<lambda>(r, u). t_stopped u \<and> t_state u = TEST_DONE \<and> stream_done u \<and> test_id u = test_id t)"
    using assms stop_first by blast
  then show ?thesis by (rule returns_mono) (auto simp: stop_again)
qed

end

end
