(* ===== verification/Iperf_Test.thy ===== *)
theory Iperf_Test
  imports Iperf_Stream Test_Api
begin

text \<open>
  \<open>IperfTest\<close> (\<open>iperf_test.h\<close>, \<open>iperf_test.cc\<close>): one throughput test, its control channel and its
  data streams. The record extends the one of the base class by the members of the class. Calls of
  the BATS library and of the printer are appended to \<open>t_out\<close>; streams that \<open>Stop\<close> releases move to
  \<open>released\<close>, so that what they printed can still be read.

  What a fresh stream gets from outside the repository is the record \<open>test_env\<close>; \<open>g_stream_id\<close>,
  a static variable of \<open>iperf_stream.cc\<close>, is a field of the test.
\<close>

datatype test_out =
    CtrlSend conn "octet list"
  | CtrlConnect BatsConfiguration
  | Listen string u16 BatsConfiguration
  | SentSummaryHeader
  | RecvSummaryHeader
  | SenderInfo
  | SenderFailure

record ('r, 'f) test_env =
  env_lib :: "('r, 'f) stream_lib"
  env_recorder :: 'r
  env_shaper :: "int \<Rightarrow> 'f option"

record ('r, 'f) IperfTest = IIperfTest +
  is_ready_received :: bool
  data_chn_listener :: bool
  ctrl_chn_connector :: bool
  test_streams :: "('r, 'f) IperfStream list"
  passed_ticks :: int
  g_stream_id :: int
  released :: "('r, 'f) IperfStream list"
  t_out :: "test_out list"

definition t_emit :: "test_out \<Rightarrow> ('r, 'f) IperfTest \<Rightarrow> ('r, 'f) IperfTest" where
  "t_emit x t = t\<lparr>t_out := t_out t @ [x]\<rparr>"

section \<open>Construction\<close>

definition new_test_id :: "u64 \<Rightarrow> TestConfig \<Rightarrow> int \<Rightarrow> ('r, 'f) IperfTest" where
  "new_test_id ident c sid = IIperfTest.extend (new_IIperfTest ident c)
     (IperfTest.fields False False False [] 0 sid [] [])"

text \<open>Without an id the test takes the monotonic clock.\<close>

definition new_test :: "clock \<Rightarrow> TestConfig \<Rightarrow> int \<Rightarrow> ('r, 'f) IperfTest" where
  "new_test ck c sid = new_test_id (mono_ms ck) c sid"

section \<open>Start, summaries, Stop\<close>

definition control_connect_config :: "TestConfig \<Rightarrow> BatsConfiguration" where
  "control_connect_config c = BatsConfiguration_init\<lparr>connection_timeout := 1000000,
     frame_type := BATS_HEADER_MIN, transport_mode := BATSTransMode_of_int 10,
     cert_file := bats_default_cert_file, key_file := bats_default_key_file,
     remote_addr := peer_host c, remote_port := port c - 1\<rparr>"

definition StartTest :: "(string \<Rightarrow> bool) \<Rightarrow> ('r, 'f) IperfTest \<Rightarrow> bool \<times> ('r, 'f) IperfTest" where
  "StartTest file_exists t =
     (if \<not> file_exists bats_default_key_file then (False, t)
      else if \<not> file_exists bats_default_cert_file then (False, t)
      else (True, t_emit (CtrlConnect (control_connect_config (t_config t))) (t\<lparr>ctrl_chn_connector := True\<rparr>)))"

definition TryPrintSummary :: "('r, 'f) IperfTest \<Rightarrow> ('r, 'f) IperfTest res" where
  "TryPrintSummary t =
     (if role (t_config t) \<noteq> ROLE_RECEIVER then Inr t
      else rbind (guard AssertFail (printer t)) (\<lambda>_.
           Inr (t_emit RecvSummaryHeader (t\<lparr>test_streams := map PrintSendRecvSummary (test_streams t)\<rparr>))))"

definition PrintStreamSendSummary :: "('r, 'f) IperfTest \<Rightarrow> ('r, 'f) IperfTest" where
  "PrintStreamSendSummary t =
     (if role (t_config t) \<noteq> ROLE_SENDER then t
      else if \<not> IsReliableProtocol (protocol (t_config t)) then t
      else t\<lparr>test_streams := map PrintSendSummary (test_streams t)\<rparr>)"

definition StopTest :: "clock \<Rightarrow> ('r, 'f) IperfTest \<Rightarrow> (bool \<times> ('r, 'f) IperfTest) res" where
  "StopTest ck t =
     (if t_stopped t then Inr (False, t)
      else
        rbind (TryPrintSummary (t\<lparr>t_stopped := True, t_state := TEST_DONE,
                                  test_streams := map (Stop ck) (test_streams t)\<rparr>)) (\<lambda>t.
        Inr (True, t\<lparr>released := released t @ test_streams t, test_streams := []\<rparr>)))"

section \<open>Control messages out\<close>

definition send_ctrl :: "octet list \<Rightarrow> ('r, 'f) IperfTest \<Rightarrow> ('r, 'f) IperfTest res" where
  "send_ctrl b t = (case ctrl_chn t of None \<Rightarrow> Inl NullDeref | Some cn \<Rightarrow> Inr (t_emit (CtrlSend cn b) t))"

fun SerializeReports :: "('r, 'f) IperfStream list \<Rightarrow> octet list \<Rightarrow> nat \<Rightarrow> (octet list \<times> nat) res" where
  "SerializeReports [] b p = Inr (b, p)"
| "SerializeReports (s # ss) b p = rbind (SerializeReport s b p) (\<lambda>(b, p). SerializeReports ss b p)"

definition SendTestSummary :: "('r, 'f) IperfTest \<Rightarrow> ('r, 'f) IperfTest res" where
  "SendTestSummary t =
     (if ctrl_chn t = None then Inr t
      else
        rbind (Id t) (\<lambda>ident.
        rbind (write_control (replicate 1100 0)
                 ((control_message ident 0x03)\<lparr>ctl_num_of_streams := word_of_nat (length (test_streams t))\<rparr>)) (\<lambda>b.
        rbind (SerializeReports (test_streams t) b sizeof_control) (\<lambda>(b, p).
        rbind (send_ctrl b t) (\<lambda>t.
        Inr (t\<lparr>t_state := TEST_EXCHANGE_REPORTS\<rparr>))))))"

definition SendTestParameters :: "('r, 'f) IperfTest \<Rightarrow> ('r, 'f) IperfTest res" where
  "SendTestParameters t =
     rbind (Id t) (\<lambda>ident.
     rbind (write_control (replicate 300 0)
              ((control_message ident 0x02)\<lparr>ctl_num_of_streams := word_of_nat (length (test_streams t))\<rparr>)) (\<lambda>b.
     rbind (Serialize (t_config t) b sizeof_control) (\<lambda>(b, p).
     rbind (send_ctrl b t) (\<lambda>t.
     Inr (t\<lparr>t_state := TEST_EXCHANGE_PARAMETERS\<rparr>)))))"

definition ack_state :: "TestState \<Rightarrow> TestState" where
  "ack_state st = (if st = TEST_NONE then TEST_START else if st = TEST_START then TEST_DONE else st)"

definition SendAck :: "('r, 'f) IperfTest \<Rightarrow> ('r, 'f) IperfTest res" where
  "SendAck t =
     rbind (Id t) (\<lambda>ident.
     rbind (write_control (replicate 300 0) (control_message ident 0x04)) (\<lambda>b.
     rbind (send_ctrl b t) (\<lambda>t.
     Inr (t\<lparr>t_state := ack_state (t_state t)\<rparr>))))"

definition SendTestReady :: "('r, 'f) IperfTest \<Rightarrow> ('r, 'f) IperfTest res" where
  "SendTestReady t =
     (if ctrl_chn t = None then Inr t
      else
        rbind (Id t) (\<lambda>ident.
        rbind (write_control (replicate 300 0) (control_message ident 0x05)) (\<lambda>b.
        send_ctrl b t)))"

definition OnSentFinished :: "clock \<Rightarrow> ('r, 'f) IperfTest \<Rightarrow> ('r, 'f) IperfTest res" where
  "OnSentFinished ck t =
     (if role (t_config t) = ROLE_NONE then Inr t
      else
        rbind (guard AssertFail (printer t)) (\<lambda>_.
        SendTestSummary (t_emit SentSummaryHeader (t\<lparr>test_streams := map (FinishReport ck) (test_streams t)\<rparr>))))"

section \<open>Control messages in\<close>

text \<open>\<open>HandleAckMessage\<close> creates the streams; the \<open>i\<close>-th one reads the clock \<open>cks i\<close>.\<close>

definition open_stream :: "('r, 'f) test_env \<Rightarrow> clock \<Rightarrow> ('r, 'f) IperfTest \<Rightarrow> ('r, 'f) IperfTest res" where
  "open_stream E ck t =
     (let c = t_config t; sid = g_stream_id t in
      rbind (new_stream (env_recorder E) (env_shaper E (max_allowed_sending_rate c)) c sid (mono_ms ck)) (\<lambda>s.
      rbind (StartConnect s) (\<lambda>s.
      rbind (if protocol c = 11 then StartSend ck s else Inr s) (\<lambda>s.
      Inr (t\<lparr>test_streams := test_streams t @ [s], g_stream_id := sid + 1\<rparr>)))))"

definition HandleAckMessage ::
  "('r, 'f) test_env \<Rightarrow> (nat \<Rightarrow> clock) \<Rightarrow> ('r, 'f) IperfTest \<Rightarrow> ('r, 'f) IperfTest res" where
  "HandleAckMessage E cks t =
     (if t_state t = TEST_DONE then Inr t
      else if t_state t = TEST_EXCHANGE_PARAMETERS
      then rfold (\<lambda>i. open_stream E (cks i)) [0 ..< nat (num_streams (t_config t))] (t\<lparr>t_state := TEST_START\<rparr>)
      else if t_state t = TEST_EXCHANGE_REPORTS then Inr (t\<lparr>t_state := TEST_DONE\<rparr>)
      else Inr t)"

fun start_all :: "clock \<Rightarrow> ('r, 'f) IperfStream list \<Rightarrow> ('r, 'f) IperfStream list res" where
  "start_all ck [] = Inr []"
| "start_all ck (s # ss) = rbind (StartSend ck s) (\<lambda>s. rmap (Cons s) (start_all ck ss))"

definition HandleReadyMessage :: "clock \<Rightarrow> ('r, 'f) IperfTest \<Rightarrow> ('r, 'f) IperfTest res" where
  "HandleReadyMessage ck t =
     (let t = t\<lparr>is_ready_received := True\<rparr> in
      if t_state t = TEST_START
      then rbind (guard AssertFail (printer t)) (\<lambda>_.
           rbind (start_all ck (test_streams t)) (\<lambda>ss.
           Inr (t_emit SentSummaryHeader (t\<lparr>test_streams := ss\<rparr>))))
      else Inr t)"

text \<open>
  The inner loop of \<open>HandleSummaryMessage\<close>: every stream with the identifier reads a report at
  the current position and moves it.
\<close>

fun match_report ::
  "bool \<Rightarrow> clock \<Rightarrow> u64 \<Rightarrow> octet list \<Rightarrow> ('r, 'f) IperfStream list \<Rightarrow> nat
     \<Rightarrow> (('r, 'f) IperfStream list \<times> nat) res" where
  "match_report reliable ck ident b [] p = Inr ([], p)"
| "match_report reliable ck ident b (s # ss) p =
     (if stream_identifier s = ident
      then rbind (DeserializeReport b p s) (\<lambda>(s, p).
           rbind (match_report reliable ck ident b ss p) (\<lambda>(ss, p).
           Inr ((if reliable then s else FinishReport ck s) # ss, p)))
      else rbind (match_report reliable ck ident b ss p) (\<lambda>(ss, p). Inr (s # ss, p)))"

fun read_reports ::
  "bool \<Rightarrow> clock \<Rightarrow> octet list \<Rightarrow> nat \<Rightarrow> ('r, 'f) IperfStream list \<Rightarrow> nat \<Rightarrow> ('r, 'f) IperfStream list res" where
  "read_reports reliable ck b 0 ss p = Inr ss"
| "read_reports reliable ck b (Suc n) ss p =
     rbind (load64 b p) (\<lambda>ident.
     rbind (match_report reliable ck ident b ss (p + 8)) (\<lambda>(ss, p).
     read_reports reliable ck b n ss p))"

definition HandleSummaryMessage ::
  "clock \<Rightarrow> iperf_control_data \<Rightarrow> octet list \<Rightarrow> ('r, 'f) IperfTest \<Rightarrow> ('r, 'f) IperfTest res" where
  "HandleSummaryMessage ck h b t =
     (if t_state t = TEST_DONE then Inr t
      else
        (let reliable = IsReliableProtocol (protocol (t_config t)) in
         rbind (guard AssertFail (ctl_test_id h = test_id t)) (\<lambda>_.
         rbind (read_reports reliable ck b (unat (ctl_num_of_streams h)) (test_streams t) sizeof_control) (\<lambda>ss.
         rbind (SendAck (t\<lparr>test_streams := ss\<rparr>)) (\<lambda>t.
         if reliable then Inr t else TryPrintSummary t)))))"

definition data_listen_config :: "TestConfig \<Rightarrow> BatsConfiguration res" where
  "data_listen_config c =
     rbind (timeout_of c) (\<lambda>ms.
     (let b = BatsConfiguration_init\<lparr>cert_file := bats_default_cert_file, key_file := bats_default_key_file,
                connection_timeout := ms, transport_mode := BATSTransMode_of_int (protocol c)\<rparr>;
          b = (if protocol c = 0 \<or> protocol c = 1 then b\<lparr>frame_type := BATS_HEADER_V1\<rparr> else b);
          b = (if protocol c = 11 \<or> protocol c = 12 then b\<lparr>frame_type := FRAME_TRANSPARENT\<rparr> else b);
          b = (if protocol c = 10 then b\<lparr>frame_type := BATS_HEADER_MIN\<rparr> else b)
      in Inr b))"

definition HandleTestParameters ::
  "ifaddr list option \<Rightarrow> octet list \<Rightarrow> ('r, 'f) IperfTest \<Rightarrow> ('r, 'f) IperfTest res" where
  "HandleTestParameters ifs b t =
     (if t_state t = TEST_DONE then Inr t
      else
        rbind (Deserialize TestConfig_init b sizeof_control) (\<lambda>c.
        rbind (data_listen_config c) (\<lambda>bc.
        (let old = t_config t;
             c = c\<lparr>resolution := resolution old, is_debug_mode := is_debug_mode old,
                   is_precise_time_enabled := is_precise_time_enabled old, role := ROLE_RECEIVER\<rparr>;
             t = t_emit (Listen (ReadIPAddress ifs (interface_name t)) (word_of_int (port c)) bc)
                   (t\<lparr>data_chn_listener := True, t_config := c\<rparr>) in
         rbind (SendAck t) (\<lambda>t.
         rbind (guard AssertFail (printer t)) (\<lambda>_.
         Inr (t_emit RecvSummaryHeader t)))))))"

text \<open>What a control message handler takes from outside: clocks and the interface list.\<close>

record ctrl_in =
  ci_clock :: clock
  ci_clocks :: "nat \<Rightarrow> clock"
  ci_ifaddrs :: "ifaddr list option"

definition HandleControlMessage ::
  "('r, 'f) test_env \<Rightarrow> ctrl_in \<Rightarrow> conn \<Rightarrow> octet list \<Rightarrow> ('r, 'f) IperfTest \<Rightarrow> ('r, 'f) IperfTest res" where
  "HandleControlMessage E ci cn b t =
     (let t = (if ctrl_chn t = None then t\<lparr>ctrl_chn := Some cn\<rparr> else t) in
      rbind (read_control b) (\<lambda>h.
      rbind (guard AssertFail (ctl_test_id h = test_id t)) (\<lambda>_.
      if ctl_action_code h = 0x04 then HandleAckMessage E (ci_clocks ci) t
      else if ctl_action_code h = 0x03 then HandleSummaryMessage (ci_clock ci) h b t
      else if ctl_action_code h = 0x02 then HandleTestParameters (ci_ifaddrs ci) b t
      else if ctl_action_code h = 0x05 then HandleReadyMessage (ci_clock ci) t
      else Inr t)))"

section \<open>Callbacks\<close>

text \<open>\<open>ideal\<close> is \<open>GetIdealBufferLength\<close> of the new connection.\<close>

definition DataListenCallback ::
  "('r, 'f) test_env \<Rightarrow> conn option \<Rightarrow> int \<Rightarrow> BatsListenEvent \<Rightarrow> ('r, 'f) IperfTest \<Rightarrow> ('r, 'f) IperfTest res" where
  "DataListenCallback E new_conn ideal event t =
     (case event of
        BATS_LISTEN_NEW_CONNECTION \<Rightarrow>
          (case new_conn of
             None \<Rightarrow> Inl AssertFail
           | Some cn \<Rightarrow>
             (let c = (t_config t)\<lparr>role := ROLE_RECEIVER\<rparr>; sid = g_stream_id t in
              rbind (accept_stream (env_recorder E) (env_shaper E (max_allowed_sending_rate c)) c sid cn ideal) (\<lambda>s.
              rbind (StartRecv s) (\<lambda>s.
              (let t = t\<lparr>test_streams := test_streams t @ [s], g_stream_id := sid + 1\<rparr> in
               if protocol (t_config t) \<noteq> 11 \<and>
                  (word_of_int (num_streams (t_config t)) :: u64) = word_of_nat (length (test_streams t))
               then SendTestReady t else Inr t)))))
      | _ \<Rightarrow> Inr t)"

definition ControlChannelConnectionCallback ::
  "('r, 'f) test_env \<Rightarrow> ctrl_in \<Rightarrow> conn \<Rightarrow> BatsConnEvent \<Rightarrow> octet list \<Rightarrow> ('r, 'f) IperfTest \<Rightarrow> ('r, 'f) IperfTest res" where
  "ControlChannelConnectionCallback E ci cn event data t =
     (case event of
        BATS_CONNECTION_FAILED \<Rightarrow> rbind (guard NullDeref (printer t)) (\<lambda>_. Inr (t_emit SenderFailure t))
      | BATS_CONNECTION_CLOSED \<Rightarrow> rmap snd (StopTest (ci_clock ci) (CloseCtrlChannel t))
      | BATS_CONNECTION_SHUTDOWN_BY_PEER \<Rightarrow> rmap snd (StopTest (ci_clock ci) (CloseCtrlChannel t))
      | BATS_CONNECTION_ESTABLISHED \<Rightarrow>
          rbind (guard NullDeref (printer t)) (\<lambda>_.
          SendTestParameters (t_emit SenderInfo (t\<lparr>ctrl_chn := Some cn\<rparr>)))
      | BATS_CONNECTION_DATA_RECEIVED \<Rightarrow> HandleControlMessage E ci cn data t
      | _ \<Rightarrow> Inr t)"

section \<open>Polling\<close>

text \<open>The loop counts down \<open>expected_num_streams\<close> from \<open>num_streams\<close>; the last line assigns.\<close>

definition IsStreamReady :: "('r, 'f) IperfTest \<Rightarrow> bool \<times> ('r, 'f) IperfTest" where
  "IsStreamReady t =
     (if \<exists>s \<in> set (test_streams t). conn_state s \<noteq> CONN_CONNECTED then (False, t)
      else (let r = (num_streams (t_config t) - int (length (test_streams t)) = 0)
            in (r, t\<lparr>is_ready_received := r\<rparr>)))"

definition IsStreamDone :: "('r, 'f) IperfTest \<Rightarrow> bool" where
  "IsStreamDone t \<longleftrightarrow>
     (if test_streams t = [] then True
      else if \<exists>s \<in> set (test_streams t). state s \<noteq> STREAM_DONE then False
      else num_streams (t_config t) - int (length (test_streams t)) = 0)"

text \<open>
  The first lines of both polling functions: the tick counter, the end of the test time, the
  division of the ticks into intervals. \<open>None\<close>: nothing to do at this tick; \<open>Some True\<close>: time is up.
\<close>

definition ticks_per_interval :: "TestConfig \<Rightarrow> int res" where
  "ticks_per_interval c = to_i32 (fround Single (fmul Single (interval c) (resolution c)))"

definition tick :: "('r, 'f) IperfTest \<Rightarrow> (bool option \<times> ('r, 'f) IperfTest) res" where
  "tick t =
     rbind (guard SignedOverflow (passed_ticks t < 2 ^ 31 - 1)) (\<lambda>_.
     (let n = passed_ticks t; c = t_config t; t = t\<lparr>passed_ticks := n + 1\<rparr> in
      if fless (fmul Single (time c) (resolution c)) (fl_int Single n) then Inr (Some True, t)
      else
        rbind (ticks_per_interval c) (\<lambda>k.
        if k = 0 then Inl DivByZero
        else if (n + 1) mod k \<noteq> 0 then Inr (None, t)
        else Inr (Some False, t))))"

fun check_intervals :: "clock \<Rightarrow> ('r, 'f) IperfStream list \<Rightarrow> ('r, 'f) IperfStream list res" where
  "check_intervals ck [] = Inr []"
| "check_intervals ck (s # ss) =
     rbind (IsIntervalDataReceivedTimeout ck s) (\<lambda>(late, s).
     rmap (Cons (if late then PrintLastInterval ck s else s)) (check_intervals ck ss))"

definition CheckStreamIntervalReceive :: "clock \<Rightarrow> ('r, 'f) IperfTest \<Rightarrow> ('r, 'f) IperfTest res" where
  "CheckStreamIntervalReceive ck t =
     (if role (t_config t) \<noteq> ROLE_RECEIVER then Inr t
      else rbind (tick t) (\<lambda>(due, t).
           if due = Some False
           then rbind (check_intervals ck (test_streams t)) (\<lambda>ss. Inr (t\<lparr>test_streams := ss\<rparr>))
           else Inr t))"

fun snapshot_streams :: "clock \<Rightarrow> ('r, 'f) IperfStream list \<Rightarrow> (nat \<times> ('r, 'f) IperfStream list) res" where
  "snapshot_streams ck [] = Inr (0, [])"
| "snapshot_streams ck (s # ss) =
     (if state s = STREAM_DONE
      then rbind (snapshot_streams ck ss) (\<lambda>(dead, ss). Inr (dead + 1, s # ss))
      else rbind (SnapshotReport ck s) (\<lambda>(taken, s).
           rbind (snapshot_streams ck ss) (\<lambda>(dead, ss).
           Inr (dead, (if taken then PrintLastInterval ck s else s) # ss))))"

definition TestFinishState :: "clock \<Rightarrow> ('r, 'f) IperfTest \<Rightarrow> (bool \<times> ('r, 'f) IperfTest) res" where
  "TestFinishState ck t =
     (if role (t_config t) \<noteq> ROLE_SENDER then rmap (Pair False) (CheckStreamIntervalReceive ck t)
      else if t_state t = TEST_DONE then Inr (True, t)
      else
        rbind (tick t) (\<lambda>(due, t).
        if due = Some True then Inr (True, t)
        else if due = None then Inr (False, t)
        else
          rbind (snapshot_streams ck (test_streams t)) (\<lambda>(dead, ss).
          (let t = t\<lparr>test_streams := ss\<rparr> in
           if dead = length ss then Inr (True, t\<lparr>t_state := TEST_DONE\<rparr>) else Inr (False, t)))))"

section \<open>All operations as events\<close>

datatype test_event =
    TeStart "string \<Rightarrow> bool"
  | TeStop clock
  | TeControl ctrl_in conn BatsConnEvent "octet list"
  | TeMessage ctrl_in conn "octet list"
  | TeListen "conn option" int BatsListenEvent
  | TePoll clock
  | TeReady
  | TeSentFinished clock
  | TePrintSend
  | TeTryPrint
  | TeStream nat stream_event

fun test_step :: "('r, 'f) test_env \<Rightarrow> ('r, 'f) IperfTest \<Rightarrow> test_event \<Rightarrow> ('r, 'f) IperfTest res" where
  "test_step E t (TeStart ex) = Inr (snd (StartTest ex t))"
| "test_step E t (TeStop ck) = rmap snd (StopTest ck t)"
| "test_step E t (TeControl ci cn ev d) = ControlChannelConnectionCallback E ci cn ev d t"
| "test_step E t (TeMessage ci cn d) = HandleControlMessage E ci cn d t"
| "test_step E t (TeListen cn ideal ev) = DataListenCallback E cn ideal ev t"
| "test_step E t (TePoll ck) = rmap snd (TestFinishState ck t)"
| "test_step E t TeReady = Inr (snd (IsStreamReady t))"
| "test_step E t (TeSentFinished ck) = OnSentFinished ck t"
| "test_step E t TePrintSend = Inr (PrintStreamSendSummary t)"
| "test_step E t TeTryPrint = TryPrintSummary t"
| "test_step E t (TeStream i e) =
     (if i < length (test_streams t)
      then rbind (stream_step (env_lib E) (test_streams t ! i) e) (\<lambda>s. Inr (t\<lparr>test_streams := (test_streams t)[i := s]\<rparr>))
      else Inr t)"

section \<open>The contract of a test\<close>

text \<open>
  \<open>Stop\<close> of a throughput test keeps the contract of \<open>IIperfTest\<close>; only a receiver without a printer
  does not get through it.
\<close>

definition printable :: "clock \<Rightarrow> ('r, 'f) IperfTest \<Rightarrow> bool" where
  "printable ck t \<longleftrightarrow> printer t \<or> role (t_config t) \<noteq> ROLE_RECEIVER"

lemma StopTest_first:
  assumes "\<not> t_stopped t" and "printable ck t"
  shows "returns (StopTest ck t) (\<lambda>(r, u). r \<and> t_stopped u \<and> t_state u = TEST_DONE \<and> IsStreamDone u
    \<and> test_streams u = [] \<and> length (released u) = length (released t) + length (test_streams t)
    \<and> test_id u = test_id t \<and> t_config u = t_config t)"
  using assms by (cases "role (t_config t) = ROLE_RECEIVER")
    (simp_all add: StopTest_def TryPrintSummary_def printable_def t_emit_def IsStreamDone_def returns_def)

interpretation general_test: iperf_test StopTest IsStreamDone printable
proof
  show "t_stopped t \<Longrightarrow> StopTest ck t = Inr (False, t)" for ck and t :: "('a, 'b) IperfTest" by (simp add: StopTest_def)
  show "returns (StopTest ck t) (\<lambda>(r, u). t_stopped u \<and> t_state u = TEST_DONE \<and> IsStreamDone u \<and> test_id u = test_id t)"
    if "\<not> t_stopped t" "printable ck t" for ck and t :: "('a, 'b) IperfTest"
    using StopTest_first [OF that] by (rule returns_mono) auto
qed

end
