(* ===== verification/Test_Messages.thy ===== *)
theory Test_Messages
  imports Iperf_Test Stream_Reports
begin

text \<open>
  The control messages of a test: a summary holds one 32-byte record per stream and is read back
  by the streams with the same identifiers; rules for the handlers that send and receive them.
\<close>

section \<open>Reports of several streams\<close>

definition rate_ok :: "('r, 'f) IperfStream \<Rightarrow> bool" where
  "rate_ok s \<longleftrightarrow> (\<exists>w. rate_to_wire (bitrate (summary (tx s))) = Inr w)"

text \<open>The record of stream \<open>s\<close> at offset \<open>p\<close> of a summary message.\<close>

definition has_record :: "octet list \<Rightarrow> nat \<Rightarrow> ('r, 'f) IperfStream \<Rightarrow> bool" where
  "has_record b p s \<longleftrightarrow> p + 32 \<le> length b \<and> load64 b p = Inr (stream_identifier s)
     \<and> load64 b (p + 8) = Inr (bytes (summary (tx s))) \<and> load64 b (p + 16) = Inr (datagrams (summary (tx s)))"

lemma has_record_cong: "(\<And>q n. p \<le> q \<Longrightarrow> q + n \<le> p + 32 \<Longrightarrow> peek b' q n = peek b q n) \<Longrightarrow> length b' = length b \<Longrightarrow>
    has_record b' p s = has_record b p s"
  by (simp add: has_record_def load_defs)

lemma SerializeReports_ok:
  assumes "\<forall>s \<in> set ss. rate_ok s" and "p + 32 * length ss \<le> length b"
  shows "returns (SerializeReports ss b p) (\<lambda>(b', p'). p' = p + 32 * length ss \<and> length b' = length b
    \<and> (\<forall>i < length ss. has_record b' (p + 32 * i) (ss ! i))
    \<and> (\<forall>q n. q + n \<le> p \<or> p + 32 * length ss \<le> q \<longrightarrow> peek b' q n = peek b q n))"
  using assms
proof (induction ss arbitrary: b p)
  case Nil
  then show ?case by (simp add: returns_def)
next
  case (Cons s ss)
  obtain w where w: "rate_to_wire (bitrate (summary (tx s))) = Inr w" using Cons.prems(1) by (auto simp: rate_ok_def)
  obtain b1 where b1: "SerializeReport s b p = Inr (b1, p + 32)" "length b1 = length b" "has_record b1 p s"
      "\<forall>q n. q + n \<le> p \<or> p + 32 \<le> q \<longrightarrow> peek b1 q n = peek b q n"
    using write_report_ok [OF w, of p b "stream_identifier s"] Cons.prems(2) by (auto simp: SerializeReport_def has_record_def)
  obtain b2 where b2: "SerializeReports ss b1 (p + 32) = Inr (b2, p + 32 + 32 * length ss)" "length b2 = length b"
      "\<forall>i < length ss. has_record b2 (p + 32 + 32 * i) (ss ! i)"
      "\<forall>q n. q + n \<le> p + 32 \<or> p + 32 + 32 * length ss \<le> q \<longrightarrow> peek b2 q n = peek b1 q n"
    using Cons.IH [of "p + 32" b1] Cons.prems b1(2) by (auto simp: returns_def)
  have "has_record b2 p s" using b1(3) b2(2,4) b1(2) has_record_cong [of p b2 b1 s] by auto
  then have "\<forall>i < length (s # ss). has_record b2 (p + 32 * i) ((s # ss) ! i)"
    using b2(3) by (auto simp: less_Suc_eq_0_disj add.assoc)
  then show ?case using b1 b2 by (auto simp: returns_def)
qed

lemma SerializeReports_overrun:
  assumes "SerializeReports ss b p = Inr (b', p')"
  shows "ss = [] \<or> p + 32 * length ss \<le> length b"
  using assms
proof (induction ss arbitrary: b p)
  case (Cons s ss)
  then obtain b1 p1 where b1: "SerializeReport s b p = Inr (b1, p1)" "SerializeReports ss b1 p1 = Inr (b', p')"
    by (auto simp: rbind_eq_Inr)
  have "p + 32 \<le> length b" "length b1 = length b" "p1 = p + 32"
    using b1(1) by (auto simp: SerializeReport_def write_report_def rbind_eq_Inr store64_def poke_eq_Inr length_overwrite)
  then show ?case using Cons.IH [OF b1(2)] by auto
qed simp

section \<open>Reading them back\<close>

definition take_report :: "bool \<Rightarrow> clock \<Rightarrow> octet list \<Rightarrow> nat \<Rightarrow> ('r, 'f) IperfStream \<Rightarrow> ('r, 'f) IperfStream" where
  "take_report reliable ck b p s =
     (case DeserializeReport b p s of Inr (s, q) \<Rightarrow> if reliable then s else FinishReport ck s | Inl _ \<Rightarrow> s)"

lemma DeserializeReport_ok:
  "p + 24 \<le> length b \<Longrightarrow> \<exists>s'. DeserializeReport b p s = Inr (s', p + 24) \<and> stream_identifier s' = stream_identifier s"
  by (auto simp: DeserializeReport_def read_report_def load64_def peek_ok)

lemma FinishReport_identifier [simp]: "stream_identifier (FinishReport ck s) = stream_identifier s"
  by (simp add: FinishReport_def Let_def PrintLastInterval_def)

lemma take_report_identifier [simp]: "stream_identifier (take_report rel ck b p s) = stream_identifier s"
  by (auto simp: take_report_def DeserializeReport_def rbind_def split: sum.splits prod.splits)

lemma match_report_absent:
  "ident \<notin> stream_identifier ` set ss \<Longrightarrow> match_report rel ck ident b ss p = Inr (ss, p)"
  by (induction ss) auto

lemma match_report_present:
  assumes "distinct (map stream_identifier ss)" and "ident \<in> stream_identifier ` set ss" and "p + 24 \<le> length b"
  shows "match_report rel ck ident b ss p =
    Inr (map (\<lambda>s. if stream_identifier s = ident then take_report rel ck b p s else s) ss, p + 24)"
  using assms
proof (induction ss)
  case (Cons s ss)
  show ?case
  proof (cases "stream_identifier s = ident")
    case True
    then have "ident \<notin> stream_identifier ` set ss" using Cons.prems(1) by auto
    moreover from this have "map (\<lambda>s. if stream_identifier s = ident then take_report rel ck b p s else s) ss = ss"
      by (intro map_idI) auto
    moreover obtain s' where "DeserializeReport b p s = Inr (s', p + 24)" using DeserializeReport_ok [OF Cons.prems(3)] by blast
    ultimately show ?thesis using True by (simp add: match_report_absent take_report_def)
  next
    case False
    then show ?thesis using Cons by auto
  qed
qed simp

lemma read_reports_ok:
  assumes "distinct (map stream_identifier ss)" and "distinct ids" and "set ids \<subseteq> stream_identifier ` set ss"
    and "\<forall>i < length ids. load64 b (p + 32 * i) = Inr (ids ! i)" and "p + 32 * length ids \<le> length b"
  shows "returns (read_reports rel ck b (length ids) ss p) (\<lambda>ss'. length ss' = length ss
    \<and> (\<forall>k < length ss. (\<forall>i < length ids. stream_identifier (ss ! k) = ids ! i \<longrightarrow> ss' ! k = take_report rel ck b (p + 32 * i + 8) (ss ! k))
         \<and> (stream_identifier (ss ! k) \<notin> set ids \<longrightarrow> ss' ! k = ss ! k)))"
  using assms
proof (induction ids arbitrary: ss p)
  case Nil
  then show ?case by (simp add: returns_def)
next
  case (Cons x ids)
  define f where "f s = (if stream_identifier s = x then take_report rel ck b (p + 8) s else s)" for s :: "('a, 'b) IperfStream"
  let ?ss = "map f ss"
  have idf [simp]: "stream_identifier (f s) = stream_identifier s" for s by (simp add: f_def)
  then have ids: "map stream_identifier ?ss = map stream_identifier ss" by simp
  have m: "match_report rel ck x b ss (p + 8) = Inr (?ss, p + 32)"
    using match_report_present [of ss x "p + 8" b rel ck] Cons.prems by (simp add: f_def [abs_def])
  have ld: "load64 b p = Inr x" using Cons.prems(4) by fastforce
  have "returns (read_reports rel ck b (length ids) ?ss (p + 32)) (\<lambda>ss'. length ss' = length ?ss
    \<and> (\<forall>k < length ?ss. (\<forall>i < length ids. stream_identifier (?ss ! k) = ids ! i \<longrightarrow> ss' ! k = take_report rel ck b (p + 32 + 32 * i + 8) (?ss ! k))
         \<and> (stream_identifier (?ss ! k) \<notin> set ids \<longrightarrow> ss' ! k = ?ss ! k)))"
  proof (rule Cons.IH)
    show "distinct (map stream_identifier ?ss)" unfolding ids by (rule Cons.prems(1))
    show "set ids \<subseteq> stream_identifier ` set ?ss"
      using Cons.prems(3) ids by (metis (no_types, lifting) list.set_map set_subset_Cons subset_trans)
    show "\<forall>i < length ids. load64 b (p + 32 + 32 * i) = Inr (ids ! i)"
      using Cons.prems(4) by (auto simp: add.assoc)
  qed (use Cons.prems in auto)
  then obtain ss' where ss': "read_reports rel ck b (length ids) ?ss (p + 32) = Inr ss'" "length ss' = length ss"
    "\<And>k i. k < length ss \<Longrightarrow> i < length ids \<Longrightarrow> stream_identifier (ss ! k) = ids ! i \<Longrightarrow> ss' ! k = take_report rel ck b (p + 32 + 32 * i + 8) (?ss ! k)"
    "\<And>k. k < length ss \<Longrightarrow> stream_identifier (ss ! k) \<notin> set ids \<Longrightarrow> ss' ! k = ?ss ! k"
    by (auto simp: returns_def)
  have "ss' ! k = take_report rel ck b (p + 32 * i + 8) (ss ! k)"
    if "k < length ss" "i < length (x # ids)" "stream_identifier (ss ! k) = (x # ids) ! i" for k i
  proof (cases i)
    case 0
    then show ?thesis using that ss'(4) [of k] Cons.prems(2) by (simp add: f_def)
  next
    case (Suc j)
    then have "stream_identifier (ss ! k) \<noteq> x" using that Cons.prems(2) by auto
    then show ?thesis using that Suc ss'(3) [of k j] by (simp add: f_def add.assoc)
  qed
  moreover have "ss' ! k = ss ! k" if "k < length ss" "stream_identifier (ss ! k) \<notin> set (x # ids)" for k
    using that ss'(4) [of k] by (simp add: f_def)
  ultimately show ?case using ld m ss'(1,2) by (auto simp: returns_def)
qed

section \<open>Messages\<close>

lemma t_emit_simps [simp]:
  "t_config (t_emit x t) = t_config t" "test_id (t_emit x t) = test_id t" "ctrl_chn (t_emit x t) = ctrl_chn t"
  "t_state (t_emit x t) = t_state t" "printer (t_emit x t) = printer t" "test_streams (t_emit x t) = test_streams t"
  "t_stopped (t_emit x t) = t_stopped t" "released (t_emit x t) = released t" "g_stream_id (t_emit x t) = g_stream_id t"
  "interface_name (t_emit x t) = interface_name t" "passed_ticks (t_emit x t) = passed_ticks t"
  "t_out (t_emit x t) = t_out t @ [x]"
  by (simp_all add: t_emit_def)

lemma returns_send_ctrl [wp]:
  assumes "ctrl_chn t = Some cn" and "Q (t_emit (CtrlSend cn b) t)"
  shows "returns (send_ctrl b t) Q"
  using assms by (simp add: send_ctrl_def returns_def)

text \<open>A summary message: its header, and one record per stream.\<close>

definition is_summary :: "octet list \<Rightarrow> u32 \<Rightarrow> ('r, 'f) IperfStream list \<Rightarrow> bool" where
  "is_summary m ident ss \<longleftrightarrow> length m = 1100
     \<and> read_control m = Inr ((control_message ident 0x03)\<lparr>ctl_num_of_streams := word_of_nat (length ss)\<rparr>)
     \<and> (\<forall>i < length ss. has_record m (32 + 32 * i) (ss ! i))"

lemma SendTestSummary_ok:
  assumes "ctrl_chn t = Some cn" and "test_id t \<noteq> 0" and "length (test_streams t) \<le> 33"
    and "\<forall>s \<in> set (test_streams t). rate_ok s"
  shows "returns (SendTestSummary t) (\<lambda>u. \<exists>m. is_summary m (test_id t) (test_streams t)
    \<and> u = (t_emit (CtrlSend cn m) t)\<lparr>t_state := TEST_EXCHANGE_REPORTS\<rparr>)"
proof -
  have ser: "returns (SerializeReports (test_streams t) b sizeof_control) Q"
    if "length b = 1100" and "\<And>b' p. length b' = 1100 \<Longrightarrow> read_control b' = read_control b \<Longrightarrow>
        \<forall>i < length (test_streams t). has_record b' (32 + 32 * i) (test_streams t ! i) \<Longrightarrow> Q (b', p)" for b Q
  proof -
    have fits: "sizeof_control + 32 * length (test_streams t) \<le> length b"
      using assms(3) that(1) by (simp add: sizeof_control_def)
    show ?thesis
    proof (rule returns_mono [OF SerializeReports_ok [OF assms(4) fits]])
      fix bp assume a: "case bp of (b', p') \<Rightarrow> p' = sizeof_control + 32 * length (test_streams t) \<and> length b' = length b
        \<and> (\<forall>i < length (test_streams t). has_record b' (sizeof_control + 32 * i) (test_streams t ! i))
        \<and> (\<forall>q n. q + n \<le> sizeof_control \<or> sizeof_control + 32 * length (test_streams t) \<le> q \<longrightarrow> peek b' q n = peek b q n)"
      obtain b' p' where bp: "bp = (b', p')" by (cases bp)
      have "read_control b' = read_control b" using a bp by (intro read_control_cong) (simp add: sizeof_control_def)
      then show "Q bp" using a bp that by (simp add: sizeof_control_def)
    qed
  qed
  show ?thesis
    unfolding SendTestSummary_def using assms(1,2)
    by (auto intro!: wp ser simp: is_summary_def)
qed

lemma SendTestSummary_overrun:
  assumes "ctrl_chn t \<noteq> None" and "33 < length (test_streams t)"
  shows "\<exists>e. SendTestSummary t = Inl e"
proof (cases "SendTestSummary t")
  case (Inr u)
  then obtain b b' p h where b: "write_control (replicate 1100 0) h = Inr b"
      "SerializeReports (test_streams t) b sizeof_control = Inr (b', p)"
    using assms(1) by (auto simp: SendTestSummary_def rbind_eq_Inr)
  have "length b = 1100" using write_control_ok [of "replicate 1100 0" h] b(1) by auto
  then show ?thesis using SerializeReports_overrun [OF b(2)] assms(2) by (auto simp: sizeof_control_def)
qed blast

section \<open>The summary reaches the receiver\<close>

lemma take_report_record:
  assumes "has_record b p s" and "stream_identifier r = stream_identifier s"
  shows "bytes (summary (tx (take_report rel ck b (p + 8) r))) = bytes (summary (tx s))
    \<and> datagrams (summary (tx (take_report rel ck b (p + 8) r))) = datagrams (summary (tx s))"
proof -
  have 3: "p + 8 + 8 = p + 16" "p + 8 + 16 = p + 24" by simp_all
  have fin: "bytes (summary (tx (FinishReport ck u))) = bytes (summary (tx u))
      \<and> datagrams (summary (tx (FinishReport ck u))) = datagrams (summary (tx u))" for u :: "('c, 'd) IperfStream"
    by (simp add: FinishReport_def Let_def GenSendSummary_def GenReceiveSummary_def PrintLastInterval_def)
  obtain w where "load64 b (p + 24) = Inr w" using assms(1) by (auto simp: has_record_def load64_def peek_ok)
  then show ?thesis
    using assms fin by (simp add: take_report_def DeserializeReport_def read_report_def has_record_def 3)
qed

lemma returns_SendAck [wp]:
  assumes "ctrl_chn t = Some cn" and "test_id t \<noteq> 0"
    and "\<And>m. length m = 300 \<Longrightarrow> read_control m = Inr (control_message (test_id t) 0x04) \<Longrightarrow>
           Q ((t_emit (CtrlSend cn m) t)\<lparr>t_state := ack_state (t_state t)\<rparr>)"
  shows "returns (SendAck t) Q"
  unfolding SendAck_def using assms by (auto intro!: wp)

lemma TryPrintSummary_ok:
  assumes "printer t" and "\<And>u. u = t \<or> u = t_emit RecvSummaryHeader (t\<lparr>test_streams := map PrintSendRecvSummary (test_streams t)\<rparr>) \<Longrightarrow> Q u"
  shows "returns (TryPrintSummary t) Q"
  using assms by (auto simp: TryPrintSummary_def returns_def)

lemma summary_received:
  assumes m: "is_summary m (test_id u) ss" and "length ss \<le> 33"
    and dist: "distinct (map stream_identifier ss)" "distinct (map stream_identifier (test_streams u))"
      "stream_identifier ` set ss \<subseteq> stream_identifier ` set (test_streams u)"
    and u: "t_state u = TEST_START" "test_id u \<noteq> 0" "printer u"
  shows "returns (HandleControlMessage E ci cn m u) (\<lambda>v. t_state v = TEST_DONE
    \<and> (\<exists>cn' a. CtrlSend cn' a \<in> set (t_out v) \<and> read_control a = Inr (control_message (test_id u) 0x04))
    \<and> length (test_streams v) = length (test_streams u)
    \<and> (\<forall>k < length (test_streams u). \<forall>i < length ss.
         stream_identifier (test_streams u ! k) = stream_identifier (ss ! i) \<longrightarrow>
         bytes (summary (tx (test_streams v ! k))) = bytes (summary (tx (ss ! i)))
         \<and> datagrams (summary (tx (test_streams v ! k))) = datagrams (summary (tx (ss ! i)))))"
proof -
  define u1 where "u1 = (if ctrl_chn u = None then u\<lparr>ctrl_chn := Some cn\<rparr> else u)"
  obtain c1 where u1: "ctrl_chn u1 = Some c1" "test_id u1 = test_id u" "t_state u1 = TEST_START" "printer u1"
      "test_streams u1 = test_streams u" "t_config u1 = t_config u"
    using u by (cases "ctrl_chn u") (auto simp: u1_def)
  let ?h = "(control_message (test_id u) 0x03)\<lparr>ctl_num_of_streams := word_of_nat (length ss)\<rparr>"
  let ?rel = "IsReliableProtocol (protocol (t_config u))"
  let ?ids = "map stream_identifier ss"
  have n: "unat (ctl_num_of_streams ?h) = length ?ids" using assms(2) by (simp add: unat_of_nat)
  have "returns (read_reports ?rel (ci_clock ci) m (length ?ids) (test_streams u) 32) (\<lambda>ss'. length ss' = length (test_streams u)
    \<and> (\<forall>k < length (test_streams u). (\<forall>i < length ?ids. stream_identifier (test_streams u ! k) = ?ids ! i \<longrightarrow>
          ss' ! k = take_report ?rel (ci_clock ci) m (32 + 32 * i + 8) (test_streams u ! k))
         \<and> (stream_identifier (test_streams u ! k) \<notin> set ?ids \<longrightarrow> ss' ! k = test_streams u ! k)))"
    by (rule read_reports_ok) (use m dist assms(2) in \<open>auto simp: is_summary_def has_record_def\<close>)
  then obtain ss' where ss': "read_reports ?rel (ci_clock ci) m (length ss) (test_streams u) 32 = Inr ss'"
      "length ss' = length (test_streams u)"
      "\<And>k i. k < length (test_streams u) \<Longrightarrow> i < length ss \<Longrightarrow> stream_identifier (test_streams u ! k) = stream_identifier (ss ! i) \<Longrightarrow>
          ss' ! k = take_report ?rel (ci_clock ci) m (32 + 32 * i + 8) (test_streams u ! k)"
    by (auto simp: returns_def)
  have rec: "bytes (summary (tx (ss' ! k))) = bytes (summary (tx (ss ! i))) \<and> datagrams (summary (tx (ss' ! k))) = datagrams (summary (tx (ss ! i)))"
    if "k < length (test_streams u)" "i < length ss" "stream_identifier (test_streams u ! k) = stream_identifier (ss ! i)" for k i
    using ss'(3) [OF that] take_report_record [of m "32 + 32 * i" "ss ! i" "test_streams u ! k" ?rel "ci_clock ci"] m that
    by (simp add: is_summary_def)
  have pr: "tx (PrintSendRecvSummary s) = tx s" for s :: "('c, 'd) IperfStream"
    by (simp add: PrintSendRecvSummary_def PrintSendSummary_def PrintReceiveSummary_def)
  have hc: "HandleControlMessage E ci cn m u = HandleSummaryMessage (ci_clock ci) ?h m u1"
    using m u1 by (simp add: HandleControlMessage_def is_summary_def control_message_def zero_control_def flip: u1_def)
  show ?thesis
    unfolding hc HandleSummaryMessage_def using u1 ss' n m rec pr u(2)
    by (auto simp: Let_def sizeof_control_def control_message_def ack_state_def zero_control_def
      intro!: wp TryPrintSummary_ok) blast+
qed

end
