(* ===== verification/Test_Properties.thy ===== *)
theory Test_Properties
  imports Test_Messages Stream_Properties
begin

text \<open>
  The properties of a throughput test, each with a concrete instance.
\<close>

section \<open>Example values\<close>

text \<open>A sender with one stream that has taken two snapshots, and the receiver of its test.\<close>

definition example_sent :: "(u64 list, unit) IperfStream" where
  "example_sent = upd_sender (\<lambda>r. r\<lparr>snapshot_cnt := 2, summary := (summary r)\<lparr>bytes := 1000, datagrams := 20\<rparr>\<rparr>) (example_stream ROLE_SENDER)"

definition example_test :: "TestRole \<Rightarrow> (u64 list, unit) IperfTest" where
  "example_test r = (new_test_id 5 (example_config r) 1)\<lparr>ctrl_chn := Some 3, printer := True\<rparr>"

definition example_test_env :: "(u64 list, unit) test_env" where
  "example_test_env = \<lparr>env_lib = example_lib, env_recorder = [], env_shaper = (\<lambda>_. None)\<rparr>"

definition example_ctrl_in :: ctrl_in where
  "example_ctrl_in = \<lparr>ci_clock = example_clock 50, ci_clocks = (\<lambda>i. example_clock 60), ci_ifaddrs = None\<rparr>"

lemma example_test_fields [simp]:
  "ctrl_chn (example_test r) = Some 3" "printer (example_test r)" "test_id (example_test r) = 5" "t_config (example_test r) = example_config r"
  "test_streams (example_test r) = []" "t_state (example_test r) = TEST_NONE" "g_stream_id (example_test r) = 1" "passed_ticks (example_test r) = 0"
  by (simp_all add: example_test_def new_test_id_def new_IIperfTest_def IIperfTest.defs IperfTest.defs)

lemma example_config_fields:
  "role (example_config r) = r" "num_streams (example_config r) = 1" "interval (example_config r) = Fin 1" "time (example_config r) = Fin 10"
  "port (example_config r) = 5201" "protocol (example_config r) = 1"
  by (simp_all add: example_config_def TestConfig_init_def)

lemma example_sent_rate: "rate_ok (FinishReport ck example_sent)"
proof -
  let ?r = "TestReport_init\<lparr>snapshot_cnt := 2, summary := (summary TestReport_init)\<lparr>bytes := 1000, datagrams := 20\<rparr>\<rparr>"
  have "\<exists>w. rate_to_wire (summary_rate ?r (Fin 1)) = Inr w" by (rule exI [of _ 50000]) code_simp
  then show ?thesis
    by (simp add: rate_ok_def example_sent_def FinishReport_def GenSendSummary_def Let_def example_config_fields)
qed

section \<open>Reports are exchanged\<close>

lemma FinishReport_sent:
  "bytes (summary (tx (FinishReport ck s))) = bytes (summary (tx s))"
  "datagrams (summary (tx (FinishReport ck s))) = datagrams (summary (tx s))"
  by (simp_all add: FinishReport_def Let_def GenSendSummary_def GenReceiveSummary_def PrintLastInterval_def)

lemma ack_ends_test:
  assumes "read_control a = Inr (control_message (test_id t) 0x04)" and "t_state t = TEST_EXCHANGE_REPORTS"
  shows "returns (HandleControlMessage E ci cn a t) (\<lambda>t'. t_state t' = TEST_DONE)"
  using assms by (cases "ctrl_chn t")
    (simp_all add: HandleControlMessage_def HandleAckMessage_def control_message_def returns_def)

text \<open>The sent totals of stream \<open>s\<close> are those that stream \<open>r\<close> of the peer holds.\<close>

definition same_totals :: "('r, 'f) IperfStream \<Rightarrow> ('q, 'g) IperfStream \<Rightarrow> bool" where
  "same_totals s r \<longleftrightarrow> bytes (summary (tx r)) = bytes (summary (tx s)) \<and> datagrams (summary (tx r)) = datagrams (summary (tx s))"

text \<open>
  C4. The reports of a test are exchanged: the summary that a sender of at most 33 streams emits when its test time is over
  gives the receiver, which pairs the streams by their identifiers whatever their order, the exact totals of every stream;
  the receiver answers and is done, and its answer makes the sender done.
\<close>

theorem summary_delivered:
  fixes t :: "('r, 'f) IperfTest" and u :: "('q, 'g) IperfTest"
  assumes t: "ctrl_chn t = Some cn" "test_id t \<noteq> 0" "printer t" "role (t_config t) \<noteq> ROLE_NONE" "length (test_streams t) \<le> 33"
      "\<forall>s \<in> set (test_streams t). rate_ok (FinishReport ck s)"
    and ids: "distinct (map stream_identifier (test_streams t))" "distinct (map stream_identifier (test_streams u))"
      "stream_identifier ` set (test_streams t) \<subseteq> stream_identifier ` set (test_streams u)"
    and u: "t_state u = TEST_START" "test_id u = test_id t" "printer u"
  shows "returns (OnSentFinished ck t) (\<lambda>t'. t_state t' = TEST_EXCHANGE_REPORTS \<and> (\<exists>msg. last (t_out t') = CtrlSend cn msg \<and>
    returns (HandleControlMessage E ci cn' msg u) (\<lambda>v. t_state v = TEST_DONE
      \<and> length (test_streams v) = length (test_streams u)
      \<and> (\<forall>k < length (test_streams u). \<forall>s \<in> set (test_streams t).
           stream_identifier (test_streams u ! k) = stream_identifier s \<longrightarrow> same_totals s (test_streams v ! k))
      \<and> (\<exists>cn'' a. CtrlSend cn'' a \<in> set (t_out v) \<and>
           returns (HandleControlMessage E' ci' cn a t') (\<lambda>t''. t_state t'' = TEST_DONE)))))"
proof -
  define w where "w = t_emit SentSummaryHeader (t\<lparr>test_streams := map (FinishReport ck) (test_streams t)\<rparr>)"
  have w: "ctrl_chn w = Some cn" "test_id w = test_id t" "test_streams w = map (FinishReport ck) (test_streams t)"
    using t(1) by (simp_all add: w_def)
  have ow: "OnSentFinished ck t = SendTestSummary w" using t(3,4) by (simp add: OnSentFinished_def w_def)
  have "returns (SendTestSummary w) (\<lambda>u. \<exists>m. is_summary m (test_id w) (test_streams w)
      \<and> u = (t_emit (CtrlSend cn m) w)\<lparr>t_state := TEST_EXCHANGE_REPORTS\<rparr>)"
    by (rule SendTestSummary_ok) (use w t in auto)
  then obtain m where m: "is_summary m (test_id u) (test_streams w)"
      "SendTestSummary w = Inr ((t_emit (CtrlSend cn m) w)\<lparr>t_state := TEST_EXCHANGE_REPORTS\<rparr>)"
    using w(2) u(2) by (auto simp: returns_def)
  let ?t' = "(t_emit (CtrlSend cn m) w)\<lparr>t_state := TEST_EXCHANGE_REPORTS\<rparr>"
  have id_w: "map stream_identifier (test_streams w) = map stream_identifier (test_streams t)" by (simp add: w(3))
  have set_w: "stream_identifier ` set (test_streams w) = stream_identifier ` set (test_streams t)"
    using id_w by (metis list.set_map)
  obtain v where v: "HandleControlMessage E ci cn' m u = Inr v" "t_state v = TEST_DONE"
      "\<exists>cn'' a. CtrlSend cn'' a \<in> set (t_out v) \<and> read_control a = Inr (control_message (test_id u) 0x04)"
      "length (test_streams v) = length (test_streams u)"
      "\<forall>k < length (test_streams u). \<forall>i < length (test_streams w).
         stream_identifier (test_streams u ! k) = stream_identifier (test_streams w ! i) \<longrightarrow>
         bytes (summary (tx (test_streams v ! k))) = bytes (summary (tx (test_streams w ! i)))
         \<and> datagrams (summary (tx (test_streams v ! k))) = datagrams (summary (tx (test_streams w ! i)))"
  proof -
    have "length (test_streams w) \<le> 33" and "test_id u \<noteq> 0" using w(3) t(2,5) u(2) by simp_all
    moreover have "distinct (map stream_identifier (test_streams w))"
      and "stream_identifier ` set (test_streams w) \<subseteq> stream_identifier ` set (test_streams u)"
      unfolding id_w set_w by (rule ids(1), rule ids(3))
    ultimately show thesis using that summary_received [OF m(1) _ _ ids(2) _ u(1) _ u(3), of E ci cn']
      unfolding returns_def by blast
  qed
  have tot: "same_totals s (test_streams v ! k)"
    if k: "k < length (test_streams u)" "s \<in> set (test_streams t)" "stream_identifier (test_streams u ! k) = stream_identifier s" for k s
  proof -
    obtain i where i: "i < length (test_streams t)" "s = test_streams t ! i" using k(2) by (metis in_set_conv_nth)
    then show ?thesis using v(5) k w(3) by (auto simp: same_totals_def FinishReport_sent)
  qed
  obtain cn'' a where a: "CtrlSend cn'' a \<in> set (t_out v)" "read_control a = Inr (control_message (test_id u) 0x04)"
    using v(3) by blast
  have "returns (HandleControlMessage E' ci' cn a ?t') (\<lambda>t''. t_state t'' = TEST_DONE)"
    by (rule ack_ends_test) (use a(2) u(2) w(2) in simp_all)
  then show ?thesis
    unfolding ow m(2) using v(1,2,4) tot a(1) by (auto simp: returns_def [of "Inr _"])
qed

theorem summary_delivered_witness:
  "\<exists>t' msg v. OnSentFinished (example_clock 40) ((example_test ROLE_SENDER)\<lparr>test_streams := [example_sent]\<rparr>) = Inr t'
     \<and> last (t_out t') = CtrlSend 3 msg
     \<and> HandleControlMessage example_test_env example_ctrl_in 4 msg
          ((example_test ROLE_RECEIVER)\<lparr>test_streams := [example_stream ROLE_RECEIVER], t_state := TEST_START\<rparr>) = Inr v
     \<and> bytes (summary (tx (test_streams v ! 0))) = 1000 \<and> t_state v = TEST_DONE"
proof -
  let ?t = "(example_test ROLE_SENDER)\<lparr>test_streams := [example_sent]\<rparr>"
  let ?u = "(example_test ROLE_RECEIVER)\<lparr>test_streams := [example_stream ROLE_RECEIVER], t_state := TEST_START\<rparr>"
  have st: "stream_identifier example_sent = 7" "bytes (summary (tx example_sent)) = 1000"
    by (simp_all add: example_sent_def)
  have "returns (OnSentFinished (example_clock 40) ?t) (\<lambda>t'. t_state t' = TEST_EXCHANGE_REPORTS \<and> (\<exists>msg. last (t_out t') = CtrlSend 3 msg \<and>
    returns (HandleControlMessage example_test_env example_ctrl_in 4 msg ?u) (\<lambda>v. t_state v = TEST_DONE
      \<and> length (test_streams v) = length (test_streams ?u)
      \<and> (\<forall>k < length (test_streams ?u). \<forall>s \<in> set (test_streams ?t).
           stream_identifier (test_streams ?u ! k) = stream_identifier s \<longrightarrow> same_totals s (test_streams v ! k))
      \<and> (\<exists>cn'' a. CtrlSend cn'' a \<in> set (t_out v) \<and>
           returns (HandleControlMessage example_test_env example_ctrl_in 3 a t') (\<lambda>t''. t_state t'' = TEST_DONE)))))"
    by (rule summary_delivered) (use example_sent_rate st in \<open>simp_all add: example_config_fields\<close>)
  then show ?thesis using st by (auto simp: returns_def same_totals_def)
qed

text \<open>
  C32. The buffer of a summary message has room for the records of exactly 33 streams: with convertible rates the message is
  sent if and only if the test has at most that many; from 34 streams on the serialisation runs over the end of the buffer.
\<close>

theorem summary_capacity:
  assumes "ctrl_chn t \<noteq> None" and "test_id t \<noteq> 0" and "\<forall>s \<in> set (test_streams t). rate_ok s"
  shows "returns (SendTestSummary t) (\<lambda>u. t_state u = TEST_EXCHANGE_REPORTS) \<longleftrightarrow> length (test_streams t) \<le> 33"
proof
  assume "returns (SendTestSummary t) (\<lambda>u. t_state u = TEST_EXCHANGE_REPORTS)"
  then show "length (test_streams t) \<le> 33"
    using SendTestSummary_overrun [OF assms(1)] by (force simp: returns_def)
next
  assume "length (test_streams t) \<le> 33"
  moreover obtain cn where "ctrl_chn t = Some cn" using assms(1) by blast
  ultimately have "returns (SendTestSummary t) (\<lambda>u. \<exists>m. is_summary m (test_id t) (test_streams t)
    \<and> u = (t_emit (CtrlSend cn m) t)\<lparr>t_state := TEST_EXCHANGE_REPORTS\<rparr>)"
    using SendTestSummary_ok assms(2,3) by blast
  then show "returns (SendTestSummary t) (\<lambda>u. t_state u = TEST_EXCHANGE_REPORTS)" by (rule returns_mono) auto
qed

theorem summary_capacity_witness:
  "\<not> returns (SendTestSummary ((example_test ROLE_SENDER)\<lparr>test_streams := replicate 34 (FinishReport (example_clock 40) example_sent)\<rparr>))
       (\<lambda>u. t_state u = TEST_EXCHANGE_REPORTS)"
  using summary_capacity [of "(example_test ROLE_SENDER)\<lparr>test_streams := replicate 34 (FinishReport (example_clock 40) example_sent)\<rparr>"]
    example_sent_rate by simp

section \<open>Parameters are exchanged\<close>

lemma open_stream_ok:
  assumes "connector_config (t_config t) = Inr bc"
  shows "returns (open_stream E ck t) (\<lambda>u. \<exists>s. u = t\<lparr>test_streams := test_streams t @ [s], g_stream_id := g_stream_id t + 1\<rparr>
    \<and> stream_identifier s = mono_ms ck + word_of_int (g_stream_id t) \<and> conn_state s = CONN_CONNECTING)"
proof -
  obtain b where b: "new_stream (env_recorder E) (env_shaper E (max_allowed_sending_rate (t_config t))) (t_config t) (g_stream_id t) (mono_ms ck)
      = Inr ((blank_stream (env_recorder E) (env_shaper E (max_allowed_sending_rate (t_config t))) (t_config t) (g_stream_id t))
        \<lparr>stream_identifier := mono_ms ck + word_of_int (g_stream_id t), iperf_data := b, connector := True\<rparr>)"
    using new_stream_defined [OF assms, of "env_recorder E" "env_shaper E (max_allowed_sending_rate (t_config t))"] by blast
  define s0 where "s0 = (blank_stream (env_recorder E) (env_shaper E (max_allowed_sending_rate (t_config t))) (t_config t) (g_stream_id t))
        \<lparr>stream_identifier := mono_ms ck + word_of_int (g_stream_id t), iperf_data := b, connector := True\<rparr>"
  have s0: "connector s0" "thread s0 = T_None" "stream_identifier s0 = mono_ms ck + word_of_int (g_stream_id t)"
    by (simp_all add: s0_def blank_stream_def)
  obtain s1 where s1: "StartConnect s0 = Inr s1" "thread s1 = T_None" "conn_state s1 = CONN_CONNECTING"
      "stream_identifier s1 = mono_ms ck + word_of_int (g_stream_id t)"
    using s0 by (simp add: StartConnect_def)
  have "returns (StartSend ck s1) (\<lambda>s2. conn_state s2 = CONN_CONNECTING
      \<and> stream_identifier s2 = mono_ms ck + word_of_int (g_stream_id t))"
    using s1(2-4) by (simp add: StartSend_def Let_def returns_def split: if_split)
  then obtain s2 where s2: "StartSend ck s1 = Inr s2" "conn_state s2 = CONN_CONNECTING"
      "stream_identifier s2 = mono_ms ck + word_of_int (g_stream_id t)"
    by (auto simp: returns_def)
  show ?thesis
    using b [folded s0_def] s1 s2 by (simp add: open_stream_def Let_def returns_def) blast
qed

lemma open_streams_ok:
  assumes "connector_config (t_config t) = Inr bc"
  shows "returns (rfold (\<lambda>i. open_stream E (cks i)) [0 ..< n] t) (\<lambda>u. \<exists>ss.
      u = t\<lparr>test_streams := test_streams t @ ss, g_stream_id := g_stream_id t + int n\<rparr> \<and> length ss = n
      \<and> (\<forall>i < n. stream_identifier (ss ! i) = mono_ms (cks i) + word_of_int (g_stream_id t + int i) \<and> conn_state (ss ! i) = CONN_CONNECTING))"
proof (induction n)
  case 0
  then show ?case by (simp add: returns_def)
next
  case (Suc n)
  then obtain ss where ss: "rfold (\<lambda>i. open_stream E (cks i)) [0 ..< n] t
        = Inr (t\<lparr>test_streams := test_streams t @ ss, g_stream_id := g_stream_id t + int n\<rparr>)" "length ss = n"
      "\<forall>i < n. stream_identifier (ss ! i) = mono_ms (cks i) + word_of_int (g_stream_id t + int i) \<and> conn_state (ss ! i) = CONN_CONNECTING"
    by (auto simp: returns_def)
  let ?u = "t\<lparr>test_streams := test_streams t @ ss, g_stream_id := g_stream_id t + int n\<rparr>"
  have "returns (open_stream E (cks n) ?u) (\<lambda>u. \<exists>s. u = ?u\<lparr>test_streams := test_streams ?u @ [s], g_stream_id := g_stream_id ?u + 1\<rparr>
    \<and> stream_identifier s = mono_ms (cks n) + word_of_int (g_stream_id ?u) \<and> conn_state s = CONN_CONNECTING)"
    by (rule open_stream_ok) (use assms in simp)
  then obtain s where s: "open_stream E (cks n) ?u = Inr (?u\<lparr>test_streams := test_streams ?u @ [s], g_stream_id := g_stream_id ?u + 1\<rparr>)"
      "stream_identifier s = mono_ms (cks n) + word_of_int (g_stream_id ?u)" "conn_state s = CONN_CONNECTING"
    by (auto simp: returns_def)
  have "\<forall>i < Suc n. stream_identifier ((ss @ [s]) ! i) = mono_ms (cks i) + word_of_int (g_stream_id t + int i)
      \<and> conn_state ((ss @ [s]) ! i) = CONN_CONNECTING"
    using ss(2,3) s(2,3) by (auto simp: nth_append less_Suc_eq)
  then show ?case using ss(1,2) s(1)
    by (auto simp: rfold_append returns_def intro!: exI [of _ "ss @ [s]"])
qed

text \<open>With a clock that does not go back and no wrap-around the identifiers of the streams of a test are different.\<close>

lemma identifiers_distinct:
  assumes "length ss = n" and "\<forall>i < n. stream_identifier (ss ! i) = mono_ms (cks i) + word_of_int (sid + int i)"
    and "0 \<le> sid" and "\<forall>i < n. unat (mono_ms (cks i)) + nat sid + n < 2 ^ 64"
    and "\<forall>i j. i \<le> j \<longrightarrow> j < n \<longrightarrow> mono_ms (cks i) \<le> mono_ms (cks j)"
  shows "distinct (map stream_identifier ss)"
proof -
  have val: "unat (stream_identifier (ss ! i)) = unat (mono_ms (cks i)) + (nat sid + i)" if "i < n" for i
  proof -
    have "word_of_int (sid + int i) = (word_of_nat (nat sid + i) :: u64)" using assms(3) by simp
    then have "stream_identifier (ss ! i) = word_of_nat (unat (mono_ms (cks i)) + (nat sid + i))"
      using assms(2) that by simp
    moreover have "unat (mono_ms (cks i)) + (nat sid + i) < 2 ^ 64" using assms(4) that by fastforce
    ultimately show ?thesis by (simp only: unat_of_nat) simp
  qed
  have "stream_identifier (ss ! i) \<noteq> stream_identifier (ss ! j)" if ij: "i < j" "j < n" for i j
  proof -
    have "unat (mono_ms (cks i)) \<le> unat (mono_ms (cks j))" using assms(5) ij by (simp add: word_le_nat_alt)
    then show ?thesis using val [of i] val [of j] ij by auto
  qed
  then have "map stream_identifier ss ! i \<noteq> map stream_identifier ss ! j" if "i < n" "j < n" "i \<noteq> j" for i j
    using that assms(1) by (metis linorder_neqE_nat nth_map)
  then show ?thesis using assms(1) by (simp add: distinct_conv_nth)
qed

definition is_parameters :: "octet list \<Rightarrow> u32 \<Rightarrow> TestConfig \<Rightarrow> u32 \<Rightarrow> u32 \<Rightarrow> bool" where
  "is_parameters m ident c wi wt \<longleftrightarrow> length m = 300
     \<and> (\<exists>h. read_control m = Inr h \<and> ctl_test_id h = ident \<and> ctl_action_code h = 2)
     \<and> load32 m 32 = Inr wi \<and> load32 m 36 = Inr wt \<and> load8 m 40 = Inr (word_of_int (protocol c))
     \<and> load8 m 41 = Inr (if is_reverse_enabled c then 1 else 0) \<and> load16 m 42 = Inr (word_of_int (port c))"

lemma parameters_sent:
  assumes "ctrl_chn t = Some cn" and "test_id t \<noteq> 0"
    and "seconds_to_wire (interval (t_config t)) = Inr wi" and "seconds_to_wire (time (t_config t)) = Inr wt"
  shows "\<exists>m. is_parameters m (test_id t) (t_config t) wi wt
    \<and> SendTestParameters t = Inr ((t_emit (CtrlSend cn m) t)\<lparr>t_state := TEST_EXCHANGE_PARAMETERS\<rparr>)"
proof -
  define h where "h = (control_message (test_id t) 2)\<lparr>ctl_num_of_streams := word_of_nat (length (test_streams t))\<rparr>"
  have h: "ctl_test_id h = test_id t" "ctl_action_code h = 2" by (simp_all add: h_def control_message_def)
  obtain b where b: "write_control (replicate 300 0) h = Inr b" "length b = 300" "read_control b = Inr h"
    using write_control_ok [of "replicate 300 0" h] by auto
  obtain b' where b': "Serialize (t_config t) b 32 = Inr (b', 44)" "length b' = 300"
      "load32 b' 32 = Inr wi" "load32 b' 36 = Inr wt" "load8 b' 40 = Inr (word_of_int (protocol (t_config t)))"
      "load8 b' 41 = Inr (if is_reverse_enabled (t_config t) then 1 else 0)" "load16 b' 42 = Inr (word_of_int (port (t_config t)))"
      "\<forall>q n. q + n \<le> 32 \<or> 44 \<le> q \<longrightarrow> peek b' q n = peek b q n"
    using Serialize_ok [OF assms(3,4), of 32 b] b(2) by auto
  have "read_control b' = Inr h" using b'(8) b(3) read_control_cong [of b' b] by simp
  moreover have "SendTestParameters t = Inr ((t_emit (CtrlSend cn b') t)\<lparr>t_state := TEST_EXCHANGE_PARAMETERS\<rparr>)"
    unfolding SendTestParameters_def Id_def using assms(1,2) b(1) b'(1)
    by (simp add: h_def [symmetric] sizeof_control_def send_ctrl_def)
  ultimately show ?thesis using h b' by (auto simp: is_parameters_def)
qed

text \<open>What the receiver \<open>v\<close> knows of the parameters \<open>c\<close> of the sender.\<close>

definition knows :: "TestConfig \<Rightarrow> u32 \<Rightarrow> u32 \<Rightarrow> ('r, 'f) IperfTest \<Rightarrow> bool" where
  "knows c wi wt v \<longleftrightarrow> protocol (t_config v) = protocol c \<and> port (t_config v) = port c
     \<and> is_reverse_enabled (t_config v) = is_reverse_enabled c \<and> interval (t_config v) = seconds_of_wire wi
     \<and> time (t_config v) = seconds_of_wire wt \<and> num_streams (t_config v) = 1 \<and> role (t_config v) = ROLE_RECEIVER"

lemma parameters_received:
  assumes m: "is_parameters m (test_id u) c wi wt"
    and fit: "0 \<le> protocol c" "protocol c < 256" "0 \<le> port c" "port c < 65536"
    and ms: "timeout_of (TestConfig_init\<lparr>interval := seconds_of_wire wi, time := seconds_of_wire wt\<rparr>) = Inr ms"
    and u: "t_state u = TEST_NONE" "test_id u \<noteq> 0" "printer u"
  shows "returns (HandleControlMessage E ci cn m u) (\<lambda>v. t_state v = TEST_START \<and> knows c wi wt v
    \<and> test_streams v = test_streams u \<and> (\<exists>addr bc. Listen addr (word_of_int (port c)) bc \<in> set (t_out v))
    \<and> (\<exists>cn' a. CtrlSend cn' a \<in> set (t_out v) \<and> read_control a = Inr (control_message (test_id u) 0x04)))"
proof -
  define u1 where "u1 = (if ctrl_chn u = None then u\<lparr>ctrl_chn := Some cn\<rparr> else u)"
  obtain c1 where u1: "ctrl_chn u1 = Some c1" "test_id u1 = test_id u" "t_state u1 = TEST_NONE" "printer u1" "test_streams u1 = test_streams u"
    using u by (cases "ctrl_chn u") (auto simp: u1_def)
  obtain h where h: "read_control m = Inr h" "ctl_test_id h = test_id u" "ctl_action_code h = 2"
    using m by (auto simp: is_parameters_def)
  have hc: "HandleControlMessage E ci cn m u = HandleTestParameters (ci_ifaddrs ci) m u1"
    using h u1 by (simp add: HandleControlMessage_def flip: u1_def)
  have bytes: "uint (word_of_int (protocol c) :: octet) = protocol c" "uint (word_of_int (port c) :: u16) = port c"
    using fit by (simp_all add: uint_word_of_int)
  define d where "d = TestConfig_init\<lparr>interval := seconds_of_wire wi, time := seconds_of_wire wt, protocol := protocol c,
      is_reverse_enabled := is_reverse_enabled c, port := port c\<rparr>"
  have d: "Deserialize TestConfig_init m 32 = Inr d"
    using m bytes by (simp add: is_parameters_def Deserialize_def d_def)
  have flds: "interval d = seconds_of_wire wi" "time d = seconds_of_wire wt" "protocol d = protocol c" "port d = port c"
    "is_reverse_enabled d = is_reverse_enabled c" "num_streams d = 1"
    by (simp_all add: d_def TestConfig_init_def)
  have "timeout_of d = Inr ms" using ms flds(1,2) by (simp add: timeout_of_def)
  then obtain bc where bc: "data_listen_config d = Inr bc" by (simp add: data_listen_config_def Let_def)
  show ?thesis
    unfolding hc HandleTestParameters_def using u1 d bc flds u(2)
    by (auto simp: sizeof_control_def Let_def knows_def ack_state_def intro!: wp) blast+
qed

text \<open>
  C9. The parameters of a test are exchanged and its streams are opened: the receiver of the message that a sender emits
  when its control channel is established takes over protocol, port and direction, the interval and the duration as the
  wire carries them, listens on the data port and answers; the answer makes the sender open exactly the requested number of
  streams, all connecting and with different identifiers if its clock does not go back. The number of streams is not
  transmitted: the receiver expects one.
\<close>

theorem parameters_exchanged:
  fixes t :: "('r, 'f) IperfTest" and u :: "('q, 'g) IperfTest"
  assumes t: "ctrl_chn t = Some cn" "test_id t \<noteq> 0" "connector_config (t_config t) = Inr bc" "num_streams (t_config t) = int n"
      "test_streams t = []"
    and wire: "seconds_to_wire (interval (t_config t)) = Inr wi" "seconds_to_wire (time (t_config t)) = Inr wt"
      "timeout_of (TestConfig_init\<lparr>interval := seconds_of_wire wi, time := seconds_of_wire wt\<rparr>) = Inr ms"
      "0 \<le> protocol (t_config t)" "protocol (t_config t) < 256" "0 \<le> port (t_config t)" "port (t_config t) < 65536"
    and u: "t_state u = TEST_NONE" "test_id u = test_id t" "printer u"
    and clocks: "0 \<le> g_stream_id t" "\<forall>i < n. unat (mono_ms (ci_clocks ci' i)) + nat (g_stream_id t) + n < 2 ^ 64"
      "\<forall>i j. i \<le> j \<longrightarrow> j < n \<longrightarrow> mono_ms (ci_clocks ci' i) \<le> mono_ms (ci_clocks ci' j)"
  shows "returns (SendTestParameters t) (\<lambda>t'. \<exists>msg. last (t_out t') = CtrlSend cn msg \<and>
    returns (HandleControlMessage E ci cn' msg u) (\<lambda>v. t_state v = TEST_START \<and> knows (t_config t) wi wt v
      \<and> (\<exists>addr bc. Listen addr (word_of_int (port (t_config t))) bc \<in> set (t_out v))
      \<and> (\<exists>cn'' a. CtrlSend cn'' a \<in> set (t_out v) \<and>
           returns (HandleControlMessage E' ci' cn a t') (\<lambda>t''. t_state t'' = TEST_START \<and> length (test_streams t'') = n
             \<and> distinct (map stream_identifier (test_streams t''))
             \<and> (\<forall>s \<in> set (test_streams t''). conn_state s = CONN_CONNECTING)))))"
proof -
  obtain m where m: "is_parameters m (test_id u) (t_config t) wi wt"
      "SendTestParameters t = Inr ((t_emit (CtrlSend cn m) t)\<lparr>t_state := TEST_EXCHANGE_PARAMETERS\<rparr>)"
    using parameters_sent [OF t(1,2) wire(1,2)] u(2) by auto
  define t' where "t' = (t_emit (CtrlSend cn m) t)\<lparr>t_state := TEST_EXCHANGE_PARAMETERS\<rparr>"
  have t': "t_config t' = t_config t" "test_id t' = test_id t" "ctrl_chn t' = Some cn" "t_state t' = TEST_EXCHANGE_PARAMETERS"
    "test_streams t' = []" "g_stream_id t' = g_stream_id t" "last (t_out t') = CtrlSend cn m"
    using t by (simp_all add: t'_def)
  have opened: "returns (HandleControlMessage E' ci' cn a t') (\<lambda>t''. t_state t'' = TEST_START \<and> length (test_streams t'') = n
             \<and> distinct (map stream_identifier (test_streams t'')) \<and> (\<forall>s \<in> set (test_streams t''). conn_state s = CONN_CONNECTING))"
    if "read_control a = Inr (control_message (test_id u) 0x04)" for a
  proof -
    let ?t = "t'\<lparr>t_state := TEST_START\<rparr>"
    have "HandleControlMessage E' ci' cn a t' = rfold (\<lambda>i. open_stream E' (ci_clocks ci' i)) [0 ..< n] ?t"
      using that t' u(2) t(4) by (simp add: HandleControlMessage_def HandleAckMessage_def control_message_def)
    moreover have "connector_config (t_config ?t) = Inr bc" using t' t(3) by simp
    ultimately obtain ss where ss: "HandleControlMessage E' ci' cn a t' = Inr (?t\<lparr>test_streams := ss, g_stream_id := g_stream_id t + int n\<rparr>)"
        "length ss = n" "\<forall>i < n. stream_identifier (ss ! i) = mono_ms (ci_clocks ci' i) + word_of_int (g_stream_id t + int i)"
        "\<forall>i < n. conn_state (ss ! i) = CONN_CONNECTING"
      using open_streams_ok [of ?t bc E' "ci_clocks ci'" n] t' by (auto simp: returns_def)
    then show ?thesis
      using identifiers_distinct [OF ss(2,3) clocks] by (auto simp: returns_def in_set_conv_nth)
  qed
  have "test_id u \<noteq> 0" using t(2) u(2) by simp
  from parameters_received [OF m(1) wire(4-7) wire(3) u(1) this u(3), of E ci cn'] obtain v a cn'' addr lc where v:
      "HandleControlMessage E ci cn' m u = Inr v" "t_state v = TEST_START" "knows (t_config t) wi wt v"
      "Listen addr (word_of_int (port (t_config t))) lc \<in> set (t_out v)"
      "CtrlSend cn'' a \<in> set (t_out v)" "read_control a = Inr (control_message (test_id u) 0x04)"
    unfolding returns_def by blast
  show ?thesis
    unfolding m(2) t'_def [symmetric] using v(1-5) opened [OF v(6)] t'(7) by (auto simp: returns_def [of "Inr _"])
qed

theorem parameters_exchanged_witness:
  "\<exists>t' msg v. SendTestParameters (example_test ROLE_SENDER) = Inr t' \<and> last (t_out t') = CtrlSend 3 msg
     \<and> HandleControlMessage example_test_env example_ctrl_in 4 msg (example_test ROLE_NONE) = Inr v
     \<and> t_state v = TEST_START \<and> port (t_config v) = 5201 \<and> num_streams (t_config v) = 1"
proof -
  obtain bc where bc: "connector_config (example_config ROLE_SENDER) = Inr bc" using example_connector_config by blast
  have w: "seconds_to_wire (Fin 1) = Inr 100" "seconds_to_wire (Fin 10) = Inr 1000"
    "timeout_of (TestConfig_init\<lparr>interval := seconds_of_wire 100, time := seconds_of_wire 1000\<rparr>) = Inr 10000" by code_simp+
  note exchanged = parameters_exchanged [of "example_test ROLE_SENDER" 3 bc 1 100 1000 10000 "example_test ROLE_NONE" example_ctrl_in
      example_test_env example_ctrl_in 4 example_test_env]
  show ?thesis
    using exchanged bc w by (force simp: example_config_fields example_ctrl_in_def example_clock_def returns_def knows_def)
qed

section \<open>Polling\<close>

text \<open>
  An interval shorter than half a tick divides by zero: when the interval times the resolution rounds to zero, the
  first poll of a running test, on either side, takes the remainder by zero. Nothing rules out such an interval: the
  command line accepts any value and the wire carries it.
\<close>

theorem short_interval_divides_by_zero:
  assumes "role (t_config t) = ROLE_RECEIVER \<or> role (t_config t) = ROLE_SENDER \<and> t_state t \<noteq> TEST_DONE"
    and "ticks_per_interval (t_config t) = Inr 0" and "passed_ticks t < 2 ^ 31 - 1"
    and "\<not> fless (fmul Single (time (t_config t)) (resolution (t_config t))) (fl_int Single (passed_ticks t))"
  shows "TestFinishState ck t = Inl DivByZero"
  using assms by (auto simp: TestFinishState_def CheckStreamIntervalReceive_def tick_def Let_def)

definition example_short :: "(u64 list, unit) IperfTest" where
  "example_short = (example_test ROLE_SENDER)\<lparr>t_config := (example_config ROLE_SENDER)\<lparr>interval := Fin (1/32), resolution := Fin 10\<rparr>\<rparr>"

theorem short_interval_divides_by_zero_witness: "TestFinishState (example_clock 9) example_short = Inl DivByZero"
proof (rule short_interval_divides_by_zero)
  have "to_i32 (fround Single (fmul Single (Fin (1/32)) (Fin 10))) = Inr 0" by code_simp
  then show "ticks_per_interval (t_config example_short) = Inr 0" by (simp add: ticks_per_interval_def example_short_def)
  have "\<not> fless (fmul Single (Fin 10) (Fin 10)) (fl_int Single 0)" by code_simp
  then show "\<not> fless (fmul Single (time (t_config example_short)) (resolution (t_config example_short)))
      (fl_int Single (passed_ticks example_short))"
    by (simp add: example_config_fields example_short_def)
qed (simp_all add: example_config_fields example_short_def)

section \<open>Parallel streams\<close>

text \<open>Every event but a stop of the test, by the application or by the end of the control channel.\<close>

fun stops_test :: "test_event \<Rightarrow> bool" where
  "stops_test (TeStop ck) = True"
| "stops_test (TeControl ci cn ev d) = (ev = BATS_CONNECTION_CLOSED \<or> ev = BATS_CONNECTION_SHUTDOWN_BY_PEER)"
| "stops_test e = False"

definition crowded :: "('r, 'f) IperfTest \<Rightarrow> bool" where
  "crowded t \<longleftrightarrow> num_streams (t_config t) = 1 \<and> 2 \<le> length (test_streams t)"

lemma crowded_cong:
  "crowded t \<Longrightarrow> num_streams (t_config u) = num_streams (t_config t) \<Longrightarrow> length (test_streams t) \<le> length (test_streams u) \<Longrightarrow> crowded u"
  by (simp add: crowded_def)

lemma stream_list_lengths:
  "check_intervals ck ss = Inr ss' \<Longrightarrow> length ss' = length ss"
  "snapshot_streams ck ss = Inr (dead, ss') \<Longrightarrow> length ss' = length ss"
  "start_all ck ss = Inr ss' \<Longrightarrow> length ss' = length ss"
  by (induction ss arbitrary: ss' dead) (auto simp: rbind_eq_Inr rmap_eq_Inr split: if_splits)

lemma match_report_length: "match_report rel ck ident b ss p = Inr (ss', q) \<Longrightarrow> length ss' = length ss"
  by (induction ss arbitrary: ss' p) (auto simp: rbind_eq_Inr split: if_splits)

lemma read_reports_length: "read_reports rel ck b n ss p = Inr ss' \<Longrightarrow> length ss' = length ss"
  by (induction n arbitrary: ss p) (auto simp: rbind_eq_Inr dest: match_report_length)

lemmas list_lengths = stream_list_lengths match_report_length read_reports_length

lemma tick_keeps: "tick t = Inr (due, u) \<Longrightarrow> test_streams u = test_streams t \<and> t_config u = t_config t"
  by (auto simp: tick_def rbind_eq_Inr Let_def split: if_splits)

lemma sending_keeps:
  "SendTestReady t = Inr u \<Longrightarrow> test_streams u = test_streams t \<and> t_config u = t_config t"
  "SendAck t = Inr u \<Longrightarrow> test_streams u = test_streams t \<and> t_config u = t_config t"
  "SendTestSummary t = Inr u \<Longrightarrow> test_streams u = test_streams t \<and> t_config u = t_config t"
  "SendTestParameters t = Inr u \<Longrightarrow> test_streams u = test_streams t \<and> t_config u = t_config t"
  by (auto simp: SendTestReady_def SendAck_def SendTestSummary_def SendTestParameters_def send_ctrl_def rbind_eq_Inr
      split: if_splits option.splits)

lemma TryPrintSummary_keeps: "TryPrintSummary t = Inr u \<Longrightarrow> length (test_streams u) = length (test_streams t) \<and> t_config u = t_config t"
  by (auto simp: TryPrintSummary_def rbind_eq_Inr split: if_splits)

lemmas keeps = tick_keeps sending_keeps TryPrintSummary_keeps

lemma crowded_upd [simp]:
  "crowded (t\<lparr>t_state := st\<rparr>) = crowded t" "crowded (t\<lparr>ctrl_chn := cn\<rparr>) = crowded t" "crowded (t_emit x t) = crowded t"
  "crowded (t\<lparr>is_ready_received := r\<rparr>) = crowded t"
  by (simp_all add: crowded_def)

lemma crowded_tick: "tick t = Inr (due, u) \<Longrightarrow> crowded u = crowded t"
  by (simp add: crowded_def tick_keeps)

lemma crowded_intervals: "CheckStreamIntervalReceive ck t = Inr u \<Longrightarrow> crowded t \<Longrightarrow> crowded u"
  unfolding CheckStreamIntervalReceive_def
  by (auto simp: rbind_eq_Inr split: if_splits dest: crowded_tick) (simp add: crowded_def stream_list_lengths(1) tick_keeps)

lemma crowded_poll:
  assumes "TestFinishState ck t = Inr (r, u)" and "crowded t"
  shows "crowded u"
proof (cases "role (t_config t) = ROLE_SENDER \<and> t_state t \<noteq> TEST_DONE")
  case False
  then show ?thesis using assms by (auto simp: TestFinishState_def rmap_eq_Inr split: if_splits intro: crowded_intervals)
next
  case True
  then obtain due w where w: "tick t = Inr (due, w)" "crowded w"
      "(if due = Some True then Inr (True, w) else if due = None then Inr (False, w)
        else rbind (snapshot_streams ck (test_streams w)) (\<lambda>(dead, ss). let t = w\<lparr>test_streams := ss\<rparr> in
           if dead = length ss then Inr (True, t\<lparr>t_state := TEST_DONE\<rparr>) else Inr (False, t))) = Inr (r, u)"
    using assms by (auto simp: TestFinishState_def rbind_eq_Inr crowded_tick)
  have "crowded (w\<lparr>test_streams := ss\<rparr>)" if "snapshot_streams ck (test_streams w) = Inr (dead, ss)" for dead ss
    using stream_list_lengths(2) [OF that] w(2) by (simp add: crowded_def)
  then show ?thesis using w(2,3) by (auto simp: rbind_eq_Inr Let_def split: if_splits)
qed

lemma crowded_accept: "DataListenCallback E cn ideal ev t = Inr u \<Longrightarrow> crowded t \<Longrightarrow> crowded u"
  by (auto simp: DataListenCallback_def rbind_eq_Inr Let_def crowded_def split: BatsListenEvent.splits option.splits if_splits
      dest!: keeps)

lemma crowded_open: "rfold (\<lambda>i. open_stream E (cks i)) is t = Inr u \<Longrightarrow> crowded t \<Longrightarrow> crowded u"
  by (erule rfold_invariant) (auto simp: open_stream_def rbind_eq_Inr Let_def crowded_def)

lemma crowded_ack: "HandleAckMessage E cks t = Inr u \<Longrightarrow> crowded t \<Longrightarrow> crowded u"
  unfolding HandleAckMessage_def by (auto split: if_splits dest: crowded_open)

lemma crowded_summary: "HandleSummaryMessage ck h b t = Inr u \<Longrightarrow> crowded t \<Longrightarrow> crowded u"
  by (auto simp: HandleSummaryMessage_def rbind_eq_Inr Let_def crowded_def split: if_splits dest!: keeps list_lengths)

lemma crowded_parameters: "HandleTestParameters ifs b t = Inr u \<Longrightarrow> crowded t \<Longrightarrow> crowded u"
  by (auto simp: HandleTestParameters_def Deserialize_def TestConfig_init_def rbind_eq_Inr Let_def crowded_def split: if_splits dest!: keeps)

lemma crowded_ready: "HandleReadyMessage ck t = Inr u \<Longrightarrow> crowded t \<Longrightarrow> crowded u"
  by (auto simp: HandleReadyMessage_def rbind_eq_Inr Let_def crowded_def split: if_splits dest!: list_lengths)

lemma crowded_message:
  assumes "HandleControlMessage E ci cn b t = Inr u" and "crowded t"
  shows "crowded u"
proof -
  have "crowded (if ctrl_chn t = None then t\<lparr>ctrl_chn := Some cn\<rparr> else t)" using assms(2) by (simp add: crowded_def)
  then show ?thesis using assms(1) unfolding HandleControlMessage_def Let_def
    by (auto simp: rbind_eq_Inr split: if_splits dest: crowded_ack crowded_summary crowded_parameters crowded_ready)
qed

lemma crowded_control:
  assumes "ControlChannelConnectionCallback E ci cn ev d t = Inr u" and "crowded t"
    and "ev \<noteq> BATS_CONNECTION_CLOSED" "ev \<noteq> BATS_CONNECTION_SHUTDOWN_BY_PEER"
  shows "crowded u"
  using assms by (cases ev) (auto simp: ControlChannelConnectionCallback_def rbind_eq_Inr crowded_def [of "t_emit _ _"]
      intro: crowded_message dest!: keeps, auto simp: crowded_def)

lemma crowded_step:
  assumes "test_step E t e = Inr u" and "crowded t" and "\<not> stops_test e"
  shows "crowded u"
proof (cases e)
  case (TeStream i ev)
  then show ?thesis using assms by (auto simp: rbind_eq_Inr crowded_def split: if_splits)
next
  case (TeSentFinished ck)
  then show ?thesis using assms by (auto simp: OnSentFinished_def rbind_eq_Inr crowded_def split: if_splits dest!: keeps)
next
  case (TeControl ci cn ev d)
  then show ?thesis using assms by (auto intro: crowded_control)
qed (use assms in \<open>auto simp: rmap_eq_Inr IsStreamReady_def StartTest_def Let_def
      split: if_splits intro: crowded_poll crowded_accept crowded_message\<close>,
    auto simp: PrintStreamSendSummary_def crowded_def dest!: TryPrintSummary_keeps)

text \<open>
  C33. A receiver of several parallel streams never sees its test done: it expects the one stream that its default
  configuration names, so that, whatever the streams do and whichever messages arrive, the test counts as unfinished until
  it is stopped.
\<close>

theorem parallel_streams_never_done:
  assumes "num_streams (t_config t) = 1" and "2 \<le> length (test_streams t)"
    and "run_events (test_step E) es t = Inr u" and "\<forall>e \<in> set es. \<not> stops_test e"
  shows "\<not> IsStreamDone u"
proof -
  have "crowded t" using assms(1,2) by (simp add: crowded_def)
  then have "crowded u"
    using assms(3,4) by (induction es arbitrary: t) (auto simp: rbind_eq_Inr dest: crowded_step)
  then show ?thesis by (auto simp: crowded_def IsStreamDone_def)
qed

theorem parallel_streams_never_done_witness:
  "\<exists>u. run_events (test_step example_test_env)
        [TeStream 0 (EvStop (example_clock 8)), TeStream 1 (EvStop (example_clock 9)), TeReady]
        ((example_test ROLE_RECEIVER)\<lparr>test_streams := [example_stream ROLE_RECEIVER, example_stream ROLE_RECEIVER]\<rparr>) = Inr u
     \<and> \<not> IsStreamDone u"
proof -
  let ?es = "[TeStream 0 (EvStop (example_clock 8)), TeStream 1 (EvStop (example_clock 9)), TeReady]"
  let ?t = "(example_test ROLE_RECEIVER)\<lparr>test_streams := [example_stream ROLE_RECEIVER, example_stream ROLE_RECEIVER]\<rparr>"
  obtain u where u: "run_events (test_step example_test_env) ?es ?t = Inr u" by simp
  then have "\<not> IsStreamDone u"
    by (rule parallel_streams_never_done [rotated 2]) (simp_all add: example_config_fields)
  then show ?thesis using u by blast
qed

end
