(* ===== verification/Compressor.thy ===== *)
theory Compressor
  imports Floats
begin

text \<open>
  \<open>IperfCompressor\<close> (\<open>iperf_compress_api.h\<close>, \<open>iperf_compress_api.cc\<close>). The density library is not
  part of the repository: its four calls are the record \<open>density\<close>, with what a call writes into the
  output buffer as a list. A result of 0 bytes is the program's way to report failure.
\<close>

record density =
  density_compress_safe_size :: "nat \<Rightarrow> nat"
  density_decompress_safe_size :: "nat \<Rightarrow> nat"
  density_compress :: "octet list \<Rightarrow> nat \<Rightarrow> bool \<times> octet list"
  density_decompress :: "octet list \<Rightarrow> nat \<Rightarrow> bool \<times> octet list"

text \<open>
  \<open>inp\<close> is the input pointer (\<open>None\<close>: null), \<open>outp\<close> says that the output pointer is not null. The result
  is what was written, its length the number the function returns.
\<close>

definition Compress :: "density \<Rightarrow> octet list option \<Rightarrow> int \<Rightarrow> bool \<Rightarrow> int \<Rightarrow> octet list" where
  "Compress D inp len outp out_length =
     (case inp of None \<Rightarrow> []
      | Some data \<Rightarrow>
        if len \<le> 0 \<or> \<not> outp \<or> out_length \<le> 0 then []
        else if nat out_length < density_compress_safe_size D (nat len) then []
        else (case density_compress D (take (nat len) data) (nat out_length) of
                (ok, written) \<Rightarrow> if ok then written else []))"

definition Decompress :: "density \<Rightarrow> octet list option \<Rightarrow> int \<Rightarrow> bool \<Rightarrow> int \<Rightarrow> octet list" where
  "Decompress D inp len outp out_length =
     (case inp of None \<Rightarrow> []
      | Some data \<Rightarrow>
        if len \<le> 0 \<or> \<not> outp \<or> out_length \<le> 0 then []
        else if nat out_length < density_decompress_safe_size D (nat len) then []
        else (case density_decompress D (take (nat len) data) (nat out_length) of
                (ok, written) \<Rightarrow> if ok then written else []))"

text \<open>
  The documented behaviour of the library: a successful compression stays inside the output
  buffer; what at most \<open>m\<close> bytes are compressed to decompresses to them in a buffer of \<open>limit\<close> bytes, whose
  size the library calls safe.
\<close>

definition density_ok :: "density \<Rightarrow> nat \<Rightarrow> nat \<Rightarrow> bool" where
  "density_ok D m limit \<longleftrightarrow>
     (\<forall>data n c. density_compress D data n = (True, c) \<longrightarrow> length c \<le> n
        \<and> (c \<noteq> [] \<longrightarrow> length data \<le> m \<longrightarrow>
             density_decompress_safe_size D (length c) \<le> limit \<and> density_decompress D c limit = (True, data)))"

lemma density_okD:
  assumes "density_ok D m limit" and "density_compress D data n = (True, c)"
  shows "length c \<le> n" and "c \<noteq> [] \<Longrightarrow> length data \<le> m \<Longrightarrow> density_decompress_safe_size D (length c) \<le> limit"
    and "c \<noteq> [] \<Longrightarrow> length data \<le> m \<Longrightarrow> density_decompress D c limit = (True, data)"
  using assms by (auto simp: density_ok_def)

lemma Compress_within:
  assumes "density_ok D m limit" and "Compress D inp len outp out_length \<noteq> []"
  shows "length (Compress D inp len outp out_length) \<le> nat out_length"
  using assms by (auto simp: Compress_def split: option.splits prod.splits if_splits dest: density_okD(1))

lemma Decompress_Compress:
  assumes "density_ok D m limit" and "0 < limit" and "length data \<le> m"
    and "Compress D (Some data) (int (length data)) True out_length = c" and "c \<noteq> []"
  shows "Decompress D (Some c) (int (length c)) True (int limit) = data"
proof -
  have "density_compress D data (nat out_length) = (True, c)"
    using assms(4,5) by (auto simp: Compress_def split: prod.splits if_splits)
  from density_okD(2,3) [OF assms(1) this assms(5,3)] show ?thesis
    using assms(2,5) by (simp add: Decompress_def)
qed

end
