(* ===== verification/File_Transfer.thy ===== *)
theory File_Transfer
  imports Test_Api Compressor
begin

text \<open>
  \<open>IperfFileTransfer\<close> (\<open>iperf_file_transfer.h\<close>, \<open>iperf_file_transfer.cc\<close>): files sent over several
  BATS connections. The record extends the one of \<open>IIperfTest\<close>.

  The sending thread of a stream is a program counter (\<open>f_pc\<close>), its local variables (\<open>f_loc\<close>) and a
  step function: one step runs from one read of the shared variables to the next, and the callbacks of
  the connection change the shared variables between the steps. The send buffer is represented by
  what the program reads of it again: the header byte, and the message it sends.

  Outside the repository, and therefore the parameter \<open>file_env\<close>: the queue template
  (\<open>src/include/queue.h\<close>), the density library and the file system. The writer keeps its position
  in the file, so that two streams may write the same name. Calls of the BATS library, of the progress bar and
  of the printer are appended to \<open>x_out\<close>.
\<close>

record File =
  bar_id :: int
  file_sz :: int
  f_path :: string

record 'q file_env =
  Enqueue :: "File \<Rightarrow> 'q \<Rightarrow> 'q"
  Dequeue :: "'q \<Rightarrow> (File \<times> 'q) option"
  new_queue :: 'q
  density_lib :: density
  fs_size :: "string \<Rightarrow> nat option"
  fs_exists :: "string \<Rightarrow> bool"
  fs_content :: "string \<Rightarrow> octet list option"
  fs_can_open :: "string \<Rightarrow> bool"

section \<open>State\<close>

datatype file_pc = F_None | F_Fetch | F_Check | F_Wait | F_Block | F_Retry | F_Exited

text \<open>
  The local variables of the sending thread: the current file and its meta data, the header in the send
  buffer, what the reader has not read yet with its flags, and the message that is being sent.
\<close>

record sender_local =
  cur_file :: File
  bk_hdr :: file_bk_header
  file_meta_data :: file_meta
  reader_rest :: "octet list"
  reader_eof :: bool
  reader_bad :: bool
  total_file_length :: int
  sent_bytes :: u64
  send_msg :: "octet list"
  send_flag :: BatsSendFlag
  nread :: nat

text \<open>An output file: whether it could be opened, whether a write failed, and the position.\<close>

record ofstream =
  w_path :: string
  w_open :: bool
  w_bad :: bool
  w_pos :: nat

record FileStream =
  f_id :: nat
  f_is_connected :: bool
  f_is_writable :: bool
  f_is_done :: bool
  f_all_acked :: bool
  f_has_err_in_send :: bool
  f_ideal_buffer_length :: int
  f_stream :: "conn option"
  f_file_writer :: "ofstream option"
  f_write_bytes :: u64
  f_retry_cnt :: nat
  f_file_name :: string
  f_file_length :: u64
  f_pc :: file_pc
  f_loc :: sender_local

datatype file_out =
    FCtrlSend conn "octet list"
  | FLoadConfig BatsConfiguration
  | FConnect string u16 "nat option"
  | FListen string u16 BatsConfiguration
  | FSetCallback conn nat
  | FSent nat "octet list" BatsSendFlag bool
  | FSenderFailure
  | BarRegister nat string
  | BarUpdate nat int int
  | BarFinish nat

record 'q IperfFileTransfer = IIperfTest +
  x_listener :: bool
  x_connector :: "BatsConfiguration option"
  x_streams :: "FileStream list"
  x_pending :: 'q
  x_disk :: "string \<Rightarrow> octet list option"
  x_out :: "file_out list"

definition x_emit :: "file_out \<Rightarrow> 'q IperfFileTransfer \<Rightarrow> 'q IperfFileTransfer" where
  "x_emit x T = T\<lparr>x_out := x_out T @ [x]\<rparr>"

definition upd_stream :: "nat \<Rightarrow> (FileStream \<Rightarrow> FileStream) \<Rightarrow> 'q IperfFileTransfer \<Rightarrow> 'q IperfFileTransfer" where
  "upd_stream i f T = T\<lparr>x_streams := (x_streams T)[i := f (x_streams T ! i)]\<rparr>"

definition upd_loc :: "nat \<Rightarrow> (sender_local \<Rightarrow> sender_local) \<Rightarrow> 'q IperfFileTransfer \<Rightarrow> 'q IperfFileTransfer" where
  "upd_loc i g = upd_stream i (\<lambda>s. s\<lparr>f_loc := g (f_loc s)\<rparr>)"

definition goto :: "nat \<Rightarrow> file_pc \<Rightarrow> 'q IperfFileTransfer \<Rightarrow> 'q IperfFileTransfer" where
  "goto i pc = upd_stream i (\<lambda>s. s\<lparr>f_pc := pc\<rparr>)"

text \<open>The members of a fresh \<open>FileStream\<close>; the locals are zero, as the resized send buffer is.\<close>

definition zero_local :: sender_local where
  "zero_local = \<lparr>cur_file = \<lparr>bar_id = 0, file_sz = 0, f_path = ''''\<rparr>,
     bk_hdr = \<lparr>syn = False, fin = False, has_sum = False, has_comp = False, file_seq = 0\<rparr>,
     file_meta_data = \<lparr>fm_magic = 0, fm_stream_identifier = 0, fm_compression = 0, fm_reserved = 0, fm_file_length = 0,
        fm_sha256sum = replicate 64 0, fm_file_name = replicate 256 0, fm_file_extension = replicate 16 0\<rparr>,
     reader_rest = [], reader_eof = False, reader_bad = False, total_file_length = 0, sent_bytes = 0,
     send_msg = [], send_flag = BATS_SEND_FLAG_NONE, nread = 0\<rparr>"

definition new_FileStream :: "nat \<Rightarrow> FileStream" where
  "new_FileStream i = \<lparr>f_id = i, f_is_connected = False, f_is_writable = True, f_is_done = False,
     f_all_acked = False, f_has_err_in_send = False, f_ideal_buffer_length = 4096, f_stream = None,
     f_file_writer = None, f_write_bytes = 0, f_retry_cnt = 0, f_file_name = '''', f_file_length = 0,
     f_pc = F_None, f_loc = zero_local\<rparr>"

section \<open>Construction\<close>

definition new_transfer_id :: "'q file_env \<Rightarrow> u64 \<Rightarrow> TestConfig \<Rightarrow> 'q IperfFileTransfer" where
  "new_transfer_id E ident c = IIperfTest.extend (new_IIperfTest ident c)
     (IperfFileTransfer.fields False None [] (new_queue E) Map.empty [])"

text \<open>
  The loop of the sender's constructor: \<open>seen\<close> is \<open>unique_files\<close>, \<open>ident\<close> counts every name of the
  command line. Sizes are added in 64 bits.
\<close>

fun collect_files :: "'q file_env \<Rightarrow> string list \<Rightarrow> string set \<Rightarrow> int \<Rightarrow> u64 \<Rightarrow> 'q \<Rightarrow> u64 \<times> 'q" where
  "collect_files E [] seen ident tot q = (tot, q)"
| "collect_files E (file # rest) seen ident tot q =
     (if file \<in> seen then collect_files E rest seen (ident + 1) tot q
      else case fs_size E file of
             None \<Rightarrow> collect_files E rest (insert file seen) (ident + 1) tot q
           | Some sz \<Rightarrow>
             collect_files E rest (insert file seen) (ident + 1) (tot + word_of_nat sz)
               (Enqueue E \<lparr>bar_id = ident, file_sz = sint (word_of_nat sz :: i64), f_path = file\<rparr> q))"

definition new_transfer :: "'q file_env \<Rightarrow> u64 \<Rightarrow> TestConfig \<Rightarrow> 'q IperfFileTransfer" where
  "new_transfer E now c =
     (let (tot, q) = collect_files E (files c) {} 0 0 (new_queue E)
      in (new_transfer_id E now (c\<lparr>total_bytes_in_files := sint tot\<rparr>))\<lparr>x_pending := q\<rparr>)"

section \<open>The sending thread\<close>

definition IsInActive :: "'q IperfFileTransfer \<Rightarrow> nat \<Rightarrow> bool" where
  "IsInActive T i \<longleftrightarrow> f_is_connected (x_streams T ! i) \<and> t_state T \<noteq> TEST_DONE"

text \<open>
  What one step of the thread observes: the result of \<open>SendData\<close>, should it send, and whether the
  device fails in the \<open>read\<close>, should it read.
\<close>

record thread_obs =
  ob_sent :: bool
  ob_bad :: bool

text \<open>
  \<open>std::filesystem::path\<close> on POSIX: \<open>filename\<close> is what follows the last separator, \<open>parent_path\<close> what
  precedes it without trailing separators, or the root.
\<close>

definition slash_char :: char where "slash_char = CHR 0x2F"
definition dot_char :: char where "dot_char = CHR 0x2E"

definition after_last :: "char \<Rightarrow> string \<Rightarrow> string" where
  "after_last c s = rev (takeWhile (\<lambda>x. x \<noteq> c) (rev s))"

definition before_last :: "char \<Rightarrow> string \<Rightarrow> string" where
  "before_last c s = rev (drop 1 (dropWhile (\<lambda>x. x \<noteq> c) (rev s)))"

definition filename :: "string \<Rightarrow> string" where
  "filename p = after_last slash_char p"

definition parent_path :: "string \<Rightarrow> string" where
  "parent_path p =
     (if slash_char \<notin> set p then ''''
      else let d = rev (dropWhile (\<lambda>x. x = slash_char) (rev (before_last slash_char p)))
           in if d = '''' then [slash_char] else d)"

definition sha256_path :: "string \<Rightarrow> string" where
  "sha256_path p =
     (let base_path = parent_path p; file_name = filename p
      in if base_path = '''' then file_name @ ''.sha256sum''
         else base_path @ [slash_char] @ file_name @ ''.sha256sum'')"

definition char_octets :: "string \<Rightarrow> octet list" where
  "char_octets s = map (\<lambda>c. word_of_nat (of_char c)) s"

text \<open>\<open>strncpy\<close> of at most \<open>n - 1\<close> characters into a zeroed array of \<open>n\<close> octets.\<close>

definition name_field :: "nat \<Rightarrow> string \<Rightarrow> octet list" where
  "name_field n s = (let k = takeWhile (\<lambda>b. b \<noteq> 0) (take (n - 1) (char_octets s)) in k @ replicate (n - length k) 0)"

text \<open>\<open>rfind('.')\<close>: without a dot the extension is empty.\<close>

definition name_only :: "string \<Rightarrow> string" where
  "name_only file_name = (if dot_char \<in> set file_name then before_last dot_char file_name else file_name)"

definition extension :: "string \<Rightarrow> string" where
  "extension file_name = (if dot_char \<in> set file_name then after_last dot_char file_name else '''')"

text \<open>The first 64 bytes of the checksum file; a shorter file leaves the rest zero and clears \<open>has_sum\<close>.\<close>

definition read_sha256 :: "'q file_env \<Rightarrow> string \<Rightarrow> bool \<times> octet list" where
  "read_sha256 E p =
     (if fs_exists E p
      then let got = take 64 (case fs_content E p of None \<Rightarrow> [] | Some c \<Rightarrow> c)
           in (length got = 64, got @ replicate (64 - length got) 0)
      else (False, replicate 64 0))"

definition make_meta :: "'q file_env \<Rightarrow> nat \<Rightarrow> File \<Rightarrow> file_meta" where
  "make_meta E ident f =
     (let total = sint (word_of_int (file_sz f) :: i32); file_name = filename (f_path f)
      in \<lparr>fm_magic = bats_iperf_file_code, fm_stream_identifier = word_of_nat ident, fm_compression = 0,
          fm_reserved = 0, fm_file_length = word_of_int total,
          fm_sha256sum = snd (read_sha256 E (sha256_path (f_path f))),
          fm_file_name = name_field max_name_length (name_only file_name),
          fm_file_extension = name_field max_extension_length (extension file_name)\<rparr>)"

text \<open>The head of the outer loop, down to the inner one: the next file, its meta data, its reader.\<close>

definition fetch_file :: "'q file_env \<Rightarrow> nat \<Rightarrow> 'q IperfFileTransfer \<Rightarrow> 'q IperfFileTransfer" where
  "fetch_file E i T =
     (let s = x_streams T ! i in
      if t_state T = TEST_DONE then goto i F_Exited T
      else if f_has_err_in_send s then goto i F_Exited T
      else case Dequeue E (x_pending T) of
             None \<Rightarrow> goto i F_Exited (upd_stream i (\<lambda>s. s\<lparr>f_is_done := True\<rparr>) T)
           | Some (f, q) \<Rightarrow>
             (let hdr = (bk_hdr (f_loc s))\<lparr>file_seq := nat (bar_id f mod 16),
                           has_sum := fst (read_sha256 E (sha256_path (f_path f)))\<rparr>;
                  T = upd_loc i (\<lambda>l. l\<lparr>cur_file := f, bk_hdr := hdr\<rparr>) (T\<lparr>x_pending := q\<rparr>)
              in case fs_content E (f_path f) of
                   None \<Rightarrow> goto i F_Fetch T
                 | Some c \<Rightarrow>
                   goto i F_Check
                     (x_emit (BarRegister (unat (word_of_int (bar_id f) :: u16)) (''Transfering file : '' @ filename (f_path f)))
                       (upd_loc i (\<lambda>l. l\<lparr>file_meta_data := make_meta E (f_id s) f, reader_rest := c,
                          reader_eof := False, reader_bad := False, sent_bytes := 0,
                          total_file_length := sint (word_of_int (file_sz f) :: i32)\<rparr>) T))))"

definition max_send_buf_sz :: nat where "max_send_buf_sz = 300000"
definition max_compress_buf_sz :: nat where "max_compress_buf_sz = 300000"
definition max_decompressed_buf_sz :: nat where "max_decompressed_buf_sz = 300000"

text \<open>
  The length to read: an \<open>int\<close> less two \<open>size_t\<close>, assigned to an \<open>int\<close>. The block header is subtracted for
  the first block only.
\<close>

definition ideal_file_read_len :: "bool \<Rightarrow> int \<Rightarrow> int" where
  "ideal_file_read_len first ideal = sint (word_of_int (if first then ideal - 361 else ideal - 360) :: i32)"

text \<open>\<open>read\<close>: the bytes, and whether it ran into the end of the file; a device error gives nothing.\<close>

definition read_file :: "bool \<Rightarrow> nat \<Rightarrow> sender_local \<Rightarrow> octet list \<times> sender_local" where
  "read_file bad n l =
     (if bad then ([], l\<lparr>reader_bad := True\<rparr>)
      else (take n (reader_rest l),
            l\<lparr>reader_rest := drop n (reader_rest l), reader_eof := length (reader_rest l) < n\<rparr>))"

text \<open>
  What is copied behind the header: the bytes read, or their compression when it is not longer.
  \<open>off\<close> is where the payload starts in the send buffer.
\<close>

definition block_payload :: "density \<Rightarrow> bool \<Rightarrow> int \<Rightarrow> nat \<Rightarrow> octet list \<Rightarrow> (bool \<times> octet list) res" where
  "block_payload D compression want off chunk =
     (if compression
      then
        (let n = int (length chunk);
             compressed = Compress D (Some chunk) n True (int (max_send_buf_sz - off)) in
         if compressed = [] \<or> fless (fdiv Double (fl_int Double n) (fl_int Double (int (length compressed)))) (Fin 1)
         then rbind (guard OutOfBounds (off + length chunk \<le> max_send_buf_sz)) (\<lambda>_. Inr (False, chunk))
         else rbind (guard AssertFail (int (length compressed) \<le> want)) (\<lambda>_. Inr (True, compressed)))
      else rbind (guard OutOfBounds (off + length chunk \<le> max_send_buf_sz)) (\<lambda>_. Inr (False, chunk)))"

text \<open>The bytes are counted whether or not the message was accepted.\<close>

definition count_file_bytes :: "nat \<Rightarrow> 'q IperfFileTransfer \<Rightarrow> 'q IperfFileTransfer" where
  "count_file_bytes i T =
     (let l = f_loc (x_streams T ! i);
          sent = sent_bytes l + word_of_nat (nread l);
          bar = unat (word_of_int (bar_id (cur_file l)) :: u16);
          T = upd_loc i (\<lambda>l. l\<lparr>sent_bytes := sent\<rparr>) T;
          T = (if is_debug_mode (t_config T) then T else x_emit (BarUpdate bar (sint sent) (total_file_length l)) T);
          T = (if \<not> is_debug_mode (t_config T) \<and> fin (bk_hdr l) then x_emit (BarFinish bar) T else T)
      in goto i F_Check T)"

definition send_block :: "bool \<Rightarrow> nat \<Rightarrow> 'q IperfFileTransfer \<Rightarrow> 'q IperfFileTransfer res" where
  "send_block ok i T =
     (let s = x_streams T ! i; l = f_loc s in
      if f_stream s = None then Inl NullDeref
      else
        (let T = x_emit (FSent i (send_msg l) (send_flag l) ok) T
         in Inr (if ok then count_file_bytes i T else goto i F_Retry T)))"

text \<open>
  How much a block is to hold, where its payload starts in the send buffer, how much is read for it, and the block that goes out:
  the header, the description of the file in the first block, and the payload.
\<close>

definition block_want :: "FileStream \<Rightarrow> int" where
  "block_want s = ideal_file_read_len (sent_bytes (f_loc s) = 0) (f_ideal_buffer_length s)"

definition block_off :: "sender_local \<Rightarrow> nat" where
  "block_off l = (if sent_bytes l = 0 then 361 else 1)"

definition actual_file_read_len :: "bool \<Rightarrow> FileStream \<Rightarrow> nat" where
  "actual_file_read_len compression s = (if compression then min (nat (block_want s)) max_compress_buf_sz else nat (block_want s))"

definition make_block :: "bool \<Rightarrow> octet list \<Rightarrow> octet list \<Rightarrow> sender_local \<Rightarrow> sender_local" where
  "make_block zipped payload chunk l =
     (let first = (sent_bytes l = 0);
          is_last = (sent_bytes l + word_of_nat (length chunk) = word_of_int (total_file_length l));
          hdr = (bk_hdr l)\<lparr>syn := first, fin := is_last, has_comp := zipped\<rparr>
      in l\<lparr>bk_hdr := hdr, nread := length chunk,
           send_msg := enc_bk_header hdr # (if first then enc_file_meta (file_meta_data l) else []) @ payload,
           send_flag := (if is_last then BATS_SEND_FLAG_FIN else BATS_SEND_FLAG_NONE)\<rparr>)"

definition next_block :: "'q file_env \<Rightarrow> thread_obs \<Rightarrow> nat \<Rightarrow> 'q IperfFileTransfer \<Rightarrow> 'q IperfFileTransfer res" where
  "next_block E ob i T =
     (let s = x_streams T ! i; compression = is_compression_enabled (t_config T) in
      rbind (guard AssertFail (0 \<le> block_want s \<and> block_want s \<le> int max_send_buf_sz)) (\<lambda>_.
      (let (chunk, l) = read_file (ob_bad ob) (actual_file_read_len compression s) (f_loc s) in
       if chunk = []
       then Inr (goto i F_Check (upd_loc i (\<lambda>_. l\<lparr>bk_hdr := (bk_hdr l)\<lparr>syn := sent_bytes l = 0, has_comp := compression\<rparr>\<rparr>) T))
       else
         rbind (block_payload (density_lib E) compression (block_want s) (block_off l) chunk) (\<lambda>(zipped, payload).
         send_block (ob_sent ob) i (upd_loc i (\<lambda>_. make_block zipped payload chunk l) T)))))"

fun file_thread_step :: "'q file_env \<Rightarrow> thread_obs \<Rightarrow> nat \<Rightarrow> file_pc \<Rightarrow> 'q IperfFileTransfer \<Rightarrow> 'q IperfFileTransfer res" where
  "file_thread_step E ob i F_None T = Inr T"
| "file_thread_step E ob i F_Exited T = Inr T"
| "file_thread_step E ob i F_Fetch T = Inr (fetch_file E i T)"
| "file_thread_step E ob i F_Check T =
     (let s = x_streams T ! i; l = f_loc s
      in Inr (if reader_eof l \<or> \<not> IsInActive T i then goto i F_Fetch T
              else if reader_bad l then goto i F_Fetch T
              else if f_has_err_in_send s then goto i F_Fetch T
              else goto i F_Wait T))"
| "file_thread_step E ob i F_Wait T =
     (let s = x_streams T ! i
      in Inr (if f_is_writable s \<or> \<not> IsInActive T i \<or> f_has_err_in_send s then goto i F_Block T else T))"
| "file_thread_step E ob i F_Block T = next_block E ob i T"
| "file_thread_step E ob i F_Retry T =
     (let s = x_streams T ! i
      in if \<not> IsInActive T i then Inr (count_file_bytes i T)
         else if f_has_err_in_send s then Inr (count_file_bytes i T)
         else if f_is_writable s then send_block (ob_sent ob) i T
         else Inr T)"

text \<open>Assigning to a \<open>std::thread\<close> that is joinable terminates the program.\<close>

definition CreateFileTransferThread :: "nat \<Rightarrow> 'q IperfFileTransfer \<Rightarrow> 'q IperfFileTransfer res" where
  "CreateFileTransferThread i T =
     (if f_pc (x_streams T ! i) = F_None
      then Inr (goto i F_Fetch (upd_loc i (\<lambda>_. zero_local) T)) else Inl Terminate)"

section \<open>Receiving\<close>

text \<open>The loops of \<open>ReadFileNames\<close>: the octets up to the first zero, at most \<open>n\<close>.\<close>

fun read_cstr :: "octet list \<Rightarrow> nat \<Rightarrow> nat \<Rightarrow> string res" where
  "read_cstr b off 0 = Inr ''''"
| "read_cstr b off (Suc n) =
     rbind (load8 b off) (\<lambda>c. if c = 0 then Inr '''' else rmap (Cons (char_of (unat c))) (read_cstr b (off + 1) n))"

text \<open>The arrays of the meta data that starts at \<open>meta\<close>.\<close>

definition ReadFileNames :: "octet list \<Rightarrow> nat \<Rightarrow> (string \<times> string) res" where
  "ReadFileNames b meta =
     rbind (read_cstr b (meta + 88) max_name_length) (\<lambda>name.
     rbind (read_cstr b (meta + 344) max_extension_length) (\<lambda>ext.
     Inr (name, ext)))"

definition write_at :: "octet list \<Rightarrow> nat \<Rightarrow> octet list \<Rightarrow> octet list" where
  "write_at old pos vs = take pos (old @ replicate (pos - length old) 0) @ vs @ drop (pos + length vs) old"

definition WriteFileSha256 :: "'q file_env \<Rightarrow> string \<Rightarrow> octet list \<Rightarrow> nat \<Rightarrow> 'q IperfFileTransfer \<Rightarrow> 'q IperfFileTransfer res" where
  "WriteFileSha256 E name b meta T =
     rbind (peek b (meta + 24) max_hash_length) (\<lambda>hash.
     Inr (if fs_can_open E name then T\<lparr>x_disk := (x_disk T)(name \<mapsto> hash @ [10])\<rparr> else T))"

text \<open>
  The branch for a first block: names, checksum, length, and a new writer. The result says whether the
  file could be opened.
\<close>

definition open_file ::
  "'q file_env \<Rightarrow> nat \<Rightarrow> file_bk_header \<Rightarrow> octet list \<Rightarrow> 'q IperfFileTransfer \<Rightarrow> (bool \<times> 'q IperfFileTransfer) res" where
  "open_file E i h b T =
     rbind (ReadFileNames b sizeof_bk_header) (\<lambda>(name, ext).
     rbind (if has_sum h then WriteFileSha256 E (name @ ''.sha256sum'') b sizeof_bk_header T else Inr T) (\<lambda>T.
     rbind (load64 b (sizeof_bk_header + 16)) (\<lambda>len.
     (let file = (if ext = '''' then name else name @ ''.'' @ ext); opened = fs_can_open E file;
          T = upd_stream i (\<lambda>s. s\<lparr>f_file_name := file, f_file_length := unpack_length len,
                f_file_writer := Some \<lparr>w_path = file, w_open = opened, w_bad = False, w_pos = 0\<rparr>\<rparr>) T
      in if \<not> opened then Inr (False, T)
         else (let T = T\<lparr>x_disk := (x_disk T)(file \<mapsto> [])\<rparr>
               in Inr (True, if is_debug_mode (t_config T) then T
                             else x_emit (BarRegister (file_seq h) (''Receiving file : '' @ file)) T))))))"

text \<open>
  \<open>write\<close> and the test of \<open>bad()\<close>: a stream that was never opened has only its fail bit set and drops the
  bytes. \<open>wbad\<close>: the device fails.
\<close>

definition write_data :: "bool \<Rightarrow> nat \<Rightarrow> ofstream \<Rightarrow> octet list \<Rightarrow> 'q IperfFileTransfer \<Rightarrow> bool \<times> 'q IperfFileTransfer" where
  "write_data wbad i w vs T =
     (if w_bad w then (False, T)
      else if \<not> w_open w then (True, T)
      else if wbad then (False, upd_stream i (\<lambda>s. s\<lparr>f_file_writer := Some (w\<lparr>w_bad := True\<rparr>)\<rparr>) T)
      else
        (let old = (case x_disk T (w_path w) of None \<Rightarrow> [] | Some d \<Rightarrow> d)
         in (True, upd_stream i (\<lambda>s. s\<lparr>f_file_writer := Some (w\<lparr>w_pos := w_pos w + length vs\<rparr>)\<rparr>)
                     (T\<lparr>x_disk := (x_disk T)(w_path w \<mapsto> write_at old (w_pos w) vs)\<rparr>))))"

text \<open>The last block: the writer is closed and the file is counted.\<close>

definition finish_file :: "nat \<Rightarrow> file_bk_header \<Rightarrow> 'q IperfFileTransfer \<Rightarrow> 'q IperfFileTransfer" where
  "finish_file i h T =
     (let T = (if is_debug_mode (t_config T) then T else x_emit (BarFinish (file_seq h)) T);
          T = upd_stream i (\<lambda>s. s\<lparr>f_file_writer := None, f_write_bytes := 0\<rparr>) T;
          n = (if num_files (t_config T) > 0 then num_files (t_config T) - 1 else num_files (t_config T))
      in if n \<le> 0 then T\<lparr>t_state := TEST_DONE, t_config := (t_config T)\<lparr>num_files := 0\<rparr>\<rparr>
         else T\<lparr>t_config := (t_config T)\<lparr>num_files := n\<rparr>\<rparr>)"

text \<open>From the payload of a block, of \<open>len\<close> bytes as the program computed it, to the end of the handler.\<close>

definition store_block ::
  "'q file_env \<Rightarrow> bool \<Rightarrow> nat \<Rightarrow> file_bk_header \<Rightarrow> octet list \<Rightarrow> int \<Rightarrow> 'q IperfFileTransfer \<Rightarrow> 'q IperfFileTransfer res" where
  "store_block E wbad i h payload len T =
     (case f_file_writer (x_streams T ! i) of
        None \<Rightarrow> Inl AssertFail
      | Some w \<Rightarrow>
        rbind (guard AssertFail (0 < len)) (\<lambda>_.
        (let vs = (if has_comp h
                   then Decompress (density_lib E) (Some payload) len True (int max_decompressed_buf_sz) else payload) in
         if has_comp h \<and> vs = [] then Inr T
         else
           (let (good, T) = write_data wbad i w vs T in
            if \<not> good then Inr T
            else
              (let T = upd_stream i (\<lambda>s. s\<lparr>f_write_bytes := f_write_bytes s + word_of_int len\<rparr>) T;
                   s = x_streams T ! i in
               rbind (guard AssertFail (file_seq h < 10)) (\<lambda>_.
               (let T = (if is_debug_mode (t_config T) then T
                         else x_emit (BarUpdate (file_seq h) (sint (f_write_bytes s)) (sint (f_file_length s))) T)
                in Inr (if fin h then finish_file i h T else T))))))))"

definition HandleReceivedFileData ::
  "'q file_env \<Rightarrow> bool \<Rightarrow> nat \<Rightarrow> octet list \<Rightarrow> 'q IperfFileTransfer \<Rightarrow> 'q IperfFileTransfer res" where
  "HandleReceivedFileData E wbad i b T =
     (if length (x_streams T) \<le> i then Inr T
      else
        rbind (load8 b 0) (\<lambda>h0.
        (let h = dec_bk_header h0 in
         if syn h
         then rbind (open_file E i h b T) (\<lambda>(opened, T).
              if \<not> opened then Inr T
              else store_block E wbad i h (drop (sizeof_bk_header + sizeof_file_meta) b) (int (length b) - 361) T)
         else store_block E wbad i h (drop sizeof_bk_header b) (int (length b) - 1) T)))"

section \<open>Start and Stop\<close>

definition ctrl_config :: BatsConfiguration where
  "ctrl_config = BatsConfiguration_init\<lparr>transport_mode := BATSTransMode_of_int 10,
     cert_file := bats_default_cert_file, key_file := bats_default_key_file\<rparr>"

definition file_config :: "TestConfig \<Rightarrow> BatsConfiguration" where
  "file_config c = BatsConfiguration_init\<lparr>connection_timeout := 5000, transport_mode := BATSTransMode_of_int (protocol c),
     cert_file := bats_default_cert_file, key_file := bats_default_key_file\<rparr>"

definition file_Start :: "'q file_env \<Rightarrow> 'q IperfFileTransfer \<Rightarrow> bool \<times> 'q IperfFileTransfer" where
  "file_Start E T =
     (if \<not> fs_exists E bats_default_key_file then (False, T)
      else if \<not> fs_exists E bats_default_cert_file then (False, T)
      else (True, x_emit (FConnect (peer_host (t_config T)) (word_of_int (port (t_config T) - 1)) None)
                    (T\<lparr>x_connector := (case x_connector T of None \<Rightarrow> Some ctrl_config | Some bc \<Rightarrow> Some bc)\<rparr>)))"

text \<open>\<open>join\<close>: the thread runs to its end, with the observations \<open>obs\<close>.\<close>

fun join_thread :: "'q file_env \<Rightarrow> nat \<Rightarrow> thread_obs list \<Rightarrow> 'q IperfFileTransfer \<Rightarrow> 'q IperfFileTransfer res" where
  "join_thread E i [] T = (if f_pc (x_streams T ! i) \<in> {F_None, F_Exited} then Inr T else Inl Blocked)"
| "join_thread E i (ob # obs) T =
     (if f_pc (x_streams T ! i) \<in> {F_None, F_Exited} then Inr T
      else rbind (file_thread_step E ob i (f_pc (x_streams T ! i)) T) (join_thread E i obs))"

definition stop_stream :: "'q file_env \<Rightarrow> (nat \<Rightarrow> thread_obs list) \<Rightarrow> nat \<Rightarrow> 'q IperfFileTransfer \<Rightarrow> 'q IperfFileTransfer res" where
  "stop_stream E obs i T =
     rbind (join_thread E i (obs i) T) (\<lambda>T.
     Inr (upd_stream i (\<lambda>s. s\<lparr>f_stream := None, f_is_connected := False, f_is_writable := False, f_is_done := True\<rparr>) T))"

definition file_Stop :: "'q file_env \<Rightarrow> (nat \<Rightarrow> thread_obs list) \<Rightarrow> 'q IperfFileTransfer \<Rightarrow> (bool \<times> 'q IperfFileTransfer) res" where
  "file_Stop E obs T =
     (if t_stopped T then Inr (False, T)
      else
        rbind (rfold (stop_stream E obs) [0 ..< length (x_streams T)] (T\<lparr>t_stopped := True, t_state := TEST_DONE\<rparr>)) (\<lambda>T.
        Inr (False, T\<lparr>x_streams := []\<rparr>)))"

section \<open>Control messages\<close>

definition file_send_ctrl :: "octet list \<Rightarrow> 'q IperfFileTransfer \<Rightarrow> 'q IperfFileTransfer res" where
  "file_send_ctrl b T = (case ctrl_chn T of None \<Rightarrow> Inl NullDeref | Some cn \<Rightarrow> Inr (x_emit (FCtrlSend cn b) T))"

definition SendResponse :: "u32 \<Rightarrow> 'q IperfFileTransfer \<Rightarrow> 'q IperfFileTransfer res" where
  "SendResponse code T =
     rbind (Id T) (\<lambda>ident.
     rbind (write_control (replicate 300 0) ((control_message ident 0x04)\<lparr>ctl_param0 := code\<rparr>)) (\<lambda>b.
     file_send_ctrl b T))"

definition SendResponseOk :: "'q IperfFileTransfer \<Rightarrow> 'q IperfFileTransfer res" where
  "SendResponseOk T = SendResponse 0x00 T"

definition SendResponseDenied :: "'q IperfFileTransfer \<Rightarrow> 'q IperfFileTransfer res" where
  "SendResponseDenied T = SendResponse 0x01 T"

definition open_file_stream :: "nat \<Rightarrow> 'q IperfFileTransfer \<Rightarrow> 'q IperfFileTransfer" where
  "open_file_stream i T =
     x_emit (FConnect (peer_host (t_config T)) (word_of_int (port (t_config T))) (Some i))
       (T\<lparr>x_streams := x_streams T @ [new_FileStream i]\<rparr>)"

definition OnRecvResponse :: "'q IperfFileTransfer \<Rightarrow> 'q IperfFileTransfer res" where
  "OnRecvResponse T =
     (if x_connector T = None then Inl NullDeref
      else
        (let bc = file_config (t_config T);
             T = x_emit (FLoadConfig bc) (T\<lparr>x_connector := Some bc\<rparr>)
         in Inr (fold open_file_stream [0 ..< nat (num_streams (t_config T))] T)))"

text \<open>The total size travels in two halves, high bits first.\<close>

definition SendFileTransferRequest :: "'q IperfFileTransfer \<Rightarrow> 'q IperfFileTransfer res" where
  "SendFileTransferRequest T =
     (let c = t_config T; total_bytes = (word_of_int (total_bytes_in_files c) :: u64) in
      rbind (Id T) (\<lambda>ident.
      rbind (write_control (replicate 300 0)
               ((control_message ident 0x01)\<lparr>ctl_num_of_streams := word_of_int (num_streams c),
                  ctl_param0 := word_of_nat (length (files c)),
                  ctl_param1 := ucast (drop_bit 32 total_bytes),
                  ctl_param2 := ucast (total_bytes AND 0xFFFFFFFF)\<rparr>)) (\<lambda>b.
      rbind (Serialize c b sizeof_control) (\<lambda>(b, p).
      rbind (file_send_ctrl b T) (\<lambda>T.
      Inr (T\<lparr>t_state := TEST_EXCHANGE_PARAMETERS\<rparr>))))))"

text \<open>
  \<open>space\<close>: the free bytes \<open>std::filesystem::space\<close> reports, \<open>None\<close> on error; compared as unsigned
  64-bit numbers.
\<close>

definition requested_bytes :: "iperf_control_data \<Rightarrow> u64" where
  "requested_bytes h = push_bit 32 (ucast (ctl_param1 h)) OR ucast (ctl_param2 h)"

definition HandleFileTransferRequest ::
  "ifaddr list option \<Rightarrow> u64 option \<Rightarrow> iperf_control_data \<Rightarrow> octet list \<Rightarrow> 'q IperfFileTransfer \<Rightarrow> 'q IperfFileTransfer res" where
  "HandleFileTransferRequest ifs space h b T =
     rbind (Deserialize TestConfig_init b sizeof_control) (\<lambda>c.
     (let c = c\<lparr>num_files := sint (ctl_param0 h)\<rparr> in
      if (case space of None \<Rightarrow> False | Some available \<Rightarrow> available \<le> requested_bytes h)
      then SendResponseDenied T
      else
        (let old = t_config T;
             c = c\<lparr>is_debug_mode := is_debug_mode old, role := ROLE_RECEIVER, resolution := resolution old\<rparr>;
             T = x_emit (FListen (ReadIPAddress ifs (interface_name T)) (word_of_int (port c)) (file_config c))
                   (T\<lparr>x_listener := True, t_config := c\<rparr>)
         in SendResponseOk T)))"

text \<open>What the handlers take from outside.\<close>

record file_in =
  fi_ifaddrs :: "ifaddr list option"
  fi_space :: "u64 option"
  fi_join :: "nat \<Rightarrow> thread_obs list"
  fi_wbad :: bool

definition file_HandleControlMessage ::
  "'q file_env \<Rightarrow> file_in \<Rightarrow> conn \<Rightarrow> octet list \<Rightarrow> 'q IperfFileTransfer \<Rightarrow> 'q IperfFileTransfer res" where
  "file_HandleControlMessage E fi cn b T =
     rbind (read_control b) (\<lambda>h.
     rbind (guard AssertFail (ctl_test_id h = test_id T)) (\<lambda>_.
     rbind (guard AssertFail (ctl_action_code h = 0x01 \<or> ctl_action_code h = 0x04)) (\<lambda>_.
     if ctl_action_code h = 0x04
     then (if ctl_param0 h = 0 then OnRecvResponse T
           else rmap snd (file_Stop E (fi_join fi) (CloseCtrlChannel T)))
     else HandleFileTransferRequest (fi_ifaddrs fi) (fi_space fi) h b (T\<lparr>ctrl_chn := Some cn\<rparr>))))"

section \<open>Callbacks\<close>

text \<open>\<open>streams_[i]\<close> does not check its index; \<open>streams_.at(i)\<close> throws.\<close>

definition at_stream :: "fault \<Rightarrow> nat \<Rightarrow> (FileStream \<Rightarrow> FileStream) \<Rightarrow> 'q IperfFileTransfer \<Rightarrow> 'q IperfFileTransfer res" where
  "at_stream e i f T = (if i < length (x_streams T) then Inr (upd_stream i f T) else Inl e)"

definition retry_file_connect :: "nat \<Rightarrow> 'q IperfFileTransfer \<Rightarrow> 'q IperfFileTransfer res" where
  "retry_file_connect i T =
     (if length (x_streams T) \<le> i then Inl Terminate
      else if f_retry_cnt (x_streams T ! i) < 3
      then if x_connector T = None then Inl NullDeref
           else Inr (upd_stream i (\<lambda>s. s\<lparr>f_retry_cnt := f_retry_cnt s + 1\<rparr>)
                      (x_emit (FConnect (peer_host (t_config T)) (word_of_int (port (t_config T))) (Some (f_id (x_streams T ! i)))) T))
      else Inr T)"

text \<open>The control channel is gone: the test stops. A data channel is gone: its connection is dropped.\<close>

definition on_closed :: "'q file_env \<Rightarrow> file_in \<Rightarrow> nat option \<Rightarrow> 'q IperfFileTransfer \<Rightarrow> (bool \<times> 'q IperfFileTransfer) res" where
  "on_closed E fi user T =
     (case user of
        None \<Rightarrow> rbind (file_Stop E (fi_join fi) (CloseCtrlChannel T)) (\<lambda>(r, T). Inr (True, T))
      | Some i \<Rightarrow> if length (x_streams T) \<le> i then Inr (False, T)
                  else Inr (True, upd_stream i (\<lambda>s. s\<lparr>f_stream := None\<rparr>) T))"

text \<open>An event that only sets a member of its stream, and is ignored on the control channel.\<close>

definition on_stream :: "nat option \<Rightarrow> (FileStream \<Rightarrow> FileStream) \<Rightarrow> 'q IperfFileTransfer \<Rightarrow> (bool \<times> 'q IperfFileTransfer) res" where
  "on_stream user f T =
     (case user of None \<Rightarrow> Inr (True, T) | Some i \<Rightarrow> rmap (Pair True) (at_stream OutOfBounds i f T))"

text \<open>\<open>user\<close> is the user context: null for the control channel, else the id of a stream.\<close>

definition file_ConnectionCallback ::
  "'q file_env \<Rightarrow> file_in \<Rightarrow> conn \<Rightarrow> int \<Rightarrow> BatsConnEvent \<Rightarrow> octet list \<Rightarrow> int \<Rightarrow> nat option
     \<Rightarrow> 'q IperfFileTransfer \<Rightarrow> (bool \<times> 'q IperfFileTransfer) res" where
  "file_ConnectionCallback E fi cn ideal event b len user T =
     (case event of
        BATS_CONNECTION_TIMEOUT \<Rightarrow>
          (case user of None \<Rightarrow> Inr (True, T) | Some i \<Rightarrow> rmap (Pair True) (retry_file_connect i T))
      | BATS_CONNECTION_FAILED \<Rightarrow>
          rbind (guard NullDeref (printer T)) (\<lambda>_. Inr (True, x_emit FSenderFailure T))
      | BATS_CONNECTION_CLOSED \<Rightarrow> on_closed E fi user T
      | BATS_CONNECTION_SHUTDOWN_BY_PEER \<Rightarrow> on_closed E fi user T
      | BATS_CONNECTION_ESTABLISHED \<Rightarrow>
          (case user of
             None \<Rightarrow> rmap (Pair True) (SendFileTransferRequest (T\<lparr>ctrl_chn := Some cn\<rparr>))
           | Some i \<Rightarrow>
             rbind (at_stream OutOfBounds i
                      (\<lambda>s. s\<lparr>f_stream := Some cn, f_is_connected := True, f_ideal_buffer_length := ideal\<rparr>) T) (\<lambda>T.
             rmap (Pair True) (CreateFileTransferThread i T)))
      | BATS_CONNECTION_BUFFER_FULL \<Rightarrow> on_stream user (\<lambda>s. s\<lparr>f_is_writable := False\<rparr>) T
      | BATS_CONNECTION_WRITABLE \<Rightarrow> on_stream user (\<lambda>s. s\<lparr>f_is_writable := True\<rparr>) T
      | BATS_CONNECTION_IDEAL_BUFFER_LENGTH \<Rightarrow> on_stream user (\<lambda>s. s\<lparr>f_ideal_buffer_length := len\<rparr>) T
      | BATS_CONNECTION_DATA_RECEIVED \<Rightarrow>
          (case user of None \<Rightarrow> rmap (Pair True) (file_HandleControlMessage E fi cn b T)
           | Some i \<Rightarrow> rmap (Pair True) (HandleReceivedFileData E (fi_wbad fi) i b T))
      | BATS_CONNECTION_ALL_DATA_ACKED \<Rightarrow>
          on_stream user (\<lambda>s. if f_is_done s then s\<lparr>f_all_acked := True\<rparr> else s) T
      | BATS_CONNECTION_SEND_DATA_ERROR \<Rightarrow> on_stream user (\<lambda>s. s\<lparr>f_has_err_in_send := True\<rparr>) T
      | _ \<Rightarrow> Inr (True, T))"

definition file_DataListenCallback ::
  "conn option \<Rightarrow> BatsListenEvent \<Rightarrow> 'q IperfFileTransfer \<Rightarrow> 'q IperfFileTransfer res" where
  "file_DataListenCallback new_conn event T =
     (case event of
        BATS_LISTEN_NEW_CONNECTION \<Rightarrow>
          (case new_conn of
             None \<Rightarrow> Inl AssertFail
           | Some cn \<Rightarrow>
             (let i = length (x_streams T)
              in Inr (x_emit (FSetCallback cn i)
                   (T\<lparr>x_streams := x_streams T @ [(new_FileStream i)\<lparr>f_is_connected := True, f_stream := Some cn\<rparr>]\<rparr>))))
      | _ \<Rightarrow> Inr T)"

section \<open>Polling\<close>

definition file_IsStreamReady :: "'q IperfFileTransfer \<Rightarrow> bool" where
  "file_IsStreamReady T \<longleftrightarrow>
     (if t_state T = TEST_DONE \<and> x_streams T = [] then True
      else if \<exists>s \<in> set (x_streams T). \<not> f_is_connected s then False
      else num_streams (t_config T) - int (length (x_streams T)) = 0)"

text \<open>\<open>IsStreamDone\<close> may end the test.\<close>

definition file_IsStreamDone :: "'q IperfFileTransfer \<Rightarrow> bool \<times> 'q IperfFileTransfer" where
  "file_IsStreamDone T =
     (let c = t_config T in
      if role c = ROLE_FILE_RECEIVER \<and> num_files c \<le> 0 \<and> t_state T = TEST_DONE then (True, T)
      else if t_state T = TEST_DONE \<and> x_streams T = [] then (True, T)
      else if \<exists>s \<in> set (x_streams T). \<not> f_has_err_in_send s \<and> role c = ROLE_FILE_SENDER \<and> (\<not> f_is_done s \<or> \<not> f_all_acked s)
      then (False, T)
      else if num_streams c - int (length (x_streams T)) = 0 then (True, T\<lparr>t_state := TEST_DONE\<rparr>)
      else (False, T))"

definition file_TestFinishState :: "'q IperfFileTransfer \<Rightarrow> bool \<times> 'q IperfFileTransfer" where
  "file_TestFinishState T = file_IsStreamDone T"

section \<open>All operations as events\<close>

datatype file_event =
    FeStart
  | FeStop "nat \<Rightarrow> thread_obs list"
  | FeMessage file_in conn "octet list"
  | FeCallback file_in conn int BatsConnEvent "octet list" int "nat option"
  | FeListen "conn option" BatsListenEvent
  | FePoll
  | FeThread nat thread_obs

fun file_step :: "'q file_env \<Rightarrow> 'q IperfFileTransfer \<Rightarrow> file_event \<Rightarrow> 'q IperfFileTransfer res" where
  "file_step E T FeStart = Inr (snd (file_Start E T))"
| "file_step E T (FeStop obs) = rmap snd (file_Stop E obs T)"
| "file_step E T (FeMessage fi cn b) = file_HandleControlMessage E fi cn b T"
| "file_step E T (FeCallback fi cn ideal ev b len user) = rmap snd (file_ConnectionCallback E fi cn ideal ev b len user T)"
| "file_step E T (FeListen cn ev) = file_DataListenCallback cn ev T"
| "file_step E T FePoll = Inr (snd (file_TestFinishState T))"
| "file_step E T (FeThread i ob) =
     (if i < length (x_streams T) then file_thread_step E ob i (f_pc (x_streams T ! i)) T else Inr T)"

end
