(* ===== verification/File_Receive.thy ===== *)
theory File_Receive
  imports File_Transfer
begin

text \<open>
  The receiving side of a file transfer. A message that is a block of a file (\<open>is_block\<close>) is written
  at its place; the messages of a file (\<open>carried\<close>) leave the file on the disk under the name the
  sender has it under (\<open>receive_file\<close>), and the messages of several files leave all of them
  (\<open>receive_files\<close>, \<open>disk_with_in\<close>).
\<close>

section \<open>Names\<close>

lemma char_octet [simp]: "char_of (unat (word_of_nat (of_char c) :: octet)) = c"
proof -
  have "(of_char c :: nat) < 256" by simp
  then show ?thesis by (simp add: unat_of_nat)
qed

lemma word_of_char_0 [simp]: "(word_of_nat (of_char c) :: octet) = 0 \<longleftrightarrow> c = CHR 0x00"
proof
  assume "(word_of_nat (of_char c) :: octet) = 0"
  then have "char_of (unat (0 :: octet)) = c" using char_octet [of c] by simp
  then show "c = CHR 0x00" by (simp add: char_of_def)
qed (simp add: of_char_def)

lemma length_char_octets [simp]: "length (char_octets s) = length s"
  by (simp add: char_octets_def)

lemma load8_hd: "drop off b = x # d \<Longrightarrow> load8 b off = Inr x"
proof -
  assume a: "drop off b = x # d"
  then have "off < length b" by (metis drop_all linorder_not_less list.distinct(1))
  then show ?thesis using a by (simp add: load8_def peek_def)
qed

lemma read_cstr_ok:
  assumes "\<forall>x \<in> set s. x \<noteq> CHR 0x00" and "length s < n"
    and "take (length s + 1) (drop off b) = char_octets s @ [0]"
  shows "read_cstr b off n = Inr s"
  using assms
proof (induction s arbitrary: off n)
  case Nil
  then obtain m where "n = Suc m" by (cases n) auto
  moreover obtain d where "drop off b = 0 # d"
    using Nil(3) by (cases "drop off b") (auto simp: char_octets_def)
  ultimately show ?case by (simp add: load8_hd)
next
  case (Cons c s)
  then obtain m where n: "n = Suc m" by (cases n) auto
  obtain d where d: "drop off b = word_of_nat (of_char c) # d" "take (length s + 1) d = char_octets s @ [0]"
    using Cons.prems(3) by (cases "drop off b") (auto simp: char_octets_def)
  then have "drop (off + 1) b = d" by (metis Suc_eq_plus1 drop_Suc list.sel(3) tl_drop)
  then have "read_cstr b (off + 1) m = Inr s" using Cons.IH [of m "off + 1"] Cons.prems n d(2) by simp
  moreover note load8_hd [OF d(1)]
  ultimately show ?case using n Cons.prems(1) by simp
qed

lemma name_field_split:
  assumes "\<forall>x \<in> set s. x \<noteq> CHR 0x00" and "length s < n"
  shows "name_field n s = char_octets s @ replicate (n - length s) 0" and "length (name_field n s) = n"
proof -
  have tw: "takeWhile (\<lambda>b. b \<noteq> 0) (char_octets s) = char_octets s"
    using assms(1) by (subst takeWhile_eq_all_conv) (auto simp: char_octets_def)
  have tk: "take (n - 1) (char_octets s) = char_octets s" using assms(2) by simp
  show "name_field n s = char_octets s @ replicate (n - length s) 0"
    unfolding name_field_def Let_def tk tw by simp
  then show "length (name_field n s) = n" using assms(2) by simp
qed

lemma read_name_field:
  assumes "\<forall>x \<in> set s. x \<noteq> CHR 0x00" and "length s < n" and "drop off b = name_field n s @ r"
  shows "read_cstr b off n = Inr s"
proof (rule read_cstr_ok [OF assms(1,2)])
  obtain k where k: "n - length s = Suc k" using assms(2) by (metis Suc_diff_Suc)
  show "take (length s + 1) (drop off b) = char_octets s @ [0]"
    using assms(3) name_field_split(1) [OF assms(1,2)] by (simp add: k)
qed

text \<open>A name is split at its last dot and put together again.\<close>

lemma split_at_last: "c \<in> set s \<Longrightarrow> before_last c s @ [c] @ after_last c s = s"
proof -
  assume "c \<in> set s"
  then have ne: "dropWhile (\<lambda>x. x \<noteq> c) (rev s) \<noteq> []" by (simp add: dropWhile_eq_Nil_conv)
  have hd: "hd (dropWhile (\<lambda>x. x \<noteq> c) (rev s)) = c" using hd_dropWhile [OF ne] by simp
  have "takeWhile (\<lambda>x. x \<noteq> c) (rev s) @ [c] @ drop 1 (dropWhile (\<lambda>x. x \<noteq> c) (rev s)) = rev s"
    using ne hd by (metis append.left_neutral append_Cons drop0 drop_Suc list.collapse One_nat_def takeWhile_dropWhile_id)
  then have "rev (takeWhile (\<lambda>x. x \<noteq> c) (rev s) @ [c] @ drop 1 (dropWhile (\<lambda>x. x \<noteq> c) (rev s))) = s" by simp
  then show ?thesis by (simp add: before_last_def after_last_def)
qed

text \<open>The name the receiver gives to a file that is sent under \<open>file_name\<close>.\<close>

definition received_name :: "string \<Rightarrow> string" where
  "received_name file_name =
     (if extension file_name = '''' then name_only file_name else name_only file_name @ ''.'' @ extension file_name)"

lemma received_name_same: "last s \<noteq> dot_char \<or> s = '''' \<Longrightarrow> received_name s = s"
proof -
  assume a: "last s \<noteq> dot_char \<or> s = ''''"
  have "after_last dot_char s = '''' \<Longrightarrow> dot_char \<in> set s \<Longrightarrow> last s = dot_char"
    using split_at_last [of dot_char s] by (metis append.right_neutral last_snoc)
  then show ?thesis using a split_at_last [of dot_char s]
    by (auto simp: received_name_def name_only_def extension_def dot_char_def)
qed

definition name_ok :: "string \<Rightarrow> bool" where
  "name_ok file_name \<longleftrightarrow> (\<forall>x \<in> set file_name. x \<noteq> CHR 0x00) \<and> length (name_only file_name) < 256
     \<and> length (extension file_name) < 16"

lemma name_ok_parts:
  assumes "name_ok s"
  shows "\<forall>x \<in> set (name_only s). x \<noteq> CHR 0x00" and "\<forall>x \<in> set (extension s). x \<noteq> CHR 0x00"
proof -
  have "set (name_only s) \<subseteq> set s" "set (extension s) \<subseteq> set s"
    using split_at_last [of dot_char s]
    by (auto simp: name_only_def extension_def) (metis Un_iff set_append list.set_intros(2) append_Cons)+
  then show "\<forall>x \<in> set (name_only s). x \<noteq> CHR 0x00" and "\<forall>x \<in> set (extension s). x \<noteq> CHR 0x00"
    using assms by (auto simp: name_ok_def)
qed

section \<open>Blocks\<close>

text \<open>
  A block of a file: \<open>chunk\<close> is what it carries, \<open>first\<close> and \<open>is_last\<close> its place in the file, \<open>seq\<close> the number of the
  file, \<open>m\<close> the meta data of a first block.
\<close>

definition payload_of :: "density \<Rightarrow> bool \<Rightarrow> octet list \<Rightarrow> octet list \<Rightarrow> bool" where
  "payload_of D zipped payload chunk \<longleftrightarrow> payload \<noteq> [] \<and> chunk \<noteq> [] \<and>
     (if zipped then Decompress D (Some payload) (int (length payload)) True (int max_decompressed_buf_sz) = chunk
      else payload = chunk)"

definition is_block :: "density \<Rightarrow> file_meta \<Rightarrow> nat \<Rightarrow> bool \<Rightarrow> bool \<Rightarrow> bool \<Rightarrow> octet list \<Rightarrow> octet list \<Rightarrow> bool" where
  "is_block D m seq hashed first is_last chunk msg \<longleftrightarrow>
     (\<exists>zipped payload. payload_of D zipped payload chunk \<and>
        msg = enc_bk_header \<lparr>syn = first, fin = is_last, has_sum = hashed, has_comp = zipped, file_seq = seq\<rparr>
                # (if first then enc_file_meta m else []) @ payload)"

text \<open>The messages of a file from position \<open>pos\<close> on.\<close>

fun carried :: "density \<Rightarrow> file_meta \<Rightarrow> nat \<Rightarrow> bool \<Rightarrow> nat \<Rightarrow> nat \<Rightarrow> octet list list \<Rightarrow> octet list \<Rightarrow> bool" where
  "carried D m seq hashed total_len pos [] c \<longleftrightarrow> c = []"
| "carried D m seq hashed total_len pos (msg # msgs) c \<longleftrightarrow>
     (\<exists>chunk rest. c = chunk @ rest \<and> is_block D m seq hashed (pos = 0) (pos + length chunk = total_len) chunk msg
        \<and> carried D m seq hashed total_len (pos + length chunk) msgs rest)"

lemma carried_append:
  "carried D m seq hashed n pos msgs c \<Longrightarrow> carried D m seq hashed n (pos + length c) msgs' c' \<Longrightarrow>
     carried D m seq hashed n pos (msgs @ msgs') (c @ c')"
proof (induction msgs arbitrary: pos c)
  case (Cons msg msgs)
  then obtain chunk rest where cr: "c = chunk @ rest"
      "is_block D m seq hashed (pos = 0) (pos + length chunk = n) chunk msg"
      "carried D m seq hashed n (pos + length chunk) msgs rest" by auto
  moreover have "carried D m seq hashed n (pos + length chunk) (msgs @ msgs') (rest @ c')"
    using Cons.IH [OF cr(3)] Cons.prems(2) cr(1) by (simp add: add.assoc)
  ultimately show ?case by auto
qed simp

section \<open>The receiver writes what a block carries\<close>

lemma x_emit_simps [simp]:
  "t_config (x_emit x T) = t_config T" "test_id (x_emit x T) = test_id T" "ctrl_chn (x_emit x T) = ctrl_chn T"
  "t_state (x_emit x T) = t_state T" "t_stopped (x_emit x T) = t_stopped T" "printer (x_emit x T) = printer T"
  "interface_name (x_emit x T) = interface_name T" "x_streams (x_emit x T) = x_streams T"
  "x_pending (x_emit x T) = x_pending T" "x_disk (x_emit x T) = x_disk T" "x_out (x_emit x T) = x_out T @ [x]"
  "x_connector (x_emit x T) = x_connector T"
  by (simp_all add: x_emit_def)

lemma upd_stream_simps [simp]:
  "t_config (upd_stream i f T) = t_config T" "test_id (upd_stream i f T) = test_id T"
  "ctrl_chn (upd_stream i f T) = ctrl_chn T" "t_state (upd_stream i f T) = t_state T"
  "t_stopped (upd_stream i f T) = t_stopped T" "printer (upd_stream i f T) = printer T"
  "x_pending (upd_stream i f T) = x_pending T" "x_disk (upd_stream i f T) = x_disk T" "x_out (upd_stream i f T) = x_out T"
  "x_connector (upd_stream i f T) = x_connector T" "length (x_streams (upd_stream i f T)) = length (x_streams T)"
  by (simp_all add: upd_stream_def)

lemma upd_stream_nth [simp]:
  "i < length (x_streams T) \<Longrightarrow> x_streams (upd_stream i f T) ! i = f (x_streams T ! i)"
  "i \<noteq> j \<Longrightarrow> x_streams (upd_stream i f T) ! j = x_streams T ! j"
  by (simp_all add: upd_stream_def)

text \<open>Stream \<open>i\<close> is receiving the file \<open>name\<close> and has written \<open>pre\<close>.\<close>

definition receiving :: "nat \<Rightarrow> string \<Rightarrow> octet list \<Rightarrow> 'q IperfFileTransfer \<Rightarrow> bool" where
  "receiving i name pre T \<longleftrightarrow> i < length (x_streams T) \<and> x_disk T name = Some pre \<and>
     f_file_writer (x_streams T ! i) = Some \<lparr>w_path = name, w_open = True, w_bad = False, w_pos = length pre\<rparr>"

text \<open>What the transfer looks like when a block has been stored.\<close>

definition stored :: "nat \<Rightarrow> string \<Rightarrow> octet list \<Rightarrow> bool \<Rightarrow> 'q IperfFileTransfer \<Rightarrow> 'q IperfFileTransfer \<Rightarrow> bool" where
  "stored i name c is_last T U \<longleftrightarrow> length (x_streams U) = length (x_streams T)
     \<and> x_disk U = (x_disk T)(name \<mapsto> c)
     \<and> (if is_last
        then f_file_writer (x_streams U ! i) = None
          \<and> num_files (t_config U) = max 0 (num_files (t_config T) - 1)
          \<and> t_state U = (if num_files (t_config T) \<le> 1 then TEST_DONE else t_state T)
        else receiving i name c U \<and> num_files (t_config U) = num_files (t_config T) \<and> t_state U = t_state T)"

lemma write_at_end: "write_at pre (length pre) vs = pre @ vs"
  by (simp add: write_at_def)

lemma store_block_ok:
  assumes rc: "receiving i name pre T" and pl: "payload_of (density_lib E) (has_comp h) payload chunk"
    and seq: "file_seq h < 10"
  shows "returns (store_block E False i h payload (int (length payload)) T) (stored i name (pre @ chunk) (fin h) T)"
proof -
  have vs: "(if has_comp h then Decompress (density_lib E) (Some payload) (int (length payload)) True (int max_decompressed_buf_sz)
             else payload) = chunk" and ne: "0 < int (length payload)" "chunk \<noteq> []"
    using pl by (auto simp: payload_of_def split: if_splits)
  let ?w = "\<lparr>w_path = name, w_open = True, w_bad = False, w_pos = length pre\<rparr>"
  have w: "f_file_writer (x_streams T ! i) = Some ?w" and i: "i < length (x_streams T)" and d: "x_disk T name = Some pre"
    using rc by (auto simp: receiving_def)
  have "write_data False i ?w chunk T = (True, upd_stream i (\<lambda>s. s\<lparr>f_file_writer := Some (?w\<lparr>w_pos := length pre + length chunk\<rparr>)\<rparr>)
      (T\<lparr>x_disk := (x_disk T)(name \<mapsto> pre @ chunk)\<rparr>))"
    by (simp add: write_data_def d write_at_end)
  then show ?thesis
    unfolding store_block_def using w i seq ne
    by (simp only: vs) (auto simp: Let_def returns_def stored_def receiving_def finish_file_def)
qed

text \<open>The meta data of a first block is read back.\<close>

definition meta_named :: "file_meta \<Rightarrow> string \<Rightarrow> bool" where
  "meta_named m file_name \<longleftrightarrow> name_ok file_name \<and> length (fm_sha256sum m) = 64
     \<and> fm_file_name m = name_field 256 (name_only file_name) \<and> fm_file_extension m = name_field 16 (extension file_name)"

lemma meta_parts:
  assumes "meta_named m s"
  shows "name_ok s" and "length (fm_sha256sum m) = 64" and "length (fm_file_name m) = 256" and "length (fm_file_extension m) = 16"
    and "fm_file_name m = name_field 256 (name_only s)" and "fm_file_extension m = name_field 16 (extension s)"
    and "length (name_only s) < 256" and "length (extension s) < 16"
proof -
  show ok: "name_ok s" and "length (fm_sha256sum m) = 64" and fn: "fm_file_name m = name_field 256 (name_only s)"
    and fe: "fm_file_extension m = name_field 16 (extension s)"
    using assms unfolding meta_named_def by blast+
  show ln: "length (name_only s) < 256" "length (extension s) < 16" using ok unfolding name_ok_def by blast+
  show "length (fm_file_name m) = 256" unfolding fn by (rule name_field_split(2) [OF name_ok_parts(1) [OF ok] ln(1)])
  show "length (fm_file_extension m) = 16" unfolding fe by (rule name_field_split(2) [OF name_ok_parts(2) [OF ok] ln(2)])
qed

lemma meta_layout:
  assumes "meta_named m s"
  shows "length (enc_file_meta m) = 360"
    and "drop 88 (enc_file_meta m) = fm_file_name m @ fm_file_extension m"
    and "drop 344 (enc_file_meta m) = fm_file_extension m"
proof -
  note l = meta_parts(2-4) [OF assms]
  from l show "length (enc_file_meta m) = 360" by (rule length_enc_file_meta)
  define pre where "pre = enc64 (fm_magic m) @ enc64 (fm_stream_identifier m) @
     enc64 (pack_length (fm_compression m) (fm_reserved m) (fm_file_length m)) @ fm_sha256sum m"
  have e: "enc_file_meta m = pre @ fm_file_name m @ fm_file_extension m" by (simp add: enc_file_meta_def pre_def)
  have lp: "length pre = 88" using l(1) by (simp add: pre_def)
  show "drop 88 (enc_file_meta m) = fm_file_name m @ fm_file_extension m" unfolding e using lp by simp
  show "drop 344 (enc_file_meta m) = fm_file_extension m" unfolding e using lp l(2) by simp
qed

lemma ReadFileNames_ok:
  assumes "meta_named m s"
  shows "ReadFileNames (h # enc_file_meta m @ payload) 1 = Inr (name_only s, extension s)"
proof -
  define b where "b = h # enc_file_meta m @ payload"
  note l = meta_layout [OF assms] and p = meta_parts [OF assms]
  have d: "drop (Suc k) b = drop k (enc_file_meta m) @ payload" if "k \<le> 360" for k
    using l(1) that by (simp add: b_def)
  have n1: "drop (1 + 88) b = name_field 256 (name_only s) @ fm_file_extension m @ payload"
    using d [of 88] unfolding l(2) p(5) by simp
  have n2: "drop (1 + 344) b = name_field 16 (extension s) @ payload"
    using d [of 344] unfolding l(3) p(6) by simp
  show ?thesis
    unfolding b_def [symmetric] ReadFileNames_def max_name_length_def max_extension_length_def
      read_name_field [OF name_ok_parts(1) [OF p(1)] p(7) n1] read_name_field [OF name_ok_parts(2) [OF p(1)] p(8) n2]
    by (simp only: rbind_Inr)
qed

text \<open>
  The checksum file is written next to the file when the block says there is one; its name lacks the
  extension. It must not be the file itself.
\<close>

definition hash_file :: "string \<Rightarrow> string" where
  "hash_file s = name_only s @ ''.sha256sum''"

definition with_hash :: "'q file_env \<Rightarrow> bool \<Rightarrow> string \<Rightarrow> file_meta \<Rightarrow> (string \<rightharpoonup> octet list) \<Rightarrow> (string \<rightharpoonup> octet list)" where
  "with_hash E hashed s m d =
     (if hashed \<and> fs_can_open E (hash_file s) then d(hash_file s \<mapsto> fm_sha256sum m @ [10]) else d)"

lemma open_file_ok:
  assumes m: "meta_named m s" and i: "i < length (x_streams T)" and op: "fs_can_open E (received_name s)"
  shows "\<exists>U. open_file E i h (h0 # enc_file_meta m @ payload) T = Inr (True, U) \<and> receiving i (received_name s) [] U
    \<and> length (x_streams U) = length (x_streams T) \<and> t_config U = t_config T \<and> t_state U = t_state T
    \<and> x_disk U = (with_hash E (has_sum h) s m (x_disk T))(received_name s \<mapsto> [])"
proof -
  define b where "b = h0 # enc_file_meta m @ payload"
  have lb: "361 \<le> length b" using meta_layout(1) [OF m] by (simp add: b_def)
  have "drop 24 (enc_file_meta m) = fm_sha256sum m @ fm_file_name m @ fm_file_extension m" by (simp add: enc_file_meta_def)
  then have "drop 25 b = fm_sha256sum m @ fm_file_name m @ fm_file_extension m @ payload"
    using meta_layout(1) [OF m] by (simp add: b_def)
  then have pk: "peek b (1 + 24) 64 = Inr (fm_sha256sum m)" using lb m by (simp add: peek_def meta_named_def)
  define V where "V = T\<lparr>x_disk := with_hash E (has_sum h) s m (x_disk T)\<rparr>"
  have w: "(if has_sum h then WriteFileSha256 E (name_only s @ ''.sha256sum'') b 1 T else Inr T) = Inr V"
    unfolding WriteFileSha256_def max_hash_length_def pk V_def with_hash_def hash_file_def by simp
  obtain len where len: "load64 b (1 + 16) = Inr len" using lb by (simp add: load64_def peek_ok)
  define U where "U = upd_stream i (\<lambda>r. r\<lparr>f_file_name := received_name s, f_file_length := unpack_length len,
      f_file_writer := Some \<lparr>w_path = received_name s, w_open = True, w_bad = False, w_pos = 0\<rparr>\<rparr>) V"
  have nm: "(if extension s = '''' then name_only s else name_only s @ ''.'' @ extension s) = received_name s"
    by (simp only: received_name_def)
  have "open_file E i h b T = Inr (True, let T = U\<lparr>x_disk := (x_disk U)(received_name s \<mapsto> [])\<rparr>
      in if is_debug_mode (t_config T) then T else x_emit (BarRegister (file_seq h) (''Receiving file : '' @ received_name s)) T)"
    unfolding open_file_def sizeof_bk_header_def b_def [symmetric] ReadFileNames_ok [OF m, of h0 payload, folded b_def]
      rbind_Inr prod.case w len Let_def nm U_def using op by (simp only: not_True_eq_False if_False)
  then show ?thesis
    unfolding b_def [symmetric] using i by (simp add: Let_def receiving_def U_def V_def)
qed

text \<open>One block, wherever it stands in its file.\<close>

definition at_position :: "nat \<Rightarrow> string \<Rightarrow> octet list \<Rightarrow> 'q IperfFileTransfer \<Rightarrow> bool" where
  "at_position i name pre T \<longleftrightarrow> (if pre = [] then i < length (x_streams T) else receiving i name pre T)"

definition disk_after :: "'q file_env \<Rightarrow> bool \<Rightarrow> bool \<Rightarrow> string \<Rightarrow> file_meta \<Rightarrow> octet list \<Rightarrow> (string \<rightharpoonup> octet list) \<Rightarrow> (string \<rightharpoonup> octet list)" where
  "disk_after E first hashed s m c d = (if first then with_hash E hashed s m d else d)(received_name s \<mapsto> c)"

lemma HandleReceivedFileData_ok:
  assumes bl: "is_block (density_lib E) m seq hashed (pre = []) is_last chunk msg"
    and m: "meta_named m s" and op: "fs_can_open E (received_name s)" and seq: "seq < 10"
    and pos: "at_position i (received_name s) pre T"
  shows "returns (HandleReceivedFileData E False i msg T) (\<lambda>U. length (x_streams U) = length (x_streams T)
     \<and> x_disk U = disk_after E (pre = []) hashed s m (pre @ chunk) (x_disk T)
     \<and> (if is_last
        then f_file_writer (x_streams U ! i) = None \<and> num_files (t_config U) = max 0 (num_files (t_config T) - 1)
          \<and> t_state U = (if num_files (t_config T) \<le> 1 then TEST_DONE else t_state T)
        else receiving i (received_name s) (pre @ chunk) U
          \<and> num_files (t_config U) = num_files (t_config T) \<and> t_state U = t_state T))"
proof -
  obtain zipped payload where pl: "payload_of (density_lib E) zipped payload chunk"
    and msg: "msg = enc_bk_header \<lparr>syn = (pre = []), fin = is_last, has_sum = hashed, has_comp = zipped, file_seq = seq\<rparr>
                # (if pre = [] then enc_file_meta m else []) @ payload"
    using bl by (auto simp: is_block_def)
  let ?h = "\<lparr>syn = (pre = []), fin = is_last, has_sum = hashed, has_comp = zipped, file_seq = seq\<rparr>"
  have dec: "dec_bk_header (enc_bk_header ?h) = ?h" using seq by (intro dec_enc_bk_header) simp
  have i: "i < length (x_streams T)" using pos by (auto simp: at_position_def receiving_def split: if_splits)
  have l0: "load8 msg 0 = Inr (enc_bk_header ?h)" by (simp add: msg load8_hd)
  have sb: "returns (store_block E False i ?h payload (int (length payload)) V) (stored i (received_name s) (pre @ chunk) is_last V)"
    if "receiving i (received_name s) pre V" for V
    using store_block_ok [OF that, of E ?h payload chunk] pl seq by simp
  show ?thesis
  proof (cases "pre = []")
    case True
    from open_file_ok [OF m i op, of ?h "enc_bk_header ?h" payload] obtain V where
      V: "open_file E i ?h msg T = Inr (True, V)" "receiving i (received_name s) [] V" "length (x_streams V) = length (x_streams T)"
        "t_config V = t_config T" "t_state V = t_state T"
        "x_disk V = (with_hash E hashed s m (x_disk T))(received_name s \<mapsto> [])"
      using True msg by auto
    have len: "int (length msg) - 361 = int (length payload)" "drop 361 msg = payload"
      using meta_layout(1) [OF m] True by (simp_all add: msg)
    have "HandleReceivedFileData E False i msg T = store_block E False i ?h payload (int (length payload)) V"
      using i l0 dec V(1) True len by (simp add: HandleReceivedFileData_def Let_def sizeof_bk_header_def sizeof_file_meta_def)
    moreover have "returns (store_block E False i ?h payload (int (length payload)) V) (stored i (received_name s) (pre @ chunk) is_last V)"
      using sb V(2) True by simp
    ultimately show ?thesis
      using V by (auto elim!: returns_mono simp: stored_def disk_after_def True)
  next
    case False
    have len: "int (length msg) - 1 = int (length payload)" "drop 1 msg = payload" using False by (simp_all add: msg)
    have "HandleReceivedFileData E False i msg T = store_block E False i ?h payload (int (length payload)) T"
      using i l0 dec False len by (simp add: HandleReceivedFileData_def Let_def sizeof_bk_header_def)
    moreover have "returns (store_block E False i ?h payload (int (length payload)) T) (stored i (received_name s) (pre @ chunk) is_last T)"
      using sb pos False by (simp add: at_position_def)
    ultimately show ?thesis using False by (auto elim!: returns_mono simp: stored_def disk_after_def)
  qed
qed

section \<open>Whole files\<close>

lemma carried_Nil: "carried D m seq hashed n pos msgs [] \<Longrightarrow> msgs = []"
  by (cases msgs) (auto simp: is_block_def payload_of_def)

text \<open>What the transfer looks like when a file has been received; \<open>first\<close>: from its first block on.\<close>

definition file_received ::
  "'q file_env \<Rightarrow> nat \<Rightarrow> bool \<Rightarrow> bool \<Rightarrow> string \<Rightarrow> file_meta \<Rightarrow> octet list \<Rightarrow> 'q IperfFileTransfer \<Rightarrow> 'q IperfFileTransfer \<Rightarrow> bool" where
  "file_received E i first hashed s m c T U \<longleftrightarrow> length (x_streams U) = length (x_streams T)
     \<and> x_disk U = disk_after E first hashed s m c (x_disk T)
     \<and> f_file_writer (x_streams U ! i) = None
     \<and> num_files (t_config U) = max 0 (num_files (t_config T) - 1)
     \<and> t_state U = (if num_files (t_config T) \<le> 1 then TEST_DONE else t_state T)"

lemma disk_after_twice [simp]:
  "disk_after E False hashed s m c' (disk_after E first hashed s m c d) = disk_after E first hashed s m c' d"
  by (simp add: disk_after_def)

lemma receive_file:
  assumes "carried (density_lib E) m seq hashed (length pre + length c) (length pre) msgs c" and "c \<noteq> []"
    and m: "meta_named m s" and op: "fs_can_open E (received_name s)" and seq: "seq < 10"
    and "at_position i (received_name s) pre T"
  shows "returns (rfold (HandleReceivedFileData E False i) msgs T) (file_received E i (pre = []) hashed s m (pre @ c) T)"
  using assms(1,2,6)
proof (induction msgs arbitrary: pre c T)
  case Nil
  then show ?case by simp
next
  case (Cons msg msgs)
  let ?n = "length pre + length c"
  obtain chunk rest where cr: "c = chunk @ rest"
      "is_block (density_lib E) m seq hashed (length pre = 0) (length pre + length chunk = ?n) chunk msg"
      "carried (density_lib E) m seq hashed ?n (length pre + length chunk) msgs rest"
    using Cons.prems(1) by auto
  have last_iff: "length pre + length chunk = ?n \<longleftrightarrow> rest = []" by (simp add: cr(1))
  have "is_block (density_lib E) m seq hashed (pre = []) (rest = []) chunk msg" using cr(2) last_iff by simp
  note step = HandleReceivedFileData_ok [OF this m op seq Cons.prems(3)]
  from step obtain U where U: "HandleReceivedFileData E False i msg T = Inr U" "length (x_streams U) = length (x_streams T)"
      "x_disk U = disk_after E (pre = []) hashed s m (pre @ chunk) (x_disk T)"
      "if rest = []
       then f_file_writer (x_streams U ! i) = None \<and> num_files (t_config U) = max 0 (num_files (t_config T) - 1)
          \<and> t_state U = (if num_files (t_config T) \<le> 1 then TEST_DONE else t_state T)
       else receiving i (received_name s) (pre @ chunk) U
          \<and> num_files (t_config U) = num_files (t_config T) \<and> t_state U = t_state T"
    by (elim returnsE) auto
  show ?case
  proof (cases "rest = []")
    case True
    then have "msgs = []" using cr(3) carried_Nil by blast
    then show ?thesis using U True cr(1) by (simp add: returns_def file_received_def)
  next
    case False
    have ne: "chunk \<noteq> []" using cr(2) by (auto simp: is_block_def payload_of_def)
    have "returns (rfold (HandleReceivedFileData E False i) msgs U) (file_received E i (pre @ chunk = []) hashed s m ((pre @ chunk) @ rest) U)"
    proof (rule Cons.IH)
      show "carried (density_lib E) m seq hashed (length (pre @ chunk) + length rest) (length (pre @ chunk)) msgs rest"
        using cr(1,3) by (simp add: add.assoc)
      show "rest \<noteq> []" by (rule False)
      show "at_position i (received_name s) (pre @ chunk) U" using U(4) False ne by (simp add: at_position_def)
    qed
    moreover have "rfold (HandleReceivedFileData E False i) (msg # msgs) T = rfold (HandleReceivedFileData E False i) msgs U"
      using U(1) by simp
    moreover have "file_received E i (pre = []) hashed s m (pre @ c) T W"
      if "file_received E i False hashed s m ((pre @ chunk) @ rest) U W" for W
      using that U False cr(1) by (auto simp: file_received_def)
    ultimately show ?thesis using ne by (auto elim: returns_mono)
  qed
qed

text \<open>
  Several files over one connection: \<open>s\<close> the name, \<open>m\<close> the meta data, \<open>seq\<close> the number, \<open>hashed\<close> whether a checksum
  travels along, \<open>c\<close> the content.
\<close>

type_synonym sent_file = "string \<times> file_meta \<times> nat \<times> bool \<times> octet list"

definition sent_file_ok :: "'q file_env \<Rightarrow> sent_file \<Rightarrow> octet list list \<Rightarrow> bool" where
  "sent_file_ok E sf msgs = (case sf of (s, m, seq, hashed, c) \<Rightarrow>
     carried (density_lib E) m seq hashed (length c) 0 msgs c \<and> c \<noteq> [] \<and> meta_named m s
     \<and> fs_can_open E (received_name s) \<and> seq < 10)"

fun disk_with :: "'q file_env \<Rightarrow> sent_file list \<Rightarrow> (string \<rightharpoonup> octet list) \<Rightarrow> (string \<rightharpoonup> octet list)" where
  "disk_with E [] d = d"
| "disk_with E ((s, m, seq, hashed, c) # sfs) d = disk_with E sfs (disk_after E True hashed s m c d)"

lemma receive_files:
  assumes "list_all2 (sent_file_ok E) sfs msgss" and "i < length (x_streams T)" and "sfs \<noteq> []"
    and "int (length sfs) \<le> num_files (t_config T)"
  shows "returns (rfold (HandleReceivedFileData E False i) (concat msgss) T) (\<lambda>U. x_disk U = disk_with E sfs (x_disk T)
    \<and> num_files (t_config U) = num_files (t_config T) - int (length sfs)
    \<and> t_state U = (if num_files (t_config T) = int (length sfs) then TEST_DONE else t_state T))"
  using assms
proof (induction sfs msgss arbitrary: T rule: list_all2_induct)
  case (Cons sf sfs msgs msgss)
  obtain s m seq hashed c where sf: "sf = (s, m, seq, hashed, c)" by (cases sf)
  have ok: "carried (density_lib E) m seq hashed (length ([] :: octet list) + length c) (length ([] :: octet list)) msgs c" "c \<noteq> []" "meta_named m s"
      "fs_can_open E (received_name s)" "seq < 10"
    using Cons.hyps(1) by (auto simp: sent_file_ok_def sf)
  have "returns (rfold (HandleReceivedFileData E False i) msgs T) (file_received E i (([] :: octet list) = []) hashed s m ([] @ c) T)"
    by (rule receive_file [OF ok]) (use Cons.prems in \<open>simp add: at_position_def\<close>)
  then obtain U where U: "rfold (HandleReceivedFileData E False i) msgs T = Inr U" "file_received E i True hashed s m c T U"
    by (auto simp: returns_def)
  have n: "1 \<le> num_files (t_config T)" using Cons.prems(3) by simp
  show ?case
  proof (cases "sfs = []")
    case True
    then have "msgss = []" using Cons.hyps(2) by simp
    then show ?thesis using U n True by (auto simp: returns_def sf file_received_def rfold_append)
  next
    case False
    have "returns (rfold (HandleReceivedFileData E False i) (concat msgss) U) (\<lambda>W. x_disk W = disk_with E sfs (x_disk U)
      \<and> num_files (t_config W) = num_files (t_config U) - int (length sfs)
      \<and> t_state W = (if num_files (t_config U) = int (length sfs) then TEST_DONE else t_state U))"
      using Cons.IH [of U] Cons.prems U(2) False by (simp add: file_received_def)
    moreover have "\<not> num_files (t_config T) \<le> 1" using Cons.prems(3) False by (cases sfs) auto
    ultimately show ?thesis
      using U n by (auto elim!: returns_mono simp: sf file_received_def rfold_append)
  qed
qed simp

text \<open>Every file is there in the end when no two are received under one name and no checksum file is in the way.\<close>

definition names_apart :: "sent_file list \<Rightarrow> bool" where
  "names_apart sfs \<longleftrightarrow> distinct (map (\<lambda>(s, _). received_name s) sfs)
     \<and> (\<forall>(s, _) \<in> set sfs. \<forall>(s', _) \<in> set sfs. hash_file s \<noteq> received_name s')"

lemma disk_after_other:
  "name \<noteq> received_name s \<Longrightarrow> name \<noteq> hash_file s \<Longrightarrow> disk_after E first hashed s m c d name = d name"
  by (simp add: disk_after_def with_hash_def)

lemma disk_with_other:
  "(\<forall>(s, _) \<in> set sfs. name \<noteq> received_name s \<and> name \<noteq> hash_file s) \<Longrightarrow> disk_with E sfs d name = d name"
  by (induction E sfs d rule: disk_with.induct) (auto simp: disk_after_other)

lemma disk_with_in:
  assumes "names_apart sfs" and "(s, m, seq, hashed, c) \<in> set sfs"
  shows "disk_with E sfs d (received_name s) = Some c"
  using assms
proof (induction sfs arbitrary: d)
  case (Cons sf sfs)
  have apart: "names_apart sfs" using Cons.prems(1) by (auto simp: names_apart_def)
  show ?case
  proof (cases "(s, m, seq, hashed, c) \<in> set sfs")
    case True
    then show ?thesis using Cons.IH [OF apart] by (cases sf) simp
  next
    case False
    then have sf: "sf = (s, m, seq, hashed, c)" using Cons.prems(2) by simp
    have "\<forall>(s', _) \<in> set sfs. received_name s \<noteq> received_name s' \<and> received_name s \<noteq> hash_file s'"
    proof (clarify, intro conjI notI)
      fix s' m' q' h' c'
      assume mem: "(s', m', q', h', c') \<in> set sfs"
      show False if "received_name s = received_name s'"
        using Cons.prems(1) mem that by (force simp: names_apart_def sf)
      show False if "received_name s = hash_file s'"
        using Cons.prems(1) mem that by (fastforce simp: names_apart_def sf)
    qed
    then show ?thesis using disk_with_other [of sfs "received_name s" E] by (simp add: sf disk_after_def)
  qed
qed simp

end
