(* ===== verification/File_Send.thy ===== *)
theory File_Send
  imports File_Receive
begin

text \<open>
  The sending side of a file transfer. \<open>send_inv\<close> is the invariant of a stream that sends the files
  \<open>fs\<close>: the messages accepted so far carry the files already sent and a prefix of the current one
  (\<open>phase\<close>), whatever the order of thread steps and connection events (\<open>quiet_run\<close>). The queue template is
  not part of the repository; \<open>is_fifo\<close> is the behaviour the program relies on.
\<close>

section \<open>The queue, the files, the accepted messages\<close>

definition is_fifo :: "'q file_env \<Rightarrow> ('q \<Rightarrow> File list) \<Rightarrow> bool" where
  "is_fifo E pend \<longleftrightarrow> pend (new_queue E) = []
     \<and> (\<forall>f q. length (pend q) < 100 \<longrightarrow> pend (Enqueue E f q) = pend q @ [f])
     \<and> (\<forall>q. pend q = [] \<longrightarrow> Dequeue E q = None)
     \<and> (\<forall>q f fs. pend q = f # fs \<longrightarrow> (\<exists>q'. Dequeue E q = Some (f, q') \<and> pend q' = fs))"

fun accepted :: "nat \<Rightarrow> file_out list \<Rightarrow> octet list list" where
  "accepted i [] = []"
| "accepted i (FSent j m flag ok # xs) = (if j = i \<and> ok then m # accepted i xs else accepted i xs)"
| "accepted i (_ # xs) = accepted i xs"

lemma accepted_append [simp]: "accepted i (xs @ ys) = accepted i xs @ accepted i ys"
  by (induction xs rule: accepted.induct) auto

definition file_content :: "'q file_env \<Rightarrow> File \<Rightarrow> octet list" where
  "file_content E f = (case fs_content E (f_path f) of None \<Rightarrow> [] | Some c \<Rightarrow> c)"

definition file_hashed :: "'q file_env \<Rightarrow> File \<Rightarrow> bool" where
  "file_hashed E f = fst (read_sha256 E (sha256_path (f_path f)))"

text \<open>A file that the sender can send: readable, of the size that was recorded, not empty, below 2 GiB.\<close>

definition sendable :: "'q file_env \<Rightarrow> File \<Rightarrow> bool" where
  "sendable E f \<longleftrightarrow> fs_content E (f_path f) = Some (file_content E f) \<and> file_sz f = int (length (file_content E f))
     \<and> file_content E f \<noteq> [] \<and> length (file_content E f) < 2 ^ 31 \<and> 0 \<le> bar_id f \<and> bar_id f < 10"

text \<open>The messages \<open>msgs\<close> carry the prefix \<open>c\<close> of the file.\<close>

definition carries_prefix :: "'q file_env \<Rightarrow> nat \<Rightarrow> File \<Rightarrow> octet list list \<Rightarrow> octet list \<Rightarrow> bool" where
  "carries_prefix E k f msgs c =
     carried (density_lib E) (make_meta E k f) (nat (bar_id f)) (file_hashed E f) (length (file_content E f)) 0 msgs c"

definition carries_file :: "'q file_env \<Rightarrow> nat \<Rightarrow> File \<Rightarrow> octet list list \<Rightarrow> bool" where
  "carries_file E k f msgs = carries_prefix E k f msgs (file_content E f)"

section \<open>The invariant of the sending thread\<close>

text \<open>In the middle of the file \<open>f\<close>: \<open>pre\<close> has been sent, \<open>chunk\<close> is being sent.\<close>

definition in_file :: "'q file_env \<Rightarrow> File \<Rightarrow> nat \<Rightarrow> sender_local \<Rightarrow> octet list \<Rightarrow> octet list \<Rightarrow> bool" where
  "in_file E f k l pre chunk \<longleftrightarrow> sendable E f \<and> cur_file l = f \<and> file_meta_data l = make_meta E k f
     \<and> file_content E f = pre @ chunk @ reader_rest l \<and> sent_bytes l = word_of_nat (length pre)
     \<and> total_file_length l = int (length (file_content E f)) \<and> \<not> reader_bad l
     \<and> file_seq (bk_hdr l) = nat (bar_id f) \<and> has_sum (bk_hdr l) = file_hashed E f
     \<and> (reader_eof l \<longrightarrow> reader_rest l = [])"

definition sending_block :: "'q file_env \<Rightarrow> File \<Rightarrow> nat \<Rightarrow> sender_local \<Rightarrow> octet list \<Rightarrow> octet list \<Rightarrow> bool" where
  "sending_block E f k l pre chunk \<longleftrightarrow> chunk \<noteq> [] \<and> nread l = length chunk
     \<and> is_block (density_lib E) (make_meta E k f) (nat (bar_id f)) (file_hashed E f) (pre = [])
          (length pre + length chunk = length (file_content E f)) chunk (send_msg l)"

text \<open>
  The files \<open>fs\<close> are sent in order: those already sent, the current one, and those still queued (\<open>p\<close>);
  \<open>a\<close> are the messages accepted so far.
\<close>

definition phase :: "'q file_env \<Rightarrow> File list \<Rightarrow> FileStream \<Rightarrow> File list \<Rightarrow> octet list list \<Rightarrow> bool" where
  "phase E fs s p a \<longleftrightarrow> (\<exists>sent msgss. list_all2 (carries_file E (f_id s)) sent msgss \<and>
     (case f_pc s of
        F_None \<Rightarrow> False
      | F_Fetch \<Rightarrow> fs = sent @ p \<and> a = concat msgss
      | F_Exited \<Rightarrow> fs = sent \<and> p = [] \<and> a = concat msgss \<and> f_is_done s
      | F_Retry \<Rightarrow> (\<exists>f msgs pre chunk. fs = sent @ f # p \<and> a = concat msgss @ msgs
          \<and> carries_prefix E (f_id s) f msgs pre \<and> in_file E f (f_id s) (f_loc s) pre chunk
          \<and> sending_block E f (f_id s) (f_loc s) pre chunk)
      | _ \<Rightarrow> (\<exists>f msgs pre. fs = sent @ f # p \<and> a = concat msgss @ msgs
          \<and> carries_prefix E (f_id s) f msgs pre \<and> in_file E f (f_id s) (f_loc s) pre [])))"

definition send_inv :: "'q file_env \<Rightarrow> ('q \<Rightarrow> File list) \<Rightarrow> nat \<Rightarrow> nat \<Rightarrow> File list \<Rightarrow> 'q IperfFileTransfer \<Rightarrow> bool" where
  "send_inv E pend m i fs T \<longleftrightarrow> i < length (x_streams T) \<and> t_state T \<noteq> TEST_DONE
     \<and> f_is_connected (x_streams T ! i) \<and> \<not> f_has_err_in_send (x_streams T ! i)
     \<and> 0 \<le> f_ideal_buffer_length (x_streams T ! i) \<and> f_ideal_buffer_length (x_streams T ! i) \<le> int m + 360
     \<and> (is_compression_enabled (t_config T) \<longrightarrow> density_ok (density_lib E) m max_decompressed_buf_sz)
     \<and> phase E fs (x_streams T ! i) (pend (x_pending T)) (accepted i (x_out T))"

section \<open>Blocks\<close>

lemma block_payload_ok:
  assumes "block_payload D compression want off chunk = Inr (zipped, payload)" and "chunk \<noteq> []" and "length chunk \<le> m"
    and "compression \<Longrightarrow> density_ok D m max_decompressed_buf_sz"
  shows "payload_of D zipped payload chunk"
proof (cases "zipped")
  case False
  then have "payload = chunk"
    using assms(1) by (auto simp: block_payload_def Let_def guard_def split: if_splits)
  then show ?thesis using False assms(2) by (simp add: payload_of_def)
next
  case True
  define c where "c = Compress D (Some chunk) (int (length chunk)) True (int (max_send_buf_sz - off))"
  have c: "compression" "payload = c" "c \<noteq> []"
    using assms(1) True by (auto simp: block_payload_def Let_def guard_def c_def split: if_splits)
  have "Decompress D (Some c) (int (length c)) True (int max_decompressed_buf_sz) = chunk"
    by (rule Decompress_Compress [OF assms(4) _ assms(3) c_def [symmetric] c(3)]) (use c(1) in \<open>simp_all add: max_decompressed_buf_sz_def\<close>)
  then show ?thesis using True c assms(2) by (simp add: payload_of_def)
qed

lemma small_signed: "- (2 ^ 31) \<le> x \<Longrightarrow> x < 2 ^ 31 \<Longrightarrow> sint (word_of_int x :: i32) = x"
  by (simp add: sint_sbintrunc' signed_take_bit_int_eq_self)

lemma read_len_bound:
  assumes "0 \<le> ideal" and "ideal \<le> int m + 360" and "m < 2000000000"
  shows "nat (ideal_file_read_len first ideal) \<le> m"
proof -
  have "ideal_file_read_len first ideal = (if first then ideal - 361 else ideal - 360)"
    using assms by (auto simp: ideal_file_read_len_def small_signed)
  then show ?thesis using assms by (auto split: if_splits)
qed

lemma of_nat_0_iff_small: "n < 2 ^ 31 \<Longrightarrow> (word_of_nat n :: u64) = 0 \<longleftrightarrow> n = 0"
proof
  assume "n < 2 ^ 31" and "(word_of_nat n :: u64) = 0"
  then have "unat (word_of_nat n :: u64) = 0" by simp
  then show "n = 0" using \<open>n < 2 ^ 31\<close> by (simp add: unat_of_nat)
qed simp

lemma sum_is_total:
  assumes "n < 2 ^ 31" "k < 2 ^ 31" "t < 2 ^ 31"
  shows "(word_of_nat n + word_of_nat k :: u64) = word_of_int (int t) \<longleftrightarrow> n + k = t"
proof -
  have "(word_of_nat n + word_of_nat k :: u64) = word_of_nat (n + k)" by simp
  moreover have "(word_of_int (int t) :: u64) = word_of_nat t" by simp
  moreover have "unat (word_of_nat (n + k) :: u64) = n + k" "unat (word_of_nat t :: u64) = t"
    using assms unat_of_nat [of "n + k", where 'a = 64] unat_of_nat [of t, where 'a = 64] by (simp_all del: of_nat_add)
  ultimately show ?thesis by (metis word_unat_eq_iff)
qed

lemma make_meta_named:
  "name_ok (filename (f_path f)) \<Longrightarrow> meta_named (make_meta E k f) (filename (f_path f))"
  by (auto simp: meta_named_def make_meta_def Let_def max_name_length_def max_extension_length_def read_sha256_def)

lemma in_file_small: "in_file E f k l pre chunk \<Longrightarrow> length pre + length chunk \<le> length (file_content E f) \<and> length (file_content E f) < 2 ^ 31"
  by (auto simp: in_file_def sendable_def)

text \<open>A block that was accepted extends the prefix that has been sent.\<close>

lemma carries_next:
  assumes "carries_prefix E k f msgs pre" and "in_file E f k l pre chunk" and "sending_block E f k l pre chunk"
  shows "carries_prefix E k f (msgs @ [send_msg l]) (pre @ chunk)"
    and "in_file E f k (l\<lparr>sent_bytes := sent_bytes l + word_of_nat (nread l)\<rparr>) (pre @ chunk) []"
proof -
  show "carries_prefix E k f (msgs @ [send_msg l]) (pre @ chunk)"
    unfolding carries_prefix_def
  proof (rule carried_append)
    show "carried (density_lib E) (make_meta E k f) (nat (bar_id f)) (file_hashed E f) (length (file_content E f)) (0 + length pre)
      [send_msg l] chunk"
      using assms(3) by (simp add: sending_block_def)
  qed (use assms(1) in \<open>simp add: carries_prefix_def\<close>)
  show "in_file E f k (l\<lparr>sent_bytes := sent_bytes l + word_of_nat (nread l)\<rparr>) (pre @ chunk) []"
    using assms(2,3) by (simp add: in_file_def sending_block_def)
qed

text \<open>The block that \<open>next_block\<close> makes.\<close>

lemma block_made:
  assumes inf: "in_file E f k l0 pre []" and rd: "read_file False n l0 = (chunk, l)" and ne: "chunk \<noteq> []" and "n \<le> m"
    and pl: "block_payload (density_lib E) compression want off chunk = Inr (zipped, payload)"
    and dens: "compression \<Longrightarrow> density_ok (density_lib E) m max_decompressed_buf_sz"
  shows "in_file E f k (make_block zipped payload chunk l) pre chunk" and "sending_block E f k (make_block zipped payload chunk l) pre chunk"
proof -
  have r: "chunk = take n (reader_rest l0)" "l = l0\<lparr>reader_rest := drop n (reader_rest l0), reader_eof := length (reader_rest l0) < n\<rparr>"
    using rd by (auto simp: read_file_def)
  have "length chunk \<le> n" by (simp add: r)
  then have p: "payload_of (density_lib E) zipped payload chunk" using block_payload_ok [OF pl ne _ dens] \<open>n \<le> m\<close> by simp
  have split: "file_content E f = pre @ chunk @ drop n (reader_rest l0)" using inf by (simp add: in_file_def r)
  have len: "int (length chunk) + int (length (reader_rest l0) - n) = int (length (reader_rest l0))"
    by (simp add: r min_def)
  show i2: "in_file E f k (make_block zipped payload chunk l) pre chunk"
    using inf split len by (auto simp: in_file_def make_block_def Let_def r(2))
  have small: "length pre < 2 ^ 31" "length chunk < 2 ^ 31" "length (file_content E f) < 2 ^ 31"
    using in_file_small [OF i2] by linarith+
  have z: "sent_bytes l = 0 \<longleftrightarrow> pre = []" using inf of_nat_0_iff_small [OF small(1)] by (simp add: in_file_def r(2))
  have t: "sent_bytes l + word_of_nat (length chunk) = word_of_int (total_file_length l)
      \<longleftrightarrow> length pre + length chunk = length (file_content E f)"
    using inf sum_is_total [OF small] by (simp add: in_file_def r(2))
  have h: "(bk_hdr l)\<lparr>syn := (pre = []), fin := (length pre + length chunk = length (file_content E f)), has_comp := zipped\<rparr>
      = \<lparr>syn = (pre = []), fin = (length pre + length chunk = length (file_content E f)), has_sum = file_hashed E f,
         has_comp = zipped, file_seq = nat (bar_id f)\<rparr>"
    using inf by (cases "bk_hdr l") (auto simp: in_file_def r(2))
  have mt: "file_meta_data l = make_meta E k f" using inf by (simp add: in_file_def r(2))
  show "sending_block E f k (make_block zipped payload chunk l) pre chunk"
    unfolding sending_block_def is_block_def make_block_def Let_def z t h mt using ne p by auto
qed

section \<open>The steps of the thread\<close>

lemmas pc_defs = goto_def upd_loc_def

lemmas block_defs = next_block_def read_file_def block_want_def block_off_def actual_file_read_len_def make_block_def
  max_send_buf_sz_def max_compress_buf_sz_def

lemma count_file_bytes_eff:
  assumes "i < length (x_streams T)"
  defines "s \<equiv> x_streams T ! i"
  shows "x_streams (count_file_bytes i T) ! i
      = s\<lparr>f_loc := (f_loc s)\<lparr>sent_bytes := sent_bytes (f_loc s) + word_of_nat (nread (f_loc s))\<rparr>, f_pc := F_Check\<rparr>"
    and "length (x_streams (count_file_bytes i T)) = length (x_streams T)"
    and "x_pending (count_file_bytes i T) = x_pending T" and "t_state (count_file_bytes i T) = t_state T"
    and "t_config (count_file_bytes i T) = t_config T"
    and "accepted j (x_out (count_file_bytes i T)) = accepted j (x_out T)"
  using assms(1) by (simp_all add: count_file_bytes_def Let_def pc_defs s_def)

lemma send_block_eff:
  assumes "send_block ok i T = Inr U" and "i < length (x_streams T)"
  defines "s \<equiv> x_streams T ! i"
  shows "x_streams U ! i = (if ok
      then s\<lparr>f_loc := (f_loc s)\<lparr>sent_bytes := sent_bytes (f_loc s) + word_of_nat (nread (f_loc s))\<rparr>, f_pc := F_Check\<rparr>
      else s\<lparr>f_pc := F_Retry\<rparr>)"
    and "length (x_streams U) = length (x_streams T)" and "x_pending U = x_pending T" and "t_state U = t_state T"
    and "t_config U = t_config T"
    and "accepted i (x_out U) = accepted i (x_out T) @ (if ok then [send_msg (f_loc s)] else [])"
  using assms(1,2)
  by (auto simp: send_block_def Let_def count_file_bytes_eff s_def pc_defs split: if_splits)

text \<open>Sending a prepared block keeps the phase.\<close>

lemma phase_send:
  assumes "list_all2 (carries_file E (f_id s)) sent msgss" and "fs = sent @ f # p" and "a = concat msgss @ msgs"
    and "carries_prefix E (f_id s) f msgs pre" and "in_file E f (f_id s) (f_loc s) pre chunk"
    and "sending_block E f (f_id s) (f_loc s) pre chunk"
  shows "phase E fs (if ok
      then s\<lparr>f_loc := (f_loc s)\<lparr>sent_bytes := sent_bytes (f_loc s) + word_of_nat (nread (f_loc s))\<rparr>, f_pc := F_Check\<rparr>
      else s\<lparr>f_pc := F_Retry\<rparr>) p (a @ (if ok then [send_msg (f_loc s)] else []))"
proof (cases ok)
  case True
  note nx = carries_next [OF assms(4-6)]
  show ?thesis unfolding phase_def
    by (intro exI [of _ sent] exI [of _ msgss] conjI) (use True assms(1-3) nx in auto)
next
  case False
  show ?thesis unfolding phase_def
    by (intro exI [of _ sent] exI [of _ msgss] conjI) (use False assms in auto)
qed

text \<open>Between two files.\<close>

lemma fetch_inv:
  assumes inv: "send_inv E pend m i fs T" and pc: "f_pc (x_streams T ! i) = F_Fetch"
    and q: "is_fifo E pend" and ok: "\<forall>f \<in> set fs. sendable E f"
  shows "send_inv E pend m i fs (fetch_file E i T)"
proof -
  let ?s = "x_streams T ! i"
  have i: "i < length (x_streams T)" and st: "t_state T \<noteq> TEST_DONE" and er: "\<not> f_has_err_in_send ?s"
    and ph: "phase E fs ?s (pend (x_pending T)) (accepted i (x_out T))"
    using inv by (auto simp: send_inv_def)
  obtain sent msgss where sm: "list_all2 (carries_file E (f_id ?s)) sent msgss" "fs = sent @ pend (x_pending T)"
      "accepted i (x_out T) = concat msgss"
    using ph pc by (auto simp: phase_def)
  show ?thesis
  proof (cases "pend (x_pending T)")
    case Nil
    then have dq: "Dequeue E (x_pending T) = None" using q by (simp add: is_fifo_def)
    have "fetch_file E i T = goto i F_Exited (upd_stream i (\<lambda>s. s\<lparr>f_is_done := True\<rparr>) T)"
      using st er dq by (simp add: fetch_file_def Let_def)
    moreover have "phase E fs (?s\<lparr>f_is_done := True, f_pc := F_Exited\<rparr>) (pend (x_pending T)) (accepted i (x_out T))"
      unfolding phase_def using sm Nil by (intro exI [of _ sent] exI [of _ msgss]) simp
    ultimately show ?thesis using inv i by (simp add: send_inv_def pc_defs)
  next
    case (Cons f p)
    then obtain q' where dq: "Dequeue E (x_pending T) = Some (f, q')" "pend q' = p" using q unfolding is_fifo_def by blast
    have sf: "sendable E f" using ok sm(2) Cons by simp
    then have c: "fs_content E (f_path f) = Some (file_content E f)" by (simp add: sendable_def)
    define l where "l = (f_loc ?s)\<lparr>cur_file := f, bk_hdr := (bk_hdr (f_loc ?s))\<lparr>file_seq := nat (bar_id f mod 16),
        has_sum := fst (read_sha256 E (sha256_path (f_path f)))\<rparr>, file_meta_data := make_meta E (f_id ?s) f,
        reader_rest := file_content E f, reader_eof := False, reader_bad := False, sent_bytes := 0,
        total_file_length := sint (word_of_int (file_sz f) :: i32)\<rparr>"
    have str: "x_streams (fetch_file E i T) ! i = ?s\<lparr>f_loc := l, f_pc := F_Check\<rparr>" "x_pending (fetch_file E i T) = q'"
      "length (x_streams (fetch_file E i T)) = length (x_streams T)" "t_state (fetch_file E i T) = t_state T"
      "t_config (fetch_file E i T) = t_config T" "accepted i (x_out (fetch_file E i T)) = accepted i (x_out T)"
      using st er dq(1) c i by (simp_all add: fetch_file_def Let_def pc_defs l_def)
    have "sint (word_of_int (file_sz f) :: i32) = int (length (file_content E f))"
      using sf small_signed [of "file_sz f"] by (simp add: sendable_def)
    moreover have "bar_id f mod 16 = bar_id f" using sf by (simp add: sendable_def)
    ultimately have "in_file E f (f_id ?s) l [] []" using sf by (simp add: in_file_def l_def file_hashed_def)
    then have "phase E fs (?s\<lparr>f_loc := l, f_pc := F_Check\<rparr>) p (concat msgss)"
      unfolding phase_def using sm Cons
      by (intro exI [of _ sent] exI [of _ msgss]) (auto simp: carries_prefix_def intro!: exI [of _ "[]"])
    then show ?thesis using inv i str sm(3) dq(2) by (simp add: send_inv_def)
  qed
qed

text \<open>The next block.\<close>

lemma next_block_cases:
  assumes "next_block E ob i T = Inr U"
  defines "s \<equiv> x_streams T ! i" and "c \<equiv> is_compression_enabled (t_config T)"
  obtains
    (empty) l where "read_file (ob_bad ob) (actual_file_read_len c s) (f_loc s) = ([], l)"
      "U = goto i F_Check (upd_loc i (\<lambda>_. l\<lparr>bk_hdr := (bk_hdr l)\<lparr>syn := sent_bytes l = 0, has_comp := c\<rparr>\<rparr>) T)"
  | (block) chunk l zipped payload where "read_file (ob_bad ob) (actual_file_read_len c s) (f_loc s) = (chunk, l)" "chunk \<noteq> []"
      "block_payload (density_lib E) c (block_want s) (block_off l) chunk = Inr (zipped, payload)"
      "send_block (ob_sent ob) i (upd_loc i (\<lambda>_. make_block zipped payload chunk l) T) = Inr U"
proof -
  obtain chunk l where rd: "read_file (ob_bad ob) (actual_file_read_len c s) (f_loc s) = (chunk, l)" by fastforce
  then show thesis
    using assms(1) that unfolding next_block_def s_def [symmetric] c_def [symmetric]
    by (cases "chunk = []") (auto simp: Let_def rbind_eq_Inr s_def c_def)
qed

lemma read_nothing:
  "read_file False n l = ([], l') \<Longrightarrow> in_file E f k l pre [] \<Longrightarrow>
     in_file E f k (l'\<lparr>bk_hdr := (bk_hdr l')\<lparr>syn := b, has_comp := c\<rparr>\<rparr>) pre []"
  by (auto simp: read_file_def in_file_def)

lemma next_block_inv:
  assumes inv: "send_inv E pend m i fs T" and pc: "f_pc (x_streams T ! i) = F_Block"
    and st: "next_block E ob i T = Inr U" and ob: "\<not> ob_bad ob" and m: "m < 2000000000"
  shows "send_inv E pend m i fs U"
proof -
  define s where "s = x_streams T ! i"
  have i: "i < length (x_streams T)" and ideal: "0 \<le> f_ideal_buffer_length s" "f_ideal_buffer_length s \<le> int m + 360"
    and ph: "phase E fs s (pend (x_pending T)) (accepted i (x_out T))"
    and dens: "is_compression_enabled (t_config T) \<Longrightarrow> density_ok (density_lib E) m max_decompressed_buf_sz"
    using inv by (auto simp: send_inv_def s_def)
  obtain sent msgss f msgs pre where sm: "list_all2 (carries_file E (f_id s)) sent msgss" "fs = sent @ f # pend (x_pending T)"
      "accepted i (x_out T) = concat msgss @ msgs" "carries_prefix E (f_id s) f msgs pre" "in_file E f (f_id s) (f_loc s) pre []"
    using ph pc by (auto simp: phase_def s_def)
  from st show ?thesis
  proof (cases rule: next_block_cases)
    case (empty l)
    note empty = empty [folded s_def]
    define l2 where "l2 = l\<lparr>bk_hdr := (bk_hdr l)\<lparr>syn := sent_bytes l = 0, has_comp := is_compression_enabled (t_config T)\<rparr>\<rparr>"
    have "in_file E f (f_id s) l2 pre []" unfolding l2_def using read_nothing [OF _ sm(5)] empty(1) ob by simp
    then have "phase E fs (s\<lparr>f_loc := l2, f_pc := F_Check\<rparr>) (pend (x_pending T)) (accepted i (x_out T))"
      unfolding phase_def using sm by (intro exI [of _ sent] exI [of _ msgss]) auto
    then show ?thesis using inv i unfolding empty(2) l2_def [symmetric] by (simp add: send_inv_def pc_defs s_def)
  next
    case (block chunk l zipped payload)
    note block = block [folded s_def]
    define l2 where "l2 = make_block zipped payload chunk l"
    have n: "actual_file_read_len (is_compression_enabled (t_config T)) s \<le> m"
      using read_len_bound [OF ideal m] by (auto simp: actual_file_read_len_def block_want_def min_le_iff_disj)
    have rd: "read_file False (actual_file_read_len (is_compression_enabled (t_config T)) s) (f_loc s) = (chunk, l)" using block(1) ob by simp
    note made = block_made [OF sm(5) rd block(2) n block(3) dens, folded l2_def]
    have iV: "i < length (x_streams (upd_loc i (\<lambda>_. l2) T))" using i by (simp add: pc_defs)
    have sV: "x_streams (upd_loc i (\<lambda>_. l2) T) ! i = s\<lparr>f_loc := l2\<rparr>" using i by (simp add: pc_defs s_def)
    note eff = send_block_eff [OF block(4) [folded l2_def] iV, unfolded sV]
    have "phase E fs (x_streams U ! i) (pend (x_pending T)) (accepted i (x_out T) @ (if ob_sent ob then [send_msg l2] else []))"
      using phase_send [OF _ sm(2,3), of E "s\<lparr>f_loc := l2\<rparr>" pre chunk "ob_sent ob"] sm(1,4) made
      unfolding eff(1) by (cases "ob_sent ob") simp_all
    then show ?thesis using inv i eff by (simp add: send_inv_def pc_defs s_def split: if_splits)
  qed
qed

section \<open>Every schedule\<close>

text \<open>
  What may happen while the files of stream \<open>i\<close> are sent: steps of its thread without device errors, and the
  events of its connection, which may block and unblock it and change the length of its blocks.
\<close>

definition quiet :: "nat \<Rightarrow> nat \<Rightarrow> file_event \<Rightarrow> bool" where
  "quiet m i e \<longleftrightarrow> (case e of
      FeThread j ob \<Rightarrow> j = i \<and> \<not> ob_bad ob
    | FeCallback fi cn ideal ev b len user \<Rightarrow> user = Some i \<and>
        (ev = BATS_CONNECTION_WRITABLE \<or> ev = BATS_CONNECTION_BUFFER_FULL \<or> ev = BATS_CONNECTION_ALL_DATA_ACKED
         \<or> ev = BATS_CONNECTION_IDEAL_BUFFER_LENGTH \<and> 0 \<le> len \<and> len \<le> int m + 360)
    | _ \<Rightarrow> False)"

lemma phase_cong:
  "f_id s' = f_id s \<Longrightarrow> f_pc s' = f_pc s \<Longrightarrow> f_loc s' = f_loc s \<Longrightarrow> f_is_done s' = f_is_done s \<Longrightarrow> phase E fs s' p a = phase E fs s p a"
  by (cases "f_pc s") (simp_all add: phase_def)

lemma goto_inv:
  assumes "send_inv E pend m i fs T" and "phase E fs ((x_streams T ! i)\<lparr>f_pc := pc\<rparr>) (pend (x_pending T)) (accepted i (x_out T))"
  shows "send_inv E pend m i fs (goto i pc T)"
  using assms by (simp add: send_inv_def pc_defs)

lemma check_inv:
  assumes inv: "send_inv E pend m i fs T" and pc: "f_pc (x_streams T ! i) = F_Check" and st: "file_thread_step E ob i F_Check T = Inr U"
  shows "send_inv E pend m i fs U"
proof -
  let ?s = "x_streams T ! i"
  have act: "IsInActive T i" and er: "\<not> f_has_err_in_send ?s" using inv by (auto simp: send_inv_def IsInActive_def)
  obtain sent msgss f msgs pre where sm: "list_all2 (carries_file E (f_id ?s)) sent msgss" "fs = sent @ f # pend (x_pending T)"
    "accepted i (x_out T) = concat msgss @ msgs" "carries_prefix E (f_id ?s) f msgs pre" "in_file E f (f_id ?s) (f_loc ?s) pre []"
    using inv pc by (auto simp: send_inv_def phase_def)
  show ?thesis
  proof (cases "reader_eof (f_loc ?s)")
    case True
    then have "pre = file_content E f" using sm(5) by (simp add: in_file_def)
    then have "carries_file E (f_id ?s) f msgs" using sm(4) by (simp add: carries_file_def)
    then have "phase E fs (?s\<lparr>f_pc := F_Fetch\<rparr>) (pend (x_pending T)) (accepted i (x_out T))"
      unfolding phase_def using sm(1-3) by (intro exI [of _ "sent @ [f]"] exI [of _ "msgss @ [msgs]"]) (simp add: list_all2_appendI)
    moreover have "U = goto i F_Fetch T" using st True by simp
    ultimately show ?thesis using goto_inv [OF inv] by simp
  next
    case False
    then have "U = goto i F_Wait T" using st act er sm(5) by (simp add: Let_def in_file_def)
    moreover have "phase E fs (?s\<lparr>f_pc := F_Wait\<rparr>) (pend (x_pending T)) (accepted i (x_out T))"
      unfolding phase_def using sm by (intro exI [of _ sent] exI [of _ msgss]) auto
    ultimately show ?thesis using goto_inv [OF inv] by simp
  qed
qed

lemma retry_inv:
  assumes inv: "send_inv E pend m i fs T" and pc: "f_pc (x_streams T ! i) = F_Retry" and sb: "send_block ok i T = Inr U"
  shows "send_inv E pend m i fs U"
proof -
  let ?s = "x_streams T ! i"
  obtain sent msgss f msgs pre chunk where sm: "list_all2 (carries_file E (f_id ?s)) sent msgss" "fs = sent @ f # pend (x_pending T)"
    "accepted i (x_out T) = concat msgss @ msgs" "carries_prefix E (f_id ?s) f msgs pre" "in_file E f (f_id ?s) (f_loc ?s) pre chunk"
    "sending_block E f (f_id ?s) (f_loc ?s) pre chunk"
    using inv pc by (auto simp: send_inv_def phase_def)
  have "i < length (x_streams T)" using inv by (simp add: send_inv_def)
  from send_block_eff [OF sb this] show ?thesis
    using phase_send [OF sm, of ok] inv unfolding send_inv_def by (simp split: if_splits)
qed

lemma thread_inv:
  assumes inv: "send_inv E pend m i fs T" and st: "file_thread_step E ob i (f_pc (x_streams T ! i)) T = Inr U"
    and "is_fifo E pend" and "\<forall>f \<in> set fs. sendable E f" and ob: "\<not> ob_bad ob" and m: "m < 2000000000"
  shows "send_inv E pend m i fs U"
proof -
  let ?s = "x_streams T ! i"
  have act: "IsInActive T i" and er: "\<not> f_has_err_in_send ?s"
    and ph: "phase E fs ?s (pend (x_pending T)) (accepted i (x_out T))"
    using inv by (auto simp: send_inv_def IsInActive_def)
  show ?thesis
  proof (cases "f_pc ?s")
    case F_Fetch
    then show ?thesis using fetch_inv [OF inv F_Fetch assms(3,4)] st by simp
  next
    case F_Check
    then show ?thesis using check_inv [OF inv F_Check] st by simp
  next
    case F_Wait
    then have "phase E fs (?s\<lparr>f_pc := F_Block\<rparr>) (pend (x_pending T)) (accepted i (x_out T))"
      using ph by (simp add: phase_def)
    moreover have "U = T \<or> U = goto i F_Block T" using st F_Wait by (auto simp: Let_def split: if_splits)
    ultimately show ?thesis using goto_inv [OF inv] inv by auto
  next
    case F_Block
    then show ?thesis using next_block_inv [OF inv F_Block _ ob m] st by simp
  next
    case F_Retry
    then have "U = T \<or> send_block (ob_sent ob) i T = Inr U" using st act er by (auto simp: Let_def split: if_splits)
    then show ?thesis using retry_inv [OF inv F_Retry] inv by blast
  qed (use ph inv st in \<open>auto simp: phase_def\<close>)
qed

lemma quiet_step:
  assumes inv: "send_inv E pend m i fs T" and st: "file_step E T e = Inr U" and e: "quiet m i e"
    and "is_fifo E pend" and "\<forall>f \<in> set fs. sendable E f" and "m < 2000000000"
  shows "send_inv E pend m i fs U"
proof -
  have i: "i < length (x_streams T)" using inv by (simp add: send_inv_def)
  show ?thesis
  proof (cases e)
    case (FeThread j ob)
    then show ?thesis using thread_inv [OF inv _ assms(4,5) _ assms(6), of ob U] st e i by (simp add: quiet_def)
  next
    case (FeCallback fi cn ideal ev b len user)
    obtain g where U: "U = upd_stream i g T" and g: "f_id (g s) = f_id s" "f_pc (g s) = f_pc s" "f_loc (g s) = f_loc s"
        "f_is_done (g s) = f_is_done s" "f_is_connected (g s) = f_is_connected s" "f_has_err_in_send (g s) = f_has_err_in_send s"
        "0 \<le> f_ideal_buffer_length s \<and> f_ideal_buffer_length s \<le> int m + 360 \<Longrightarrow>
         0 \<le> f_ideal_buffer_length (g s) \<and> f_ideal_buffer_length (g s) \<le> int m + 360" for s
    proof -
      have q: "user = Some i" "ev = BATS_CONNECTION_WRITABLE \<or> ev = BATS_CONNECTION_BUFFER_FULL \<or> ev = BATS_CONNECTION_ALL_DATA_ACKED
         \<or> ev = BATS_CONNECTION_IDEAL_BUFFER_LENGTH \<and> 0 \<le> len \<and> len \<le> int m + 360"
        using e FeCallback by (auto simp: quiet_def)
      note st' = st [unfolded FeCallback file_step.simps q(1) file_ConnectionCallback_def on_stream_def at_stream_def]
      from q(2) show thesis
      proof (elim disjE)
        assume "ev = BATS_CONNECTION_WRITABLE"
        then show thesis using st' i by (intro that [of "\<lambda>s. s\<lparr>f_is_writable := True\<rparr>"]) simp_all
      next
        assume "ev = BATS_CONNECTION_BUFFER_FULL"
        then show thesis using st' i by (intro that [of "\<lambda>s. s\<lparr>f_is_writable := False\<rparr>"]) simp_all
      next
        assume "ev = BATS_CONNECTION_ALL_DATA_ACKED"
        then show thesis using st' i by (intro that [of "\<lambda>s. if f_is_done s then s\<lparr>f_all_acked := True\<rparr> else s"]) simp_all
      next
        assume "ev = BATS_CONNECTION_IDEAL_BUFFER_LENGTH \<and> 0 \<le> len \<and> len \<le> int m + 360"
        then show thesis using st' i by (intro that [of "\<lambda>s. s\<lparr>f_ideal_buffer_length := len\<rparr>"]) simp_all
      qed
    qed
    have "phase E fs (g (x_streams T ! i)) p a = phase E fs (x_streams T ! i) p a" for p a
      by (rule phase_cong) (simp_all add: g)
    then show ?thesis using inv i g(5-7) by (simp add: U send_inv_def)
  qed (use e in \<open>simp_all add: quiet_def\<close>)
qed

lemma quiet_run:
  assumes "run_events (file_step E) es T = Inr U" and "send_inv E pend m i fs T" and "\<forall>e \<in> set es. quiet m i e"
    and "is_fifo E pend" and "\<forall>f \<in> set fs. sendable E f" and "m < 2000000000"
  shows "send_inv E pend m i fs U"
  using assms(1,2) unfolding run_events_def
  by (rule rfold_invariant) (use assms(3-6) quiet_step in blast)

end
