(* ===== verification/File_Live.thy ===== *)
theory File_Live
  imports File_Send
begin

text \<open>
  Progress of the sending thread: on a healthy connection it reaches its end in a bounded number of
  steps (\<open>thread_finishes\<close>), and what was accepted until then puts every file on the disk of
  the receiver (\<open>all_sent\<close>, \<open>all_delivered\<close>).
\<close>

section \<open>Compression never lengthens a block\<close>

lemma quotient_below_one:
  assumes "0 < n" and "n < c" and "c < 2 ^ 31"
  shows "fless (fdiv Double (fl_int Double n) (fl_int Double c)) (Fin 1)"
proof -
  have ex: "fl_int Double n = Fin (of_int n)" "fl_int Double c = Fin (of_int c)"
    using fl_int_exact [of n Double] fl_int_exact [of c Double] assms by simp_all
  define x :: rat where "x = of_int n / of_int c"
  have "(of_int c :: rat) < of_int (2 ^ 31)" using assms(3) by (simp only: of_int_less_iff)
  moreover have "(of_int (n + 1) :: rat) \<le> of_int c" using assms(2) by (simp only: of_int_le_iff)
  ultimately have c: "(0 :: rat) < of_int c" "of_int c < (2 ^ 31 :: rat)" "(1 :: rat) \<le> of_int n" "of_int n + 1 \<le> (of_int c :: rat)"
    using assms(1,2) by simp_all
  have lo: "1 / 2 ^ 31 \<le> x" and hi: "x \<le> 1 - 1 / 2 ^ 31"
  proof -
    have "1 / 2 ^ 31 \<le> 1 / (of_int c :: rat)" using c by (intro divide_left_mono) auto
    moreover have "1 / of_int c \<le> x" unfolding x_def using c by (intro divide_right_mono) auto
    ultimately show "1 / 2 ^ 31 \<le> x" by linarith
    have "x \<le> (of_int c - 1) / of_int c" unfolding x_def using c by (intro divide_right_mono) auto
    also have "\<dots> = 1 - 1 / of_int c" using c by (simp add: diff_divide_distrib)
    finally show "x \<le> 1 - 1 / 2 ^ 31" using \<open>1 / 2 ^ 31 \<le> 1 / (of_int c :: rat)\<close> by linarith
  qed
  have "(2::rat) powi (qmin Double + int (prec Double) - 1) \<le> 1 / 2 ^ 31" by (simp add: power_int_minus field_simps)
  then have 1: "(2::rat) powi (qmin Double + int (prec Double) - 1) \<le> \<bar>x\<bar>" using lo by linarith
  have "(1::rat) \<le> 2 powi (emax Double - 1)" by simp
  moreover have "\<bar>x\<bar> \<le> 1" using lo hi by simp
  ultimately have 2: "\<bar>x\<bar> \<le> 2 powi (emax Double - 1)" by (rule order_trans [rotated])
  obtain r where r: "fl Double x = Fin r" "\<bar>r - x\<bar> \<le> \<bar>x\<bar> / 2 ^ prec Double" by (rule fl_error [OF 1 2])
  have "\<bar>x\<bar> = x" using lo by simp
  then have "r - x \<le> x / 2 ^ prec Double" using r(2) abs_ge_self [of "r - x"] by (metis order_trans)
  then have "r < 1" using hi by simp
  moreover have "(of_int c :: rat) \<noteq> 0" using c by simp
  ultimately show ?thesis using r(1) by (simp add: ex fdiv_def fless_def x_def)
qed

lemma block_payload_defined:
  assumes "chunk \<noteq> []" and "length chunk < 2 ^ 31" and "int (length chunk) \<le> want" and "off + length chunk \<le> max_send_buf_sz"
    and "compression \<Longrightarrow> \<exists>m lmt. density_ok D m lmt"
  shows "\<exists>zipped payload. block_payload D compression want off chunk = Inr (zipped, payload) \<and> length payload \<le> length chunk"
proof (cases compression)
  case False
  then show ?thesis using assms by (auto simp: block_payload_def)
next
  case True
  define c where "c = Compress D (Some chunk) (int (length chunk)) True (int (max_send_buf_sz - off))"
  let ?bad = "c = [] \<or> fless (fdiv Double (fl_int Double (int (length chunk))) (fl_int Double (int (length c)))) (Fin 1)"
  show ?thesis
  proof (cases ?bad)
    case True
    then show ?thesis using \<open>compression\<close> assms(4) unfolding block_payload_def Let_def c_def [symmetric] by auto
  next
    case False
    obtain m lmt where "density_ok D m lmt" using assms(5) True by blast
    then have "length c \<le> max_send_buf_sz" using Compress_within False unfolding c_def by fastforce
    then have "length c \<le> length chunk"
      using quotient_below_one [of "int (length chunk)" "int (length c)"] False assms(1) by (force simp: max_send_buf_sz_def)
    then show ?thesis using \<open>compression\<close> False assms(3) unfolding block_payload_def Let_def c_def [symmetric] by auto
  qed
qed

section \<open>Progress\<close>

text \<open>
  The sending thread of a writable stream whose sends succeed: every step takes it closer to its end. \<open>left\<close> counts the
  steps it still has at most.
\<close>

definition ok_obs :: thread_obs where
  "ok_obs = \<lparr>ob_sent = True, ob_bad = False\<rparr>"

definition healthy :: "'q file_env \<Rightarrow> nat \<Rightarrow> 'q IperfFileTransfer \<Rightarrow> bool" where
  "healthy E i T \<longleftrightarrow> i < length (x_streams T) \<and> t_state T \<noteq> TEST_DONE
     \<and> (let s = x_streams T ! i in f_is_connected s \<and> \<not> f_has_err_in_send s \<and> f_is_writable s \<and> f_stream s \<noteq> None
        \<and> 362 \<le> f_ideal_buffer_length s \<and> f_ideal_buffer_length s \<le> 300000 \<and> \<not> reader_bad (f_loc s))
     \<and> (is_compression_enabled (t_config T) \<longrightarrow> (\<exists>m lmt. density_ok (density_lib E) m lmt))"

definition file_cost :: "'q file_env \<Rightarrow> File \<Rightarrow> nat" where
  "file_cost E f = 3 * length (file_content E f) + 6"

definition loop_cost :: "FileStream \<Rightarrow> nat" where
  "loop_cost s = (case f_pc s of
      F_Fetch \<Rightarrow> 1
    | F_Check \<Rightarrow> if reader_eof (f_loc s) then 2 else 3 * length (reader_rest (f_loc s)) + 6
    | F_Wait \<Rightarrow> 3 * length (reader_rest (f_loc s)) + 5
    | F_Block \<Rightarrow> 3 * length (reader_rest (f_loc s)) + 4
    | _ \<Rightarrow> 0)"

definition left :: "'q file_env \<Rightarrow> ('q \<Rightarrow> File list) \<Rightarrow> nat \<Rightarrow> 'q IperfFileTransfer \<Rightarrow> nat" where
  "left E pend i T = (if f_pc (x_streams T ! i) = F_Exited then 0
     else loop_cost (x_streams T ! i) + sum_list (map (file_cost E) (pend (x_pending T))))"

lemma ideal_read_len: "362 \<le> ideal \<Longrightarrow> ideal \<le> 300000 \<Longrightarrow>
    ideal_file_read_len first ideal = (if first then ideal - 361 else ideal - 360)"
  by (simp add: ideal_file_read_len_def small_signed)

text \<open>With a usable block length the next block is made without a fault, up to sending it.\<close>

definition can_block :: "'q file_env \<Rightarrow> nat \<Rightarrow> 'q IperfFileTransfer \<Rightarrow> bool" where
  "can_block E i T \<longleftrightarrow> 361 \<le> f_ideal_buffer_length (x_streams T ! i) \<and> f_ideal_buffer_length (x_streams T ! i) \<le> 300000
     \<and> (is_compression_enabled (t_config T) \<longrightarrow> (\<exists>m lmt. density_ok (density_lib E) m lmt))"

lemma next_block_defined:
  assumes can: "can_block E i T"
  defines "s \<equiv> x_streams T ! i" and "c \<equiv> is_compression_enabled (t_config T)"
  obtains
    (empty) l where "read_file (ob_bad ob) (actual_file_read_len c s) (f_loc s) = ([], l)"
      "next_block E ob i T = Inr (goto i F_Check (upd_loc i (\<lambda>_. l\<lparr>bk_hdr := (bk_hdr l)\<lparr>syn := sent_bytes l = 0, has_comp := c\<rparr>\<rparr>) T))"
  | (block) chunk l zipped payload where "read_file (ob_bad ob) (actual_file_read_len c s) (f_loc s) = (chunk, l)" "chunk \<noteq> []"
      "next_block E ob i T = send_block (ob_sent ob) i (upd_loc i (\<lambda>_. make_block zipped payload chunk l) T)"
proof -
  obtain chunk l where rd: "read_file (ob_bad ob) (actual_file_read_len c s) (f_loc s) = (chunk, l)" by fastforce
  then have sb: "sent_bytes l = sent_bytes (f_loc s)" and len: "length chunk \<le> actual_file_read_len c s"
    by (auto simp: read_file_def split: if_splits)
  have want: "0 \<le> block_want s" "int (block_off l) + block_want s \<le> 300000"
    using can by (auto simp: can_block_def block_want_def block_off_def sb s_def ideal_file_read_len_def small_signed)
  have n: "int (actual_file_read_len c s) \<le> block_want s" using want by (auto simp: actual_file_read_len_def)
  have unf: "next_block E ob i T = (if chunk = []
      then Inr (goto i F_Check (upd_loc i (\<lambda>_. l\<lparr>bk_hdr := (bk_hdr l)\<lparr>syn := sent_bytes l = 0, has_comp := c\<rparr>\<rparr>) T))
      else rbind (block_payload (density_lib E) c (block_want s) (block_off l) chunk) (\<lambda>(zipped, payload).
        send_block (ob_sent ob) i (upd_loc i (\<lambda>_. make_block zipped payload chunk l) T)))"
    using want rd by (simp add: next_block_def Let_def max_send_buf_sz_def flip: s_def c_def)
  show thesis
  proof (cases "chunk = []")
    case True
    then show thesis using empty rd unf by simp
  next
    case False
    have "\<exists>zipped payload. block_payload (density_lib E) c (block_want s) (block_off l) chunk = Inr (zipped, payload) \<and> length payload \<le> length chunk"
      by (rule block_payload_defined [OF False]) (use can len n want in \<open>auto simp: can_block_def c_def max_send_buf_sz_def\<close>)
    then show thesis using block [OF rd False] False unf by auto
  qed
qed

lemma healthy_can_block: "healthy E i T \<Longrightarrow> can_block E i T"
  by (auto simp: healthy_def can_block_def Let_def)

lemma next_block_progress:
  assumes h: "healthy E i T" and pc: "f_pc (x_streams T ! i) = F_Block"
  shows "returns (next_block E ok_obs i T) (\<lambda>U. healthy E i U \<and> f_pc (x_streams U ! i) = F_Check \<and> x_pending U = x_pending T
    \<and> loop_cost (x_streams U ! i) < loop_cost (x_streams T ! i))"
proof -
  let ?s = "x_streams T ! i" and ?n = "actual_file_read_len (is_compression_enabled (t_config T)) (x_streams T ! i)"
  have i: "i < length (x_streams T)" and sn: "f_stream ?s \<noteq> None" and n: "0 < ?n"
    using h ideal_read_len [of "f_ideal_buffer_length ?s"]
    by (auto simp: healthy_def Let_def actual_file_read_len_def block_want_def max_compress_buf_sz_def)
  from healthy_can_block [OF h] show ?thesis
  proof (cases rule: next_block_defined [where ob = ok_obs])
    case (empty l)
    then have "reader_rest (f_loc ?s) = []" "l = (f_loc ?s)\<lparr>reader_rest := [], reader_eof := True\<rparr>"
      using n by (auto simp: read_file_def ok_obs_def)
    then show ?thesis
      unfolding empty(2) using h i pc by (simp add: returns_def healthy_def pc_defs loop_cost_def Let_def)
  next
    case (block chunk l zipped payload)
    then have "length (drop ?n (reader_rest (f_loc ?s))) < length (reader_rest (f_loc ?s))"
      "l = (f_loc ?s)\<lparr>reader_rest := drop ?n (reader_rest (f_loc ?s)), reader_eof := length (reader_rest (f_loc ?s)) < ?n\<rparr>"
      using n by (auto simp: read_file_def ok_obs_def)
    then show ?thesis
      unfolding block(3) using h i pc sn
      by (simp add: returns_def healthy_def send_block_def make_block_def ok_obs_def Let_def count_file_bytes_eff pc_defs loop_cost_def)
  qed
qed

lemma thread_progress:
  assumes h: "healthy E i T" and pc: "f_pc (x_streams T ! i) \<notin> {F_None, F_Retry, F_Exited}"
    and q: "is_fifo E pend" and ok: "\<forall>f \<in> set (pend (x_pending T)). sendable E f"
  shows "returns (file_thread_step E ok_obs i (f_pc (x_streams T ! i)) T) (\<lambda>U. healthy E i U
    \<and> f_pc (x_streams U ! i) \<notin> {F_None, F_Retry} \<and> left E pend i U < left E pend i T
    \<and> set (pend (x_pending U)) \<subseteq> set (pend (x_pending T)))"
proof -
  let ?s = "x_streams T ! i"
  have i: "i < length (x_streams T)" and act: "IsInActive T i" and er: "\<not> f_has_err_in_send ?s" and w: "f_is_writable ?s"
    and st: "t_state T \<noteq> TEST_DONE" and bad: "\<not> reader_bad (f_loc ?s)"
    using h by (auto simp: healthy_def IsInActive_def Let_def)
  show ?thesis
  proof (cases "f_pc ?s")
    case F_Fetch
    show ?thesis
    proof (cases "pend (x_pending T)")
      case Nil
      then have "Dequeue E (x_pending T) = None" using q by (simp add: is_fifo_def)
      then show ?thesis using F_Fetch h i st er Nil
        by (simp add: returns_def fetch_file_def Let_def healthy_def pc_defs left_def loop_cost_def)
    next
      case (Cons f p)
      then obtain q' where dq: "Dequeue E (x_pending T) = Some (f, q')" "pend q' = p" using q unfolding is_fifo_def by blast
      have c: "fs_content E (f_path f) = Some (file_content E f)" using ok Cons by (simp add: sendable_def)
      show ?thesis using F_Fetch h i st er Cons dq c
        by (auto simp: returns_def fetch_file_def Let_def healthy_def pc_defs left_def loop_cost_def file_cost_def)
    qed
  next
    case F_Check
    then show ?thesis using h i act er bad
      by (simp add: returns_def Let_def healthy_def pc_defs left_def loop_cost_def)
  next
    case F_Wait
    then show ?thesis using h i w by (simp add: returns_def Let_def healthy_def pc_defs left_def loop_cost_def)
  next
    case F_Block
    from next_block_progress [OF h F_Block] show ?thesis
      using F_Block by (auto elim!: returns_mono simp: left_def)
  qed (use pc in auto)
qed

text \<open>Enough steps bring the thread to its end.\<close>

lemma thread_finishes:
  assumes "healthy E i T" and "f_pc (x_streams T ! i) \<notin> {F_None, F_Retry}"
    and "is_fifo E pend" and "\<forall>f \<in> set (pend (x_pending T)). sendable E f" and "left E pend i T \<le> n"
  shows "returns (run_events (file_step E) (replicate n (FeThread i ok_obs)) T) (\<lambda>U. f_pc (x_streams U ! i) = F_Exited)"
  using assms(1,2,4,5)
proof (induction n arbitrary: T)
  case 0
  then show ?case by (cases "f_pc (x_streams T ! i)") (auto simp: returns_def left_def loop_cost_def split: if_splits)
next
  case (Suc n)
  have i: "i < length (x_streams T)" using Suc.prems(1) by (simp add: healthy_def)
  show ?case
  proof (cases "f_pc (x_streams T ! i) = F_Exited")
    case True
    then have "file_step E T (FeThread i ok_obs) = Inr T" by simp
    then show ?thesis using Suc.IH [of T] Suc.prems True by (simp add: left_def)
  next
    case False
    then have "f_pc (x_streams T ! i) \<notin> {F_None, F_Retry, F_Exited}" using Suc.prems(2) by simp
    from thread_progress [OF Suc.prems(1) this assms(3) Suc.prems(3)] obtain U where
      U: "file_thread_step E ok_obs i (f_pc (x_streams T ! i)) T = Inr U" "healthy E i U" "f_pc (x_streams U ! i) \<notin> {F_None, F_Retry}"
        "left E pend i U < left E pend i T" "set (pend (x_pending U)) \<subseteq> set (pend (x_pending T))"
      by (auto simp: returns_def)
    have "returns (run_events (file_step E) (replicate n (FeThread i ok_obs)) U) (\<lambda>U. f_pc (x_streams U ! i) = F_Exited)"
      by (rule Suc.IH) (use U Suc.prems in auto)
    then show ?thesis using U(1) i by simp
  qed
qed

section \<open>From the connection to the disk of the receiver\<close>

text \<open>The connection of a stream is established: the thread is at its first fetch.\<close>

lemma established:
  assumes "file_ConnectionCallback E fi cn ideal BATS_CONNECTION_ESTABLISHED b len (Some i) T0 = Inr (r, T)"
  shows "i < length (x_streams T) \<and> x_streams T ! i = (x_streams T0 ! i)\<lparr>f_stream := Some cn, f_is_connected := True,
      f_ideal_buffer_length := ideal, f_loc := zero_local, f_pc := F_Fetch\<rparr>
    \<and> t_state T = t_state T0 \<and> t_config T = t_config T0 \<and> x_pending T = x_pending T0 \<and> x_out T = x_out T0"
  using assms
  by (auto simp: file_ConnectionCallback_def at_stream_def CreateFileTransferThread_def rbind_eq_Inr rmap_eq_Inr pc_defs
    split: if_splits)

lemma established_inv:
  assumes "file_ConnectionCallback E fi cn ideal BATS_CONNECTION_ESTABLISHED b len (Some i) T0 = Inr (r, T)"
    and "t_state T0 \<noteq> TEST_DONE" and "\<not> f_has_err_in_send (x_streams T0 ! i)" and "0 \<le> ideal" and "ideal \<le> int m + 360"
    and "is_compression_enabled (t_config T0) \<longrightarrow> density_ok (density_lib E) m max_decompressed_buf_sz"
    and "accepted i (x_out T0) = []"
  shows "send_inv E pend m i (pend (x_pending T0)) T"
  using established [OF assms(1)] assms(2-)
  by (auto simp: send_inv_def phase_def intro!: exI [of _ "[]"])

definition sent_of :: "'q file_env \<Rightarrow> nat \<Rightarrow> File \<Rightarrow> sent_file" where
  "sent_of E k f = (filename (f_path f), make_meta E k f, nat (bar_id f), file_hashed E f, file_content E f)"

definition target_name :: "File \<Rightarrow> string" where
  "target_name f = received_name (filename (f_path f))"

text \<open>The receiver can store the files: names that fit, writable, and apart from each other.\<close>

definition storable :: "'q file_env \<Rightarrow> File list \<Rightarrow> bool" where
  "storable R fs \<longleftrightarrow> (\<forall>f \<in> set fs. name_ok (filename (f_path f)) \<and> fs_can_open R (target_name f))
     \<and> distinct (map target_name fs)
     \<and> (\<forall>f \<in> set fs. \<forall>g \<in> set fs. hash_file (filename (f_path f)) \<noteq> target_name g)"

lemma all_sent:
  assumes inv: "send_inv E pend m i fs U" and ex: "f_pc (x_streams U ! i) = F_Exited"
    and ok: "\<forall>f \<in> set fs. sendable E f" and stb: "storable R fs" and D: "density_lib R = density_lib E"
  shows "\<exists>k msgss. accepted i (x_out U) = concat msgss \<and> list_all2 (sent_file_ok R) (map (sent_of E k) fs) msgss"
proof -
  obtain msgss where m: "list_all2 (carries_file E (f_id (x_streams U ! i))) fs msgss" "accepted i (x_out U) = concat msgss"
    using inv ex by (auto simp: send_inv_def phase_def)
  have "sent_file_ok R (sent_of E (f_id (x_streams U ! i)) f) msgs"
    if "f \<in> set fs" "carries_file E (f_id (x_streams U ! i)) f msgs" for f msgs
    using that ok stb make_meta_named [of f E] D
    by (auto simp: sent_file_ok_def sent_of_def carries_file_def carries_prefix_def sendable_def storable_def target_name_def)
  then have "list_all2 (sent_file_ok R) (map (sent_of E (f_id (x_streams U ! i))) fs) msgss"
    using m(1) by (auto simp: list_all2_conv_all_nth)
  then show ?thesis using m(2) by blast
qed

lemma all_delivered:
  assumes "list_all2 (sent_file_ok R) (map (sent_of E k) fs) msgss" and "storable R fs" and "fs \<noteq> []"
    and "j < length (x_streams V)" and "int (length fs) \<le> num_files (t_config V)"
  shows "returns (rfold (HandleReceivedFileData R False j) (concat msgss) V) (\<lambda>W.
      (\<forall>f \<in> set fs. x_disk W (target_name f) = Some (file_content E f))
      \<and> num_files (t_config W) = num_files (t_config V) - int (length fs)
      \<and> t_state W = (if num_files (t_config V) = int (length fs) then TEST_DONE else t_state V))"
proof -
  have "names_apart (map (sent_of E k) fs)"
    using assms(2) by (auto simp: names_apart_def storable_def sent_of_def target_name_def [abs_def] comp_def)
  then have "disk_with R (map (sent_of E k) fs) d (target_name f) = Some (file_content E f)" if "f \<in> set fs" for f d
    using disk_with_in [of "map (sent_of E k) fs" "filename (f_path f)"] that unfolding target_name_def
    by (force simp: sent_of_def)
  moreover note receive_files [OF assms(1,4)]
  ultimately show ?thesis using assms(3,5) by (auto elim!: returns_mono)
qed

end
