(* ===== verification/File_Stop.thy ===== *)
theory File_Stop
  imports File_Live
begin

text \<open>
  \<open>Stop\<close> of a file transfer: every sending thread exits within five steps, so that the joins
  return; the transfer implements the contract of a test.
\<close>

section \<open>What a step of one thread leaves alone\<close>

definition frame :: "nat \<Rightarrow> 'q IperfFileTransfer \<Rightarrow> 'q IperfFileTransfer \<Rightarrow> bool" where
  "frame i T U \<longleftrightarrow> length (x_streams U) = length (x_streams T) \<and> (\<forall>j. j \<noteq> i \<longrightarrow> x_streams U ! j = x_streams T ! j)
     \<and> t_state U = t_state T \<and> t_stopped U = t_stopped T \<and> test_id U = test_id T \<and> t_config U = t_config T"

lemma frame_refl [simp]: "frame i T T"
  by (simp add: frame_def)

lemma frame_trans: "frame i T U \<Longrightarrow> frame i U V \<Longrightarrow> frame i T V"
  by (simp add: frame_def)

lemma frame_steps [simp]:
  "frame i T (goto i pc U) = frame i T U" "frame i T (upd_loc i g U) = frame i T U" "frame i T (upd_stream i f U) = frame i T U"
  "frame i T (x_emit x U) = frame i T U"
  by (auto simp: frame_def pc_defs)

lemma frame_count [simp]: "frame i T (count_file_bytes i U) = frame i T U"
  by (simp add: count_file_bytes_def Let_def)

lemma pc_goto [simp]: "i < length (x_streams T) \<Longrightarrow> f_pc (x_streams (goto i pc T) ! i) = pc"
  by (simp add: pc_defs)

lemma length_upd_loc [simp]: "length (x_streams (upd_loc i g T)) = length (x_streams T)"
  by (simp add: upd_loc_def)

section \<open>A stopped thread ends\<close>

text \<open>Stream \<open>i\<close> can still send a block, should its thread be about to.\<close>

definition can_send :: "'q file_env \<Rightarrow> nat \<Rightarrow> 'q IperfFileTransfer \<Rightarrow> bool" where
  "can_send E i T \<longleftrightarrow> (let s = x_streams T ! i in f_stream s \<noteq> None \<and> 361 \<le> f_ideal_buffer_length s \<and> f_ideal_buffer_length s \<le> 300000)
     \<and> (is_compression_enabled (t_config T) \<longrightarrow> (\<exists>m lmt. density_ok (density_lib E) m lmt))"

lemma next_block_safe:
  assumes i: "i < length (x_streams T)" and safe: "can_send E i T"
  shows "returns (next_block E ob i T) (\<lambda>U. frame i T U \<and> (f_pc (x_streams U ! i) = F_Check \<or> f_pc (x_streams U ! i) = F_Retry))"
proof -
  have "can_block E i T" and sn: "f_stream (x_streams T ! i) \<noteq> None" using safe by (auto simp: can_send_def can_block_def Let_def)
  from this(1) show ?thesis
  proof (cases rule: next_block_defined [where ob = ob])
    case (empty l)
    then show ?thesis using i by (simp add: returns_Inr)
  next
    case (block chunk l zipped payload)
    then show ?thesis using i sn by (auto simp: send_block_def Let_def returns_def pc_defs count_file_bytes_eff)
  qed
qed

text \<open>Steps until the thread of a test that is done has exited.\<close>

fun exit_steps :: "file_pc \<Rightarrow> nat" where
  "exit_steps F_None = 0"
| "exit_steps F_Exited = 0"
| "exit_steps F_Fetch = 1"
| "exit_steps F_Check = 2"
| "exit_steps F_Retry = 3"
| "exit_steps F_Block = 4"
| "exit_steps F_Wait = 5"

lemma exit_step:
  assumes "i < length (x_streams T)" and "t_state T = TEST_DONE" and "f_pc (x_streams T ! i) \<in> {F_Wait, F_Block} \<Longrightarrow> can_send E i T"
    and "f_pc (x_streams T ! i) \<notin> {F_None, F_Exited}"
  shows "returns (file_thread_step E ob i (f_pc (x_streams T ! i)) T) (\<lambda>U. frame i T U
    \<and> exit_steps (f_pc (x_streams U ! i)) < exit_steps (f_pc (x_streams T ! i))
    \<and> (f_pc (x_streams U ! i) \<in> {F_Wait, F_Block} \<longrightarrow> can_send E i U))"
proof (cases "f_pc (x_streams T ! i)")
  case F_Fetch
  then show ?thesis using assms by (simp add: returns_def fetch_file_def Let_def)
next
  case F_Check
  then show ?thesis using assms by (simp add: returns_def Let_def IsInActive_def)
next
  case F_Wait
  then show ?thesis using assms by (simp add: returns_def Let_def IsInActive_def can_send_def pc_defs)
next
  case F_Block
  then show ?thesis using next_block_safe [OF assms(1), of E ob] assms(3) by (auto elim!: returns_mono)
next
  case F_Retry
  then show ?thesis using assms by (simp add: returns_def Let_def IsInActive_def count_file_bytes_eff)
qed (use assms(4) in auto)

lemma join_returns:
  assumes "i < length (x_streams T)" and "t_state T = TEST_DONE" and "f_pc (x_streams T ! i) \<in> {F_Wait, F_Block} \<Longrightarrow> can_send E i T"
    and "exit_steps (f_pc (x_streams T ! i)) \<le> length obs"
  shows "returns (join_thread E i obs T) (frame i T)"
  using assms
proof (induction obs arbitrary: T)
  case Nil
  then show ?case by (cases "f_pc (x_streams T ! i)") (auto simp: returns_def)
next
  case (Cons ob obs)
  show ?case
  proof (cases "f_pc (x_streams T ! i) \<in> {F_None, F_Exited}")
    case True
    then show ?thesis by (simp add: returns_def)
  next
    case False
    from exit_step [OF Cons.prems(1-3) False, of ob] obtain U where
      U: "file_thread_step E ob i (f_pc (x_streams T ! i)) T = Inr U" "frame i T U"
        "exit_steps (f_pc (x_streams U ! i)) < exit_steps (f_pc (x_streams T ! i))"
        "f_pc (x_streams U ! i) \<in> {F_Wait, F_Block} \<longrightarrow> can_send E i U"
      by (auto simp: returns_def)
    have "returns (join_thread E i obs U) (frame i U)"
      by (rule Cons.IH) (use U Cons.prems in \<open>auto simp: frame_def\<close>)
    then show ?thesis using U(1,2) False by (auto elim: returns_mono frame_trans)
  qed
qed

section \<open>Stop\<close>

text \<open>Enough observations for every thread, and no thread about to send on a connection that is gone.\<close>

definition stoppable :: "'q file_env \<Rightarrow> (nat \<Rightarrow> thread_obs list) \<Rightarrow> 'q IperfFileTransfer \<Rightarrow> bool" where
  "stoppable E obs T \<longleftrightarrow> (\<forall>i < length (x_streams T). 5 \<le> length (obs i)
     \<and> (f_pc (x_streams T ! i) \<in> {F_Wait, F_Block} \<longrightarrow> can_send E i T))"

lemma exit_steps_le: "exit_steps pc \<le> 5"
  by (cases pc) simp_all

lemma stop_streams:
  assumes "t_state T = TEST_DONE" and "k \<le> length (x_streams T)"
    and "\<forall>i < k. 5 \<le> length (obs i) \<and> (f_pc (x_streams T ! i) \<in> {F_Wait, F_Block} \<longrightarrow> can_send E i T)"
  shows "returns (rfold (stop_stream E obs) [0 ..< k] T) (\<lambda>U. length (x_streams U) = length (x_streams T)
    \<and> (\<forall>j. k \<le> j \<longrightarrow> x_streams U ! j = x_streams T ! j) \<and> t_state U = TEST_DONE \<and> t_stopped U = t_stopped T
    \<and> test_id U = test_id T \<and> t_config U = t_config T)"
  using assms(2,3)
proof (induction k)
  case 0
  then show ?case using assms(1) by (simp add: returns_def)
next
  case (Suc k)
  then obtain U where U: "rfold (stop_stream E obs) [0 ..< k] T = Inr U" "length (x_streams U) = length (x_streams T)"
      "\<forall>j. k \<le> j \<longrightarrow> x_streams U ! j = x_streams T ! j" "t_state U = TEST_DONE" "t_stopped U = t_stopped T"
      "test_id U = test_id T" "t_config U = t_config T"
    by (auto simp: returns_def)
  have "returns (join_thread E k (obs k) U) (frame k U)"
  proof (rule join_returns)
    show "exit_steps (f_pc (x_streams U ! k)) \<le> length (obs k)"
      using Suc.prems(2) order_trans [OF exit_steps_le] by blast
  qed (use U Suc.prems in \<open>auto simp: can_send_def\<close>)
  then obtain V where V: "join_thread E k (obs k) U = Inr V" "frame k U V" by (auto simp: returns_def)
  have "rfold (stop_stream E obs) [0 ..< Suc k] T = Inr (upd_stream k (\<lambda>s. s\<lparr>f_stream := None, f_is_connected := False,
      f_is_writable := False, f_is_done := True\<rparr>) V)"
    using U(1) V(1) by (simp add: rfold_append stop_stream_def)
  then show ?case using U V(2) by (auto simp: returns_def frame_def)
qed

lemma file_Stop_first:
  assumes "\<not> t_stopped T" and "stoppable E obs T"
  shows "returns (file_Stop E obs T) (\<lambda>(r, U). t_stopped U \<and> t_state U = TEST_DONE \<and> fst (file_IsStreamDone U)
    \<and> test_id U = test_id T \<and> \<not> r \<and> x_streams U = [] \<and> t_config U = t_config T)"
proof -
  let ?T = "T\<lparr>t_stopped := True, t_state := TEST_DONE\<rparr>"
  have "returns (rfold (stop_stream E obs) [0 ..< length (x_streams ?T)] ?T) (\<lambda>U. length (x_streams U) = length (x_streams ?T)
    \<and> (\<forall>j. length (x_streams ?T) \<le> j \<longrightarrow> x_streams U ! j = x_streams ?T ! j) \<and> t_state U = TEST_DONE \<and> t_stopped U = t_stopped ?T
    \<and> test_id U = test_id ?T \<and> t_config U = t_config ?T)"
    by (rule stop_streams) (use assms(2) in \<open>auto simp: stoppable_def can_send_def\<close>)
  then show ?thesis
    unfolding file_Stop_def using assms(1)
    by (auto intro!: returns_bind returns_Inr elim!: returns_mono simp: file_IsStreamDone_def Let_def)
qed

interpretation file_test: iperf_test "file_Stop E" "\<lambda>T. fst (file_IsStreamDone T)" "stoppable E" for E
proof
  show "t_stopped T \<Longrightarrow> file_Stop E obs T = Inr (False, T)" for obs T by (simp add: file_Stop_def)
  show "returns (file_Stop E obs T) (\<lambda>(r, U). t_stopped U \<and> t_state U = TEST_DONE \<and> fst (file_IsStreamDone U) \<and> test_id U = test_id T)"
    if "\<not> t_stopped T" "stoppable E obs T" for obs T
    using file_Stop_first [OF that] by (rule returns_mono) auto
qed

end
