(* ===== verification/File_Properties.thy ===== *)
theory File_Properties
  imports File_Stop
begin

text \<open>
  The properties of a file transfer, each with a concrete instance: two small files in the queue of a
  sender with one stream, and a receiver that expects them.
\<close>

section \<open>Example values\<close>

text \<open>A compression that stores its input.\<close>

definition copy_density :: density where
  "copy_density = \<lparr>density_compress_safe_size = (\<lambda>n. n), density_decompress_safe_size = (\<lambda>n. n),
     density_compress = (\<lambda>d n. if length d \<le> n then (True, d) else (False, [])), density_decompress = (\<lambda>d n. (True, d))\<rparr>"

lemma copy_density_ok: "m \<le> limit \<Longrightarrow> density_ok copy_density m limit"
  by (auto simp: density_ok_def copy_density_def split: if_splits)

lemma copy_density_ok_ex [simp]: "\<exists>m limit. density_ok copy_density m limit"
  using copy_density_ok [of 0 0] by blast

definition example_files :: "string \<Rightarrow> octet list option" where
  "example_files p = (if p = ''dir/a.txt'' then Some [1, 2, 3] else if p = ''b'' then Some [7]
     else if p = ''e'' then Some [] else None)"

definition example_env :: "File list file_env" where
  "example_env = \<lparr>Enqueue = (\<lambda>f q. q @ [f]), Dequeue = (\<lambda>q. case q of [] \<Rightarrow> None | f # fs \<Rightarrow> Some (f, fs)),
     new_queue = [], density_lib = copy_density, fs_size = (\<lambda>p. map_option length (example_files p)),
     fs_exists = (\<lambda>p. example_files p \<noteq> None), fs_content = example_files, fs_can_open = (\<lambda>p. True)\<rparr>"

definition example_a :: File where "example_a = \<lparr>bar_id = 0, file_sz = 3, f_path = ''dir/a.txt''\<rparr>"
definition example_b :: File where "example_b = \<lparr>bar_id = 1, file_sz = 1, f_path = ''b''\<rparr>"

definition example_stream0 :: FileStream where
  "example_stream0 = new_FileStream 0"

definition example_sender :: "File list IperfFileTransfer" where
  "example_sender = (new_transfer_id example_env 5 (TestConfig_init\<lparr>role := ROLE_FILE_SENDER, protocol := 1, is_compression_enabled := True\<rparr>))
     \<lparr>x_pending := [example_a, example_b], x_streams := [example_stream0]\<rparr>"

definition example_receiver :: "File list IperfFileTransfer" where
  "example_receiver = (new_transfer_id example_env 5 (TestConfig_init\<lparr>role := ROLE_RECEIVER, protocol := 1, num_files := 2\<rparr>))
     \<lparr>x_streams := [example_stream0\<lparr>f_is_connected := True, f_stream := Some 1\<rparr>]\<rparr>"

lemmas example_defs = example_env_def example_a_def example_b_def example_stream0_def example_sender_def example_receiver_def
  new_transfer_id_def new_IIperfTest_def IIperfTest.defs IperfFileTransfer.defs new_FileStream_def TestConfig_init_def

lemma example_fifo: "is_fifo example_env (\<lambda>q. q)"
  by (simp add: is_fifo_def example_env_def)

lemma example_sendable: "sendable example_env example_a" "sendable example_env example_b"
  by (simp_all add: sendable_def file_content_def example_env_def example_a_def example_b_def example_files_def)

lemma example_storable: "storable example_env [example_a, example_b]"
  unfolding storable_def by (simp add: example_a_def example_b_def example_env_def) code_simp

lemma example_established:
  "\<exists>T. file_ConnectionCallback example_env fi 1 4096 BATS_CONNECTION_ESTABLISHED [] 0 (Some 0) example_sender = Inr (True, T)
     \<and> healthy example_env 0 T \<and> f_pc (x_streams T ! 0) = F_Fetch \<and> x_pending T = [example_a, example_b]"
  by (simp add: file_ConnectionCallback_def at_stream_def CreateFileTransferThread_def healthy_def pc_defs upd_stream_def
      example_defs zero_local_def)

section \<open>Files arrive\<close>



text \<open>
  C16. The sending thread ends: on a connection that stays writable and accepts every block, with a block length of
  362 to 300000 bytes, the thread of a freshly connected stream has exited, with all its files sent and \<open>is_done\<close> set,
  after at most one step plus six per file plus three per byte, without any fault.
\<close>

theorem file_sender_finishes:
  assumes "is_fifo E pend" and "\<forall>f \<in> set (pend (x_pending T0)). sendable E f"
    and "file_ConnectionCallback E fi cn ideal BATS_CONNECTION_ESTABLISHED b len (Some i) T0 = Inr (r, T)"
    and "t_state T0 \<noteq> TEST_DONE" "\<not> f_has_err_in_send (x_streams T0 ! i)" "f_is_writable (x_streams T0 ! i)" "accepted i (x_out T0) = []"
    and "362 \<le> ideal" "ideal \<le> 300000"
    and "is_compression_enabled (t_config T0) \<longrightarrow> density_ok (density_lib E) 300000 max_decompressed_buf_sz"
    and "1 + (\<Sum>f \<leftarrow> pend (x_pending T0). 6 + 3 * length (file_content E f)) \<le> n"
  shows "returns (run_events (file_step E) (replicate n (FeThread i ok_obs)) T)
    (\<lambda>U. f_pc (x_streams U ! i) = F_Exited \<and> f_is_done (x_streams U ! i) \<and> pend (x_pending U) = [])"
proof -
  note est = established [OF assms(3)]
  have h: "healthy E i T" using est assms(4-10) by (auto simp: healthy_def zero_local_def)
  have lf: "left E pend i T \<le> n"
    using est assms(11) by (simp add: left_def loop_cost_def file_cost_def [abs_def] add.commute)
  have inv: "send_inv E pend 300000 i (pend (x_pending T0)) T"
    by (rule established_inv [OF assms(3-5)]) (use assms in auto)
  have "returns (run_events (file_step E) (replicate n (FeThread i ok_obs)) T) (\<lambda>U. f_pc (x_streams U ! i) = F_Exited)"
    by (rule thread_finishes [OF h _ assms(1) _ lf]) (use est assms(2) in auto)
  then obtain U where U: "run_events (file_step E) (replicate n (FeThread i ok_obs)) T = Inr U" "f_pc (x_streams U ! i) = F_Exited"
    by (auto simp: returns_def)
  have "send_inv E pend 300000 i (pend (x_pending T0)) U"
    by (rule quiet_run [OF U(1) inv _ assms(1,2)]) (auto simp: quiet_def ok_obs_def)
  then show ?thesis using U by (auto simp: returns_def send_inv_def phase_def)
qed

theorem file_sender_finishes_witness:
  "\<exists>T. file_ConnectionCallback example_env \<lparr>fi_ifaddrs = None, fi_space = None, fi_join = (\<lambda>_. []), fi_wbad = False\<rparr>
       1 4096 BATS_CONNECTION_ESTABLISHED [] 0 (Some 0) example_sender = Inr (True, T)
     \<and> returns (run_events (file_step example_env) (replicate 25 (FeThread 0 ok_obs)) T)
         (\<lambda>U. f_pc (x_streams U ! 0) = F_Exited \<and> f_is_done (x_streams U ! 0) \<and> x_pending U = [])"
proof -
  let ?fi = "\<lparr>fi_ifaddrs = None, fi_space = None, fi_join = (\<lambda>_. []), fi_wbad = False\<rparr> :: file_in"
  obtain T where T: "file_ConnectionCallback example_env ?fi 1 4096 BATS_CONNECTION_ESTABLISHED [] 0 (Some 0) example_sender = Inr (True, T)"
    using example_established by blast
  have nm: "file_content example_env example_a = [1, 2, 3]" "file_content example_env example_b = [7]"
    by (simp_all add: file_content_def example_defs example_files_def)
  have x: "x_pending example_sender = [example_a, example_b]" by (simp add: example_defs)
  have "returns (run_events (file_step example_env) (replicate 25 (FeThread 0 ok_obs)) T)
         (\<lambda>U. f_pc (x_streams U ! 0) = F_Exited \<and> f_is_done (x_streams U ! 0) \<and> x_pending U = [])"
    by (rule file_sender_finishes [OF example_fifo _ T])
      (use example_sendable in \<open>simp_all add: x nm\<close>, simp_all add: example_defs copy_density_ok max_decompressed_buf_sz_def)
  then show ?thesis using T by blast
qed

section \<open>The request\<close>

lemma split_halves: "push_bit 32 (ucast (ucast (drop_bit 32 w) :: u32)) OR ucast (ucast (w AND 0xFFFFFFFF) :: u32) = (w :: u64)"
proof (rule bit_word_eqI)
  fix n assume n: "n < LENGTH(64)"
  have mask: "(0xFFFFFFFF :: u64) = mask 32" by (simp add: mask_eq_exp_minus_1)
  show "bit (push_bit 32 (ucast (ucast (drop_bit 32 w) :: u32)) OR ucast (ucast (w AND 0xFFFFFFFF) :: u32) :: u64) n = bit w n"
    using n unfolding mask by (cases "n < 32") (auto simp: bit_simps)
qed

text \<open>The message that requests the transfer of the files of \<open>c\<close>.\<close>

definition is_request :: "u32 \<Rightarrow> TestConfig \<Rightarrow> octet list \<Rightarrow> bool" where
  "is_request ident c msg \<longleftrightarrow> length msg = 300 \<and> load8 msg 40 = Inr (word_of_int (protocol c)) \<and> load16 msg 42 = Inr (word_of_int (port c))
     \<and> (\<exists>h. read_control msg = Inr h \<and> ctl_test_id h = ident \<and> ctl_action_code h = 1
          \<and> ctl_param0 h = word_of_nat (length (files c)) \<and> requested_bytes h = word_of_int (total_bytes_in_files c))"

lemma request_sent:
  assumes "ctrl_chn T = Some cn" and "test_id T \<noteq> 0"
    and "seconds_to_wire (interval (t_config T)) = Inr wi" and "seconds_to_wire (time (t_config T)) = Inr wt"
  shows "returns (SendFileTransferRequest T) (\<lambda>U. t_state U = TEST_EXCHANGE_PARAMETERS
    \<and> (\<exists>msg. x_out U = x_out T @ [FCtrlSend cn msg] \<and> is_request (test_id T) (t_config T) msg))"
proof -
  let ?c = "t_config T"
  define h where "h = (control_message (test_id T) 1)\<lparr>ctl_num_of_streams := word_of_int (num_streams ?c),
      ctl_param0 := word_of_nat (length (files ?c)), ctl_param1 := ucast (drop_bit 32 (word_of_int (total_bytes_in_files ?c) :: u64)),
      ctl_param2 := ucast ((word_of_int (total_bytes_in_files ?c) :: u64) AND 0xFFFFFFFF)\<rparr>"
  have h: "ctl_test_id h = test_id T" "ctl_action_code h = 1" "ctl_param0 h = word_of_nat (length (files ?c))"
    "requested_bytes h = word_of_int (total_bytes_in_files ?c)"
    by (simp_all add: h_def control_message_def requested_bytes_def split_halves)
  obtain b where b: "write_control (replicate 300 0) h = Inr b" "length b = 300" "read_control b = Inr h"
    using write_control_ok [of "replicate 300 0" h] by auto
  obtain b' where b': "Serialize ?c b 32 = Inr (b', 44)" "length b' = 300" "load8 b' 40 = Inr (word_of_int (protocol ?c))"
      "load16 b' 42 = Inr (word_of_int (port ?c))" "\<forall>q n. q + n \<le> 32 \<or> 44 \<le> q \<longrightarrow> peek b' q n = peek b q n"
    using Serialize_ok [OF assms(3,4), of 32 b] b(2) by auto
  have "read_control b' = Inr h" using b'(5) b(3) read_control_cong [of b' b] by simp
  moreover have "SendFileTransferRequest T = Inr ((x_emit (FCtrlSend cn b') T)\<lparr>t_state := TEST_EXCHANGE_PARAMETERS\<rparr>)"
    unfolding SendFileTransferRequest_def Let_def Id_def using assms(1,2) b(1) b'(1)
    by (simp add: h_def [symmetric] sizeof_control_def file_send_ctrl_def)
  ultimately show ?thesis using h b' by (simp add: returns_def is_request_def)
qed

text \<open>The answer to it, and what it makes of the receiver \<open>V\<close>.\<close>

definition denied :: "u64 option \<Rightarrow> TestConfig \<Rightarrow> bool" where
  "denied space c \<longleftrightarrow> (\<exists>free. space = Some free \<and> free \<le> word_of_int (total_bytes_in_files c))"

definition accepts :: "TestConfig \<Rightarrow> 'q IperfFileTransfer \<Rightarrow> bool" where
  "accepts c W \<longleftrightarrow> num_files (t_config W) = int (length (files c)) \<and> protocol (t_config W) = protocol c \<and> port (t_config W) = port c
     \<and> num_streams (t_config W) = 1 \<and> role (t_config W) = ROLE_RECEIVER
     \<and> (\<exists>addr bc. FListen addr (word_of_int (port c)) bc \<in> set (x_out W))"

definition answered :: "u32 \<Rightarrow> conn \<Rightarrow> 'q IperfFileTransfer \<Rightarrow> bool" where
  "answered code cn W \<longleftrightarrow> (\<exists>msg h. last (x_out W) = FCtrlSend cn msg \<and> read_control msg = Inr h \<and> ctl_action_code h = 4
     \<and> ctl_test_id h = test_id W \<and> ctl_param0 h = code)"

lemma SendResponse_answers:
  assumes "ctrl_chn V = Some cn" and "test_id V \<noteq> 0" and "\<And>m. answered code cn (x_emit m V) \<Longrightarrow> Q (x_emit m V)"
  shows "returns (SendResponse code V) Q"
  unfolding SendResponse_def using assms(1,2)
  by (auto simp: file_send_ctrl_def answered_def control_message_def zero_control_def intro!: wp assms(3))

definition fields_fit :: "TestConfig \<Rightarrow> bool" where
  "fields_fit c \<longleftrightarrow> length (files c) < 2 ^ 31 \<and> 0 \<le> protocol c \<and> protocol c < 256 \<and> 0 \<le> port c \<and> port c < 65536"

lemma request_handled:
  assumes r: "is_request (test_id V) c msg" and "test_id V \<noteq> 0" and fit: "fields_fit c"
  shows "returns (file_HandleControlMessage R fi cn msg V) (\<lambda>W. if denied (fi_space fi) c
      then answered 1 cn W \<and> t_config W = t_config V else answered 0 cn W \<and> accepts c W)"
proof -
  obtain h where m: "read_control msg = Inr h" "ctl_test_id h = test_id V"
      "ctl_action_code h = 1" "ctl_param0 h = word_of_nat (length (files c))" "requested_bytes h = word_of_int (total_bytes_in_files c)"
      "length msg = 300" "load8 msg 40 = Inr (word_of_int (protocol c))" "load16 msg 42 = Inr (word_of_int (port c))"
    using r by (auto simp: is_request_def)
  have nf: "sint (ctl_param0 h) = int (length (files c))"
    using small_signed [of "int (length (files c))"] fit m(4) by (simp add: fields_fit_def)
  obtain x y z where "load32 msg 32 = Inr x" "load32 msg 36 = Inr y" "load8 msg 41 = Inr z"
    using m(6) by (simp add: load_defs peek_ok)
  moreover have "uint (word_of_int (protocol c) :: octet) = protocol c" "uint (word_of_int (port c) :: u16) = port c"
    using fit by (simp_all add: uint_word_of_int fields_fit_def)
  ultimately obtain d where d: "Deserialize TestConfig_init msg 32 = Inr d" "protocol d = protocol c" "port d = port c" "num_streams d = 1"
    using m(7,8) by (simp add: Deserialize_def TestConfig_init_def)
  have dn: "(case fi_space fi of None \<Rightarrow> False | Some available \<Rightarrow> available \<le> requested_bytes h) = denied (fi_space fi) c"
    using m(5) by (auto simp: denied_def split: option.splits)
  show ?thesis
    unfolding file_HandleControlMessage_def HandleFileTransferRequest_def SendResponseDenied_def SendResponseOk_def
    using m(1-3) nf d assms(2) dn
    by (auto simp: sizeof_control_def Let_def accepts_def intro!: wp SendResponse_answers) blast+
qed

text \<open>
  C25. A file transfer request is understood and answered: the message a sender emits when its control channel is
  established carries its id, the number of file names and the total size; the receiver with that id denies it exactly
  when the reported free space is not larger than the total size, and otherwise takes over protocol and port, expects as
  many files as there were names on the command line, one stream, and listens on the data port.
\<close>

theorem request_answered:
  assumes "ctrl_chn T = Some cn" and "test_id T \<noteq> 0" and "test_id V = test_id T" and "fields_fit (t_config T)"
    and "seconds_to_wire (interval (t_config T)) = Inr wi" "seconds_to_wire (time (t_config T)) = Inr wt"
  shows "returns (SendFileTransferRequest T) (\<lambda>U. \<exists>msg. x_out U = x_out T @ [FCtrlSend cn msg] \<and>
    returns (file_HandleControlMessage R fi cn' msg V) (\<lambda>W. if denied (fi_space fi) (t_config T)
      then answered 1 cn' W \<and> t_config W = t_config V else answered 0 cn' W \<and> accepts (t_config T) W))"
  using request_sent [OF assms(1,2,5,6)]
  by (rule returns_mono) (use request_handled [of V "t_config T" _ R fi cn'] assms(2-4) in \<open>auto split del: if_split\<close>)

theorem request_answered_witness:
  "\<exists>msg. returns (SendFileTransferRequest (example_sender\<lparr>ctrl_chn := Some 3\<rparr>)) (\<lambda>U. x_out U = [FCtrlSend 3 msg]) \<and>
     returns (file_HandleControlMessage example_env \<lparr>fi_ifaddrs = None, fi_space = Some 100, fi_join = (\<lambda>_. []), fi_wbad = False\<rparr>
       4 msg example_receiver) (answered 0 4)"
proof -
  let ?T = "example_sender\<lparr>ctrl_chn := Some 3\<rparr>"
  let ?fi = "\<lparr>fi_ifaddrs = None, fi_space = Some 100, fi_join = (\<lambda>_. []), fi_wbad = False\<rparr> :: file_in"
  have w: "seconds_to_wire (Fin 1) = Inr 100" "seconds_to_wire (Fin 10) = Inr 1000" by code_simp+
  have "\<not> denied (Some 100) (t_config ?T)" by (simp add: denied_def example_defs)
  then show ?thesis
    using request_answered [of ?T 3 example_receiver 100 1000 example_env ?fi 4] w
    by (auto simp: returns_def example_defs fields_fit_def)
qed

section \<open>The list of files\<close>

text \<open>The names on the command line that are sent: the first occurrence of each, if its size can be read.\<close>

definition sent_names :: "'q file_env \<Rightarrow> string list \<Rightarrow> nat list" where
  "sent_names E names = filter (\<lambda>k. names ! k \<notin> set (take k names) \<and> fs_size E (names ! k) \<noteq> None) [0 ..< length names]"

definition queued_file :: "'q file_env \<Rightarrow> string list \<Rightarrow> nat \<Rightarrow> File" where
  "queued_file E names k = \<lparr>bar_id = int k, file_sz = sint (word_of_nat (the (fs_size E (names ! k))) :: i64), f_path = names ! k\<rparr>"

lemma sent_names_snoc:
  "sent_names E (names @ [x]) = sent_names E names @
     (if x \<notin> set names \<and> fs_size E x \<noteq> None then [length names] else [])"
proof -
  have "filter (\<lambda>k. (names @ [x]) ! k \<notin> set (take k (names @ [x])) \<and> fs_size E ((names @ [x]) ! k) \<noteq> None) [0 ..< length names]
    = sent_names E names"
    unfolding sent_names_def by (rule filter_cong) (auto simp: nth_append)
  then show ?thesis by (simp add: sent_names_def)
qed

lemma queued_file_append: "k < length names \<Longrightarrow> queued_file E (names @ xs) k = queued_file E names k"
  by (simp add: queued_file_def nth_append)

lemma sent_names_bound: "k \<in> set (sent_names E names) \<Longrightarrow> k < length names"
  by (simp add: sent_names_def)

lemma collect_files_spec:
  assumes "is_fifo E pend" and "length names + length rest \<le> 100"
    and "pend q = map (queued_file E names) (sent_names E names)"
    and "tot = word_of_nat (\<Sum>k \<leftarrow> sent_names E names. the (fs_size E (names ! k)))"
  shows "(\<lambda>(tot, q). (tot, pend q)) (collect_files E rest (set names) (int (length names)) tot q)
    = (word_of_nat (\<Sum>k \<leftarrow> sent_names E (names @ rest). the (fs_size E ((names @ rest) ! k))),
       map (queued_file E (names @ rest)) (sent_names E (names @ rest)))"
  using assms(2-4)
proof (induction rest arbitrary: names tot q)
  case Nil
  then show ?case by simp
next
  case (Cons x rest)
  have len: "length (sent_names E names) \<le> length names"
    using length_filter_le [of "\<lambda>k. names ! k \<notin> set (take k names) \<and> fs_size E (names ! k) \<noteq> None" "[0 ..< length names]"]
    unfolding sent_names_def by simp
  have q: "map (queued_file E (names @ [x])) (sent_names E names) = map (queued_file E names) (sent_names E names)"
    by (rule map_cong) (auto simp: queued_file_append dest: sent_names_bound)
  have t: "map (\<lambda>k. the (fs_size E ((names @ [x]) ! k))) (sent_names E names) = map (\<lambda>k. the (fs_size E (names ! k))) (sent_names E names)"
    by (rule map_cong) (auto simp: nth_append dest: sent_names_bound)
  have IH: "(\<lambda>(tot, q). (tot, pend q)) (collect_files E rest (set (names @ [x])) (int (length (names @ [x]))) tot' q')
    = (word_of_nat (\<Sum>k \<leftarrow> sent_names E ((names @ [x]) @ rest). the (fs_size E (((names @ [x]) @ rest) ! k))),
       map (queued_file E ((names @ [x]) @ rest)) (sent_names E ((names @ [x]) @ rest)))"
    if "pend q' = map (queued_file E (names @ [x])) (sent_names E (names @ [x]))"
      and "tot' = word_of_nat (\<Sum>k \<leftarrow> sent_names E (names @ [x]). the (fs_size E ((names @ [x]) ! k)))" for tot' q'
    by (rule Cons.IH) (use that Cons.prems(1) in auto)
  show ?case
  proof (cases "x \<notin> set names \<and> fs_size E x \<noteq> None")
    case True
    then obtain sz where sz: "fs_size E x = Some sz" by blast
    let ?f = "\<lparr>bar_id = int (length names), file_sz = sint (word_of_nat sz :: i64), f_path = x\<rparr>"
    have "length (pend q) < 100" using Cons.prems(1,2) len by simp
    then have "pend (Enqueue E ?f q) = pend q @ [?f]" using assms(1) by (simp add: is_fifo_def)
    then have "pend (Enqueue E ?f q) = map (queued_file E (names @ [x])) (sent_names E (names @ [x]))"
      using Cons.prems(2) True sz q by (simp add: sent_names_snoc queued_file_def)
    from IH [OF this] show ?thesis
      using True sz Cons.prems(3) t by (simp add: sent_names_snoc insert_commute add.commute)
  next
    case False
    then have s: "sent_names E (names @ [x]) = sent_names E names" by (simp add: sent_names_snoc)
    have "pend q = map (queued_file E (names @ [x])) (sent_names E (names @ [x]))" using Cons.prems(2) q s by simp
    from IH [OF this, of tot] show ?thesis
      using False Cons.prems(3) t s by (cases "x \<in> set names") (auto simp: insert_absorb add.commute)
  qed
qed

text \<open>
  C26. The constructor of the sender builds the queue of the transfer: of up to 100 names, every first occurrence of a
  readable one is queued, in the order of the command line and numbered by its position there, and the
  announced total is the sum of their sizes in 64 bits.
\<close>

theorem constructor_queues_files:
  assumes "is_fifo E pend" and "length (files c) \<le> 100"
  shows "pend (x_pending (new_transfer E now c)) = map (queued_file E (files c)) (sent_names E (files c))
    \<and> total_bytes_in_files (t_config (new_transfer E now c))
      = sint (word_of_nat (\<Sum>k \<leftarrow> sent_names E (files c). the (fs_size E (files c ! k))) :: u64)"
proof -
  have "sent_names E [] = []" "pend (new_queue E) = []" using assms(1) by (simp_all add: sent_names_def is_fifo_def)
  with collect_files_spec [OF assms(1), of "[]" "files c" "new_queue E" 0] assms(2)
  have "(\<lambda>(tot, q). (tot, pend q)) (collect_files E (files c) {} 0 0 (new_queue E))
    = (word_of_nat (\<Sum>k \<leftarrow> sent_names E (files c). the (fs_size E (files c ! k))), map (queued_file E (files c)) (sent_names E (files c)))"
    by simp
  then show ?thesis
    by (auto simp: new_transfer_def new_transfer_id_def new_IIperfTest_def IIperfTest.defs IperfFileTransfer.defs split: prod.splits)
qed

theorem constructor_queues_files_witness:
  "x_pending (new_transfer example_env 5 (TestConfig_init\<lparr>files := [''dir/a.txt'', ''gone'', ''dir/a.txt'', ''b'']\<rparr>))
     = [example_a, example_b\<lparr>bar_id := 3\<rparr>]"
proof -
  let ?c = "TestConfig_init\<lparr>files := [''dir/a.txt'', ''gone'', ''dir/a.txt'', ''b'']\<rparr>"
  have s: "sent_names example_env (files ?c) = [0, 3]"
    by (simp add: sent_names_def example_env_def example_files_def upt_rec)
  show ?thesis
    using constructor_queues_files [OF example_fifo, of ?c 5] s
    by (simp add: queued_file_def example_env_def example_files_def example_a_def example_b_def)
qed

section \<open>Limits and failures\<close>

lemma next_block_fin:
  assumes "next_block E ob i T = Inr U" and "i < length (x_streams T)"
    and "x_out U \<noteq> x_out T"
  shows "\<exists>k. 0 < k \<and> k \<le> length (reader_rest (f_loc (x_streams T ! i)))
    \<and> fin (bk_hdr (f_loc (x_streams U ! i))) = (sent_bytes (f_loc (x_streams T ! i)) + word_of_nat k
        = (word_of_int (total_file_length (f_loc (x_streams T ! i))) :: u64))"
  using assms(1)
proof (cases rule: next_block_cases)
  case (empty l)
  then show ?thesis using assms(3) by (simp add: pc_defs)
next
  case (block chunk l zipped payload)
  let ?s = "x_streams T ! i" and ?V = "upd_loc i (\<lambda>_. make_block zipped payload chunk l) T"
  have l: "sent_bytes l = sent_bytes (f_loc ?s)" "total_file_length l = total_file_length (f_loc ?s)"
    and ck: "length chunk \<le> length (reader_rest (f_loc ?s))"
    using block(1) by (auto simp: read_file_def split: if_splits)
  have "x_streams ?V ! i = ?s\<lparr>f_loc := make_block zipped payload chunk l\<rparr>" "i < length (x_streams ?V)" using assms(2) by (simp_all add: pc_defs)
  then have "fin (bk_hdr (f_loc (x_streams U ! i))) = fin (bk_hdr (make_block zipped payload chunk l))"
    using send_block_eff(1) [OF block(4)] by (simp split: if_splits)
  then show ?thesis using block(2) ck l by (intro exI [of _ "length chunk"]) (simp add: make_block_def Let_def)
qed


definition example_large :: "File list IperfFileTransfer" where
  "example_large = example_sender\<lparr>t_config := TestConfig_init\<lparr>role := ROLE_FILE_SENDER, protocol := 1\<rparr>, x_streams := [example_stream0\<lparr>f_stream := Some 1, f_is_connected := True,
     f_loc := zero_local\<lparr>reader_rest := [9], total_file_length := sint (word_of_nat (2 ^ 31) :: i32), sent_bytes := 2147483647\<rparr>\<rparr>]\<rparr>"


text \<open>
  An empty file is not transferred: its thread reads nothing, sends no message and goes on to the next file, while
  the request has announced the file, so that the receiver keeps waiting for it.
\<close>

theorem empty_file_sends_nothing:
  assumes "healthy E i T" and "f_pc (x_streams T ! i) = F_Check"
    and "reader_rest (f_loc (x_streams T ! i)) = []" and "\<not> reader_eof (f_loc (x_streams T ! i))"
  shows "returns (run_events (file_step E) (replicate 4 (FeThread i ok_obs)) T)
    (\<lambda>U. x_out U = x_out T \<and> x_pending U = x_pending T \<and> f_pc (x_streams U ! i) = F_Fetch)"
proof -
  have h: "i < length (x_streams T)" "IsInActive T i" "\<not> f_has_err_in_send (x_streams T ! i)" "\<not> reader_bad (f_loc (x_streams T ! i))"
    "f_is_writable (x_streams T ! i)" "362 \<le> f_ideal_buffer_length (x_streams T ! i)" "f_ideal_buffer_length (x_streams T ! i) \<le> 300000"
    using assms(1) by (auto simp: healthy_def IsInActive_def Let_def)
  have "replicate 4 (FeThread i ok_obs) = [FeThread i ok_obs, FeThread i ok_obs, FeThread i ok_obs, FeThread i ok_obs]"
    by (simp add: numeral_eq_Suc)
  moreover have "0 < nat (ideal_file_read_len first (f_ideal_buffer_length (x_streams T ! i)))
      \<and> 0 \<le> ideal_file_read_len first (f_ideal_buffer_length (x_streams T ! i))
      \<and> ideal_file_read_len first (f_ideal_buffer_length (x_streams T ! i)) \<le> 300000" for first
    using ideal_read_len [OF h(6,7)] h(6,7) by (cases first) simp_all
  ultimately show ?thesis
    using assms(2-4) h
    by (simp add: returns_def Let_def pc_defs block_defs ok_obs_def IsInActive_def)
qed

definition example_empty :: "File list IperfFileTransfer" where
  "example_empty = example_sender\<lparr>x_streams := [example_stream0\<lparr>f_stream := Some 1, f_is_connected := True, f_pc := F_Check\<rparr>]\<rparr>"

theorem empty_file_sends_nothing_witness:
  "returns (run_events (file_step example_env) (replicate 4 (FeThread 0 ok_obs)) example_empty)
    (\<lambda>U. x_out U = [] \<and> f_pc (x_streams U ! 0) = F_Fetch)"
proof -
  have "returns (run_events (file_step example_env) (replicate 4 (FeThread 0 ok_obs)) example_empty)
    (\<lambda>U. x_out U = x_out example_empty \<and> x_pending U = x_pending example_empty \<and> f_pc (x_streams U ! 0) = F_Fetch)"
    by (rule empty_file_sends_nothing)
      (simp_all add: healthy_def example_empty_def example_defs zero_local_def)
  then show ?thesis by (rule returns_mono) (simp add: example_empty_def example_defs)
qed

text \<open>
  C29. A data connection that closes in the middle of a transfer takes the sender with it: the callback drops the
  connection but leaves the stream marked as connected, so the thread goes on and calls \<open>SendData\<close> through a
  null pointer with its next block.
\<close>

theorem closed_stream_crashes_sender:
  assumes "healthy E i T" and "f_pc (x_streams T ! i) = F_Block" and "reader_rest (f_loc (x_streams T ! i)) \<noteq> []"
    and "ev = BATS_CONNECTION_CLOSED \<or> ev = BATS_CONNECTION_SHUTDOWN_BY_PEER"
  shows "\<exists>U. file_step E T (FeCallback fi cn ideal ev b len (Some i)) = Inr U \<and> IsInActive U i
    \<and> file_step E U (FeThread i ok_obs) = Inl NullDeref"
proof -
  let ?U = "upd_stream i (\<lambda>s. s\<lparr>f_stream := None\<rparr>) T"
  have h: "i < length (x_streams T)" "IsInActive T i" using assms(1) by (auto simp: healthy_def IsInActive_def Let_def)
  have n: "0 < actual_file_read_len (is_compression_enabled (t_config ?U)) (x_streams ?U ! i)"
    using assms(1) h(1) ideal_read_len [of "f_ideal_buffer_length (x_streams T ! i)"]
    by (auto simp: healthy_def Let_def actual_file_read_len_def block_want_def max_compress_buf_sz_def)
  have "can_block E i ?U" using healthy_can_block [OF assms(1)] h(1) by (simp add: can_block_def)
  then have "next_block E ok_obs i ?U = Inl NullDeref"
  proof (cases rule: next_block_defined [where ob = ok_obs])
    case (empty l)
    then show ?thesis using n assms(3) h(1) by (simp add: read_file_def ok_obs_def)
  next
    case (block chunk l zipped payload)
    then show ?thesis using h(1) by (simp add: send_block_def pc_defs)
  qed
  then show ?thesis using h assms(2,4)
    by (auto simp: file_ConnectionCallback_def on_closed_def IsInActive_def)
qed

definition example_sending :: "File list IperfFileTransfer" where
  "example_sending = example_sender\<lparr>x_streams := [example_stream0\<lparr>f_stream := Some 1, f_is_connected := True, f_pc := F_Block,
     f_loc := zero_local\<lparr>reader_rest := [1, 2, 3]\<rparr>\<rparr>]\<rparr>"

lemma example_sending_healthy: "healthy example_env 0 example_sending"
  by (simp add: healthy_def example_sending_def example_defs zero_local_def)

theorem closed_stream_crashes_sender_witness:
  "\<exists>U. file_step example_env example_sending (FeCallback \<lparr>fi_ifaddrs = None, fi_space = None, fi_join = (\<lambda>_. []), fi_wbad = False\<rparr>
      1 0 BATS_CONNECTION_CLOSED [] 0 (Some 0)) = Inr U \<and> IsInActive U 0
    \<and> file_step example_env U (FeThread 0 ok_obs) = Inl NullDeref"
  by (rule closed_stream_crashes_sender [OF example_sending_healthy]) (simp_all add: example_sending_def example_defs)

text \<open>
  C30. The receiver of a file transfer calls the test done too early: after the request it has the role
  \<open>ROLE_RECEIVER\<close> and expects one stream, so as soon as the first connection is there the next poll ends the test, though
  no file has arrived; with a second connection no poll ends it, not even when all files are there.
\<close>

theorem receiver_done_after_connect:
  assumes "accepts c T" and "x_streams T = []" and "t_state T \<noteq> TEST_DONE"
  shows "returns (file_DataListenCallback (Some cn) BATS_LISTEN_NEW_CONNECTION T) (\<lambda>U.
      fst (file_TestFinishState U) \<and> t_state (snd (file_TestFinishState U)) = TEST_DONE \<and> num_files (t_config U) = int (length (files c))
      \<and> returns (file_DataListenCallback (Some cn') BATS_LISTEN_NEW_CONNECTION U) (\<lambda>W. \<not> fst (file_TestFinishState (W\<lparr>t_state := st\<rparr>))))"
  using assms
  by (simp add: file_DataListenCallback_def returns_def file_TestFinishState_def file_IsStreamDone_def accepts_def Let_def new_FileStream_def)

definition example_accepting :: "File list IperfFileTransfer" where
  "example_accepting = example_receiver\<lparr>x_streams := [], x_out := [FListen ''127.0.0.1'' 5201 (file_config (t_config example_receiver))]\<rparr>"

theorem receiver_done_after_connect_witness:
  "returns (file_DataListenCallback (Some 9) BATS_LISTEN_NEW_CONNECTION example_accepting)
     (\<lambda>U. fst (file_TestFinishState U) \<and> t_state (snd (file_TestFinishState U)) = TEST_DONE \<and> num_files (t_config U) = 2)"
proof -
  have "accepts (TestConfig_init\<lparr>files := [''a'', ''b''], protocol := 1\<rparr>) example_accepting"
    by (simp add: accepts_def example_accepting_def example_defs)
  from receiver_done_after_connect [OF this, where cn = 9 and cn' = 10 and st = TEST_START] show ?thesis
    by (rule returns_mono) (simp_all add: example_accepting_def example_defs)
qed



lemma received_name_dot: "received_name (t @ [dot_char]) = t"
  by (simp add: received_name_def extension_def name_only_def after_last_def before_last_def)



end
