(* ===== verification/File_Ext.thy ===== *)
theory File_Ext
  imports Prelude
begin

text \<open>
  \<open>bats_file.h\<close>: the table of file extensions. A constructor \<open>EXT_X\<close> is the enumerator
  \<open>FileExtension::X\<close>. The hash table is an association list; its iteration order is not specified,
  so the reverse lookup is defined on a list of entries in any order.
\<close>

datatype (plugins only: code) FileExtension =
    EXT_TXT | EXT_MD | EXT_LOG | EXT_JSON | EXT_YAML | EXT_YML | EXT_XML | EXT_INI | EXT_CONF | EXT_ENV
  | EXT_SH | EXT_PY | EXT_JS | EXT_TS | EXT_C | EXT_H | EXT_CPP | EXT_HPP | EXT_JAVA | EXT_GO | EXT_RS | EXT_O
  | EXT_SO | EXT_DLL | EXT_DYLIB | EXT_A | EXT_LIB | EXT_EXE | EXT_BIN | EXT_PT | EXT_PTH | EXT_SAFETENSORS
  | EXT_ONNX | EXT_TFLITE | EXT_PB | EXT_H5 | EXT_GGML | EXT_GGUF | EXT_TAR | EXT_TAR_GZ | EXT_ZIP
  | EXT_SEVENZ | EXT_GZ | EXT_BZ2 | EXT_XZ | EXT_ISO | EXT_HTML | EXT_CSS | EXT_JPG | EXT_PNG | EXT_GIF
  | EXT_SVG | EXT_WEBP | EXT_MP3 | EXT_WAV | EXT_FLAC | EXT_MP4 | EXT_MKV | EXT_PDF | EXT_DOCX | EXT_XLSX
  | EXT_PPTX | EXT_PEM | EXT_CRT | EXT_KEY | EXT_MD5 | EXT_SHA1 | EXT_SHA256 | EXT_UNKNOWN | EXT_COUNT

definition FileExtTable :: "(FileExtension \<times> string \<times> string) list" where
  "FileExtTable =
     [(EXT_TXT, ''.txt'', ''plain text file''),
      (EXT_MD, ''.md'', ''Markdown formatted text (documentation, README)''),
      (EXT_LOG, ''.log'', ''log output file''),
      (EXT_JSON, ''.json'', ''JSON data/configuration''),
      (EXT_YAML, ''.yaml'', ''YAML data/configuration''),
      (EXT_YML, ''.yml'', ''YAML data/configuration''),
      (EXT_XML, ''.xml'', ''XML data/configuration''),
      (EXT_INI, ''.ini'', ''simple key=value config file''),
      (EXT_CONF, ''.conf'', ''configuration file''),
      (EXT_ENV, ''.env'', ''environment variable definitions''),
      (EXT_SH, ''.sh'', ''shell script''),
      (EXT_PY, ''.py'', ''Python source file''),
      (EXT_JS, ''.js'', ''JavaScript source file''),
      (EXT_TS, ''.ts'', ''TypeScript source file''),
      (EXT_C, ''.c'', ''C source file''),
      (EXT_H, ''.h'', ''C header file''),
      (EXT_CPP, ''.cpp'', ''C++ source file''),
      (EXT_HPP, ''.hpp'', ''C++ header file''),
      (EXT_JAVA, ''.java'', ''Java source file''),
      (EXT_GO, ''.go'', ''Go source file''),
      (EXT_RS, ''.rs'', ''Rust source file''),
      (EXT_O, ''.o'', ''object file''),
      (EXT_SO, ''.so'', ''shared library (Linux)''),
      (EXT_DLL, ''.dll'', ''shared library (Windows)''),
      (EXT_DYLIB, ''.dylib'', ''shared library (macOS)''),
      (EXT_A, ''.a'', ''static library archive''),
      (EXT_LIB, ''.lib'', ''static library (Windows)''),
      (EXT_EXE, ''.exe'', ''executable binary (Windows)''),
      (EXT_BIN, ''.bin'', ''generic binary file / model weights (HuggingFace pytorch_model.bin)''),
      (EXT_PT, ''.pt'', ''PyTorch model checkpoint''),
      (EXT_PTH, ''.pth'', ''PyTorch model checkpoint''),
      (EXT_SAFETENSORS, ''.safetensors'', ''Safe tensor model format (preferred for sharing)''),
      (EXT_ONNX, ''.onnx'', ''ONNX model for interoperable runtimes''),
      (EXT_TFLITE, ''.tflite'', ''TensorFlow Lite model''),
      (EXT_PB, ''.pb'', ''TensorFlow protobuf model / checkpoint''),
      (EXT_H5, ''.h5'', ''Keras HDF5 model''),
      (EXT_GGML, ''.ggml'', ''GGML model format (llama.cpp)''),
      (EXT_GGUF, ''.gguf'', ''GGUF model format (llama.cpp ecosystem)''),
      (EXT_TAR, ''.tar'', ''tar archive''),
      (EXT_TAR_GZ, ''.tar.gz'', ''.tar.gz compressed archive''),
      (EXT_ZIP, ''.zip'', ''zip archive''),
      (EXT_SEVENZ, ''.7z'', ''7-zip archive''),
      (EXT_GZ, ''.gz'', ''gzip compressed file''),
      (EXT_BZ2, ''.bz2'', ''bzip2 compressed file''),
      (EXT_XZ, ''.xz'', ''xz compressed file''),
      (EXT_ISO, ''.iso'', ''optical image / installer image''),
      (EXT_HTML, ''.html'', ''web page''),
      (EXT_CSS, ''.css'', ''Cascading Style Sheets''),
      (EXT_JPG, ''.jpg'', ''JPEG image''),
      (EXT_PNG, ''.png'', ''PNG image''),
      (EXT_GIF, ''.gif'', ''GIF image''),
      (EXT_SVG, ''.svg'', ''SVG vector image''),
      (EXT_WEBP, ''.webp'', ''WEBP image''),
      (EXT_MP3, ''.mp3'', ''MP3 audio''),
      (EXT_WAV, ''.wav'', ''WAV audio''),
      (EXT_FLAC, ''.flac'', ''FLAC audio''),
      (EXT_MP4, ''.mp4'', ''MP4 video''),
      (EXT_MKV, ''.mkv'', ''Matroska video''),
      (EXT_PDF, ''.pdf'', ''Portable Document Format''),
      (EXT_DOCX, ''.docx'', ''Microsoft Word document''),
      (EXT_XLSX, ''.xlsx'', ''Microsoft Excel spreadsheet''),
      (EXT_PPTX, ''.pptx'', ''Microsoft PowerPoint presentation''),
      (EXT_PEM, ''.pem'', ''PEM formatted certificate/key''),
      (EXT_CRT, ''.crt'', ''certificate file''),
      (EXT_KEY, ''.key'', ''private key file''),
      (EXT_MD5, ''.md5'', ''MD5 checksum file''),
      (EXT_SHA1, ''.sha1'', ''SHA-1 checksum file''),
      (EXT_SHA256, ''.sha256'', ''SHA-256 checksum file''),
      (EXT_UNKNOWN, '''', '''')]"

section \<open>Lookups\<close>

definition FileExtToString :: "FileExtension \<Rightarrow> string" where
  "FileExtToString fe = (case map_of FileExtTable fe of None \<Rightarrow> '''' | Some (ext, desc) \<Rightarrow> ext)"

definition FileExtToDescription :: "FileExtension \<Rightarrow> string" where
  "FileExtToDescription fe = (case map_of FileExtTable fe of None \<Rightarrow> '''' | Some (ext, desc) \<Rightarrow> desc)"

text \<open>The loop over the table in the order \<open>tbl\<close>.\<close>

fun FileExtFromString :: "(FileExtension \<times> string \<times> string) list \<Rightarrow> string \<Rightarrow> FileExtension" where
  "FileExtFromString [] s = EXT_UNKNOWN"
| "FileExtFromString ((fe, ext, desc) # tbl) s = (if ext = s then fe else FileExtFromString tbl s)"

section \<open>The table is a bijection\<close>

lemma distinct_keys: "distinct (map fst FileExtTable)"
  by code_simp

lemma distinct_extensions: "distinct (map (fst \<circ> snd) FileExtTable)"
  by code_simp

lemma keys_complete: "fe = EXT_COUNT \<or> fe \<in> fst ` set FileExtTable"
  by (cases fe; hypsubst; code_simp)

lemma no_COUNT: "EXT_COUNT \<notin> fst ` set FileExtTable"
  by code_simp

lemma FileExtFromString_in:
  "distinct (map (fst \<circ> snd) tbl) \<Longrightarrow> (fe, ext, desc) \<in> set tbl \<Longrightarrow> FileExtFromString tbl ext = fe"
  by (induction tbl ext rule: FileExtFromString.induct) (force intro: rev_image_eqI)+

lemma FileExtFromString_notin:
  "s \<notin> (fst \<circ> snd) ` set tbl \<Longrightarrow> FileExtFromString tbl s = EXT_UNKNOWN"
  by (induction tbl s rule: FileExtFromString.induct) auto

lemma FileExtToString_in: "(fe, ext, desc) \<in> set FileExtTable \<Longrightarrow> FileExtToString fe = ext"
  by (simp add: FileExtToString_def map_of_is_SomeI distinct_keys)

lemma order_irrelevant:
  assumes "distinct (map (fst \<circ> snd) tbl)" and "set tbl' = set tbl" and "distinct tbl'"
  shows "FileExtFromString tbl' s = FileExtFromString tbl s"
proof (cases "s \<in> (fst \<circ> snd) ` set tbl")
  case True
  then obtain fe desc where e: "(fe, s, desc) \<in> set tbl" by auto
  have "inj_on (fst \<circ> snd) (set tbl')" using assms(1,2) by (simp add: distinct_map)
  then have "distinct (map (fst \<circ> snd) tbl')" using assms(3) by (simp add: distinct_map)
  then show ?thesis using e assms(1,2) by (simp add: FileExtFromString_in)
next
  case False
  then show ?thesis using assms(2) by (simp add: FileExtFromString_notin)
qed

section \<open>Round trip\<close>

text \<open>
  C31. The table is one to one, whatever order the hash map iterates in: the extension of every file type but the
  sentinel is found back as that type, two types never share an extension, and a string that is no extension of
  the table is of unknown type, as is the (empty) extension given for the sentinel.
\<close>

theorem extension_roundtrip:
  assumes "set tbl = set FileExtTable" and "distinct tbl"
  shows "FileExtFromString tbl (FileExtToString fe) = (if fe = EXT_COUNT then EXT_UNKNOWN else fe)
    \<and> (fe \<noteq> EXT_COUNT \<longrightarrow> fe' \<noteq> EXT_COUNT \<longrightarrow> FileExtToString fe = FileExtToString fe' \<longrightarrow> fe = fe')
    \<and> (s \<notin> range FileExtToString \<longrightarrow> FileExtFromString tbl s = EXT_UNKNOWN)"
proof -
  note order = order_irrelevant [OF distinct_extensions assms]
  have found: "FileExtFromString FileExtTable (FileExtToString fe) = fe" if ne: "fe \<noteq> EXT_COUNT" for fe
  proof -
    obtain ext desc where e: "(fe, ext, desc) \<in> set FileExtTable" using ne keys_complete [of fe] by auto
    then show ?thesis using FileExtToString_in [OF e] FileExtFromString_in [OF distinct_extensions e] by simp
  qed
  have "map_of FileExtTable EXT_COUNT = None" using no_COUNT by (simp add: map_of_eq_None_iff)
  then have "FileExtToString EXT_COUNT = FileExtToString EXT_UNKNOWN"
    using FileExtToString_in [of EXT_UNKNOWN "''''" "''''"] by (simp add: FileExtToString_def FileExtTable_def)
  then have count: "FileExtFromString FileExtTable (FileExtToString EXT_COUNT) = EXT_UNKNOWN" using found by simp
  have "FileExtFromString FileExtTable s = EXT_UNKNOWN" if "s \<notin> range FileExtToString"
  proof (rule FileExtFromString_notin, rule notI)
    assume "s \<in> (fst \<circ> snd) ` set FileExtTable"
    then obtain fe desc where "(fe, s, desc) \<in> set FileExtTable" by auto
    then show False using that FileExtToString_in by blast
  qed
  then show ?thesis unfolding order using found count by metis
qed

theorem extension_roundtrip_witness:
  "FileExtFromString (rev FileExtTable) (FileExtToString EXT_PDF) = EXT_PDF
   \<and> FileExtToString EXT_PDF \<noteq> FileExtToString EXT_PNG"
proof -
  have "set (rev FileExtTable) = set FileExtTable" by simp
  moreover have "distinct (rev FileExtTable)" using distinct_keys by (simp add: distinct_map)
  ultimately show ?thesis using extension_roundtrip [of "rev FileExtTable" EXT_PDF EXT_PNG] by auto
qed

end
