(* ===== verification/Command_Line.thy ===== *)
theory Command_Line
  imports Config
begin

text \<open>
  The command line of \<open>bats_iperf\<close>: the argument loop of \<open>IperfBatsApi::InitFromArgs\<close> and the two
  validation functions (\<open>iperf_bats_api.cc\<close>), with \<open>std::stoi\<close> and \<open>std::stof\<close> as the C++ library
  specifies them: leading white space is skipped, the longest prefix that is a number is converted, what
  follows is ignored; a string without a number or with a number out of range throws, and nothing catches it.
  An uncaught exception is the fault \<open>Terminate\<close>.
\<close>

section \<open>Numbers in strings\<close>

definition is_space :: "char \<Rightarrow> bool" where
  "is_space c \<longleftrightarrow> (let n = of_char c :: nat in n = 32 \<or> 9 \<le> n \<and> n \<le> 13)"

definition digit_of :: "nat \<Rightarrow> char \<Rightarrow> nat option" where
  "digit_of base c =
     (let n = of_char c :: nat;
          d = (if 48 \<le> n \<and> n \<le> 57 then n - 48
               else if 65 \<le> n \<and> n \<le> 70 then n - 55
               else if 97 \<le> n \<and> n \<le> 102 then n - 87 else base)
      in if d < base then Some d else None)"

text \<open>The longest prefix of digits: its value, its length and the rest.\<close>

fun read_digits :: "nat \<Rightarrow> nat \<Rightarrow> nat \<Rightarrow> string \<Rightarrow> nat \<times> nat \<times> string" where
  "read_digits base v n [] = (v, n, [])"
| "read_digits base v n (c # cs) =
     (case digit_of base c of None \<Rightarrow> (v, n, c # cs) | Some d \<Rightarrow> read_digits base (v * base + d) (Suc n) cs)"

definition read_sign :: "string \<Rightarrow> int \<times> string" where
  "read_sign s =
     (case s of [] \<Rightarrow> (1, s)
      | c # cs \<Rightarrow> if c = CHR ''-'' then (- 1, cs) else if c = CHR ''+'' then (1, cs) else (1, s))"

definition stoi :: "string \<Rightarrow> int res" where
  "stoi s =
     (let (sgn, t) = read_sign (dropWhile is_space s); (v, n, rest) = read_digits 10 0 0 t; x = sgn * int v
      in if n = 0 then Inl Terminate else if x < - (2 ^ 31) \<or> 2 ^ 31 \<le> x then Inl Terminate else Inr x)"

definition lower :: "char \<Rightarrow> char" where
  "lower c = (let n = of_char c :: nat in if 65 \<le> n \<and> n \<le> 90 then char_of (n + 32) else c)"

text \<open>An exponent belongs to the number only if it has digits.\<close>

definition read_exponent :: "char \<Rightarrow> string \<Rightarrow> int" where
  "read_exponent e s =
     (case s of [] \<Rightarrow> 0
      | c # cs \<Rightarrow>
        if lower c \<noteq> e then 0
        else (let (sgn, t) = read_sign cs; (v, n, rest) = read_digits 10 0 0 t in if n = 0 then 0 else sgn * int v))"

text \<open>Mantissa and exponent in base 10 or 16; \<open>None\<close>: no digit.\<close>

definition read_decimal :: "nat \<Rightarrow> char \<Rightarrow> rat \<Rightarrow> string \<Rightarrow> rat option" where
  "read_decimal base e scale s =
     (let (v, n, rest) = read_digits base 0 0 s;
          (w, m, rest) = (case rest of [] \<Rightarrow> (v, 0, rest)
             | c # cs \<Rightarrow> if c = CHR ''.'' then read_digits base v 0 cs else (v, 0, rest))
      in if n + m = 0 then None
         else Some (of_nat w / of_nat base ^ m * scale powi read_exponent e rest))"

definition is_hex :: "string \<Rightarrow> bool" where
  "is_hex s \<longleftrightarrow> map lower (take 2 s) = ''0x'' \<and> read_decimal 16 (CHR ''p'') 2 (drop 2 s) \<noteq> None"

definition read_number :: "string \<Rightarrow> rat option" where
  "read_number s =
     (if is_hex s then read_decimal 16 (CHR ''p'') 2 (drop 2 s) else read_decimal 10 (CHR ''e'') 10 s)"

text \<open>A result that overflows, or is inexact below the normal range, is out of range.\<close>

definition in_range :: "rat \<Rightarrow> flt \<Rightarrow> bool" where
  "in_range x v = (case v of Fin r \<Rightarrow> r = x \<or> 2 powi (- 126) \<le> \<bar>r\<bar> | _ \<Rightarrow> False)"

definition stof :: "string \<Rightarrow> flt res" where
  "stof s =
     (let (sgn, t) = read_sign (dropWhile is_space s)
      in if map lower (take 3 t) = ''inf'' then Inr (inf_of sgn)
         else if map lower (take 3 t) = ''nan'' then Inr NaN
         else case read_number t of
                None \<Rightarrow> Inl Terminate
              | Some x \<Rightarrow> (let y = of_int sgn * x; v = fl Single y
                          in if in_range y v then Inr v else Inl Terminate))"

section \<open>Options\<close>

text \<open>
  What the options set: members of \<open>IperfBatsApi\<close> and the locals \<open>cur_vec_arg\<close> and \<open>is_reading_vec\<close> of the loop,
  which are set together by \<open>-f\<close> and never reset. \<open>usage_shown\<close> says that \<open>Usage\<close> was called.
\<close>

record cli =
  cli_config :: TestConfig
  cli_role :: TestRole
  cli_interface :: string
  cli_log_file :: string
  cli_bats_log_path :: string
  is_reading_vec :: bool
  usage_shown :: bool

definition cli_init :: cli where
  "cli_init = \<lparr>cli_config = TestConfig_init, cli_role = ROLE_NONE, cli_interface = '''', cli_log_file = '''',
     cli_bats_log_path = '''', is_reading_vec = False, usage_shown = False\<rparr>"

definition set_config :: "(TestConfig \<Rightarrow> TestConfig) \<Rightarrow> cli \<Rightarrow> cli" where
  "set_config f c = c\<lparr>cli_config := f (cli_config c)\<rparr>"

text \<open>
  A result \<open>Some r\<close> is an early return of the role \<open>r\<close>. Options without a value; \<open>None\<close>: not one of them.
\<close>

definition flag_arg :: "string \<Rightarrow> cli \<Rightarrow> (TestRole option \<times> cli) option" where
  "flag_arg a c =
     (if a = ''-h'' then Some (Some ROLE_OBSERVER, c\<lparr>usage_shown := True\<rparr>)
      else if a = ''-d'' then Some (None, set_config (is_debug_mode_update (\<lambda>_. True)) c)
      else if a = ''-r'' then Some (None, set_config (is_reverse_enabled_update (\<lambda>_. True)) c)
      else if a = ''-C'' then Some (None, set_config (is_compression_enabled_update (\<lambda>_. True)) c)
      else if a = ''-T'' then Some (None, set_config (is_precise_time_enabled_update (\<lambda>_. True)) c)
      else if a = ''-s''
      then Some (if cli_role c = ROLE_NONE then (None, c\<lparr>cli_role := ROLE_RECEIVER\<rparr>) else (Some ROLE_NONE, c))
      else None)"

definition value_args :: "string list" where
  "value_args = [''-t'', ''-i'', ''-P'', ''-p'', ''-m'', ''-b'', ''-f'', ''-I'', ''-l'', ''-L'', ''-c'']"

definition int_arg :: "string \<Rightarrow> (int \<Rightarrow> TestConfig \<Rightarrow> TestConfig) option" where
  "int_arg a =
     (if a = ''-P'' then Some (\<lambda>n. num_streams_update (\<lambda>_. n))
      else if a = ''-p'' then Some (\<lambda>n. port_update (\<lambda>_. n))
      else if a = ''-m'' then Some (\<lambda>n. protocol_update (\<lambda>_. n))
      else if a = ''-b'' then Some (\<lambda>n. max_allowed_sending_rate_update (\<lambda>_. n))
      else None)"

definition push_file :: "string \<Rightarrow> cli \<Rightarrow> cli" where
  "push_file v = set_config (files_update (\<lambda>fs. fs @ [v]))"

definition value_arg :: "string \<Rightarrow> string \<Rightarrow> cli \<Rightarrow> (TestRole option \<times> cli) res" where
  "value_arg a v c =
     (if a = ''-t'' then rbind (stof v) (\<lambda>x. Inr (None, set_config (time_update (\<lambda>_. x)) c))
      else if a = ''-i'' then rbind (stof v) (\<lambda>x. Inr (None, set_config (interval_update (\<lambda>_. x)) c))
      else case int_arg a of
        Some upd \<Rightarrow> rbind (stoi v) (\<lambda>n. Inr (None, set_config (upd n) c))
      | None \<Rightarrow>
        if a = ''-f'' then Inr (None, push_file v (c\<lparr>is_reading_vec := True\<rparr>))
        else if a = ''-I'' then Inr (None, c\<lparr>cli_interface := v\<rparr>)
        else if a = ''-l'' then Inr (None, c\<lparr>cli_log_file := v\<rparr>)
        else if a = ''-L'' then Inr (None, c\<lparr>cli_bats_log_path := v\<rparr>)
        else
          (let c = set_config (peer_host_update (\<lambda>_. v)) c
           in Inr (if cli_role c = ROLE_NONE then (None, c\<lparr>cli_role := ROLE_SENDER\<rparr>) else (Some ROLE_NONE, c))))"

text \<open>\<open>-t\<close> and \<open>-i\<close> do not check that a value follows: they convert the null pointer that ends \<open>argv\<close>.\<close>

definition missing_value :: "string \<Rightarrow> cli \<Rightarrow> (TestRole option \<times> cli) res" where
  "missing_value a c = (if a = ''-t'' \<or> a = ''-i'' then Inl NullDeref else Inr (Some ROLE_NONE, c))"

definition other_arg :: "string \<Rightarrow> cli \<Rightarrow> TestRole option \<times> cli" where
  "other_arg a c = (if is_reading_vec c then (None, push_file a c) else (Some ROLE_NONE, c\<lparr>usage_shown := True\<rparr>))"

fun parse_args :: "string list \<Rightarrow> cli \<Rightarrow> (TestRole option \<times> cli) res" where
  "parse_args [] c = Inr (None, c)"
| "parse_args (a # as) c =
     (case flag_arg a c of
        Some (r, c) \<Rightarrow> if r = None then parse_args as c else Inr (r, c)
      | None \<Rightarrow>
        if a \<in> set value_args
        then (case as of
                [] \<Rightarrow> missing_value a c
              | v # as \<Rightarrow> rbind (value_arg a v c) (\<lambda>(r, c). if r = None then parse_args as c else Inr (r, c)))
        else (case other_arg a c of (r, c) \<Rightarrow> if r = None then parse_args as c else Inr (r, c)))"

declare parse_args.simps(2) [simp del]

section \<open>Validation\<close>

definition ValidateClientConfig :: "(string \<Rightarrow> bool) \<Rightarrow> TestConfig \<Rightarrow> cli \<Rightarrow> bool \<times> cli" where
  "ValidateClientConfig file_exists c a =
     (if peer_host c = '''' then (False, a)
      else if \<not> IsSupportedProtocol (protocol c) then (False, a\<lparr>usage_shown := True\<rparr>)
      else if role c = ROLE_FILE_SENDER \<and> \<not> (protocol c = 1 \<or> protocol c = 2) then (False, a)
      else if role c = ROLE_FILE_SENDER \<and> 10 < length (files c) then (False, a)
      else if role c = ROLE_FILE_SENDER \<and> \<not> (\<exists>f \<in> set (files c). file_exists f) then (False, a)
      else if role c = ROLE_FILE_SENDER \<and> word_of_nat (length (files c)) < (word_of_int (num_streams c) :: u64) then (False, a)
      else (True, a))"

definition ValidateServerConfig :: "ifaddr list option \<Rightarrow> TestConfig \<Rightarrow> cli \<Rightarrow> bool \<times> cli" where
  "ValidateServerConfig ifs c a =
     (if cli_interface a = '''' then (False, a)
      else if ReadIPAddress ifs (cli_interface a) = '''' then (False, a)
      else if \<not> IsSupportedProtocol (protocol c) then (False, a\<lparr>usage_shown := True\<rparr>)
      else if files c \<noteq> [] then (False, a)
      else if 0 < max_allowed_sending_rate c then (False, a)
      else (True, a))"

text \<open>
  From the end of the loop to the role that \<open>InitFromArgs\<close> returns (without the log files and the test that it creates).
\<close>

definition requested_role :: "cli \<Rightarrow> TestRole" where
  "requested_role a = (if files (cli_config a) \<noteq> [] \<and> cli_role a = ROLE_SENDER then ROLE_FILE_SENDER else cli_role a)"

definition check_config :: "(string \<Rightarrow> bool) \<Rightarrow> ifaddr list option \<Rightarrow> cli \<Rightarrow> TestRole \<times> cli" where
  "check_config file_exists ifs a =
     (let r = requested_role a;
          a = set_config (role_update (\<lambda>_. r)) (a\<lparr>cli_role := r\<rparr>) in
      if isReceiverRole r
      then (case ValidateServerConfig ifs (cli_config a) a of (ok, a) \<Rightarrow> (if ok then r else ROLE_NONE, a))
      else if isSenderRole r
      then (case ValidateClientConfig file_exists (cli_config a) a of (ok, a) \<Rightarrow> (if ok then r else ROLE_NONE, a))
      else (ROLE_NONE, a))"

section \<open>Numbers are read back\<close>

lemma of_char_digit: "d < 10 \<Longrightarrow> of_char (digit_char d) = 48 + d"
  by (simp add: digit_char_def)

lemma digit_of_digit_char: "d < 10 \<Longrightarrow> digit_of 10 (digit_char d) = Some d"
  by (simp add: digit_of_def of_char_digit)

lemma show_nat_digits: "c \<in> set (show_nat n) \<Longrightarrow> \<exists>d < 10. c = digit_char d"
proof (induction n rule: show_nat.induct)
  case (1 n)
  show ?case
  proof (cases "n < 10")
    case True
    then show ?thesis using "1.prems" by (auto simp: show_nat.simps [of n])
  next
    case False
    then have "c \<in> set (show_nat (n div 10)) \<or> c = digit_char (n mod 10)" using "1.prems" by (auto simp: show_nat.simps [of n])
    then show ?thesis using "1.IH" [OF False] by (auto intro: exI [of _ "n mod 10"])
  qed
qed

lemma read_digits_append:
  assumes "\<forall>c \<in> set xs. digit_of base c \<noteq> None"
  shows "read_digits base v n (xs @ ys) = (case read_digits base v n xs of (w, m, _) \<Rightarrow> read_digits base w m ys)"
  using assms by (induction xs arbitrary: v n) auto

lemma read_show_nat: "read_digits 10 v k (show_nat n) = (v * 10 ^ length (show_nat n) + n, k + length (show_nat n), [])"
proof (induction n arbitrary: v k rule: show_nat.induct)
  case (1 n)
  show ?case
  proof (cases "n < 10")
    case True
    then show ?thesis by (simp add: show_nat.simps [of n] digit_of_digit_char)
  next
    case False
    have "\<forall>c \<in> set (show_nat (n div 10)). digit_of 10 c \<noteq> None"
      using show_nat_digits digit_of_digit_char by fastforce
    then have "read_digits 10 v k (show_nat n) =
        ((v * 10 ^ length (show_nat (n div 10)) + n div 10) * 10 + n mod 10, k + length (show_nat (n div 10)) + 1, [])"
      using False "1.IH" by (simp add: show_nat.simps [of n] read_digits_append digit_of_digit_char)
    then show ?thesis using False by (simp add: show_nat.simps [of n] algebra_simps)
  qed
qed

lemma show_nat_nonempty [simp]: "show_nat n \<noteq> []"
  by (subst show_nat.simps) simp

lemma show_nat_head:
  assumes "show_nat n = c # cs"
  shows "48 \<le> (of_char c :: nat)" and "(of_char c :: nat) \<le> 57"
proof -
  have "c \<in> set (show_nat n)" using assms by simp
  then obtain d where "d < 10" "c = digit_char d" using show_nat_digits by blast
  then show "48 \<le> (of_char c :: nat)" and "(of_char c :: nat) \<le> 57" by (simp_all add: of_char_digit)
qed

lemma sign_chars: "of_char (CHR ''-'') = (45::nat)" "of_char (CHR ''+'') = (43::nat)"
  by simp_all

lemma read_sign_show_nat: "read_sign (dropWhile is_space (show_nat n)) = (1, show_nat n)"
proof (cases "show_nat n")
  case (Cons c cs)
  have h: "48 \<le> (of_char c :: nat)" "(of_char c :: nat) \<le> 57" by (rule show_nat_head [OF Cons])+
  then have "c \<noteq> CHR ''-''" "c \<noteq> CHR ''+''" "\<not> is_space c" using sign_chars by (auto simp: is_space_def Let_def)
  then show ?thesis using Cons by (simp add: read_sign_def)
qed simp

lemma stoi_show_int:
  assumes "- (2 ^ 31) \<le> n" and "n < 2 ^ 31"
  shows "stoi (show_int n) = Inr n"
proof (cases "n < 0")
  case True
  have "read_sign (dropWhile is_space (show_int n)) = (- 1, show_nat (nat (- n)))"
    using True by (simp add: show_int_def read_sign_def is_space_def)
  then show ?thesis using assms True by (simp add: stoi_def read_show_nat)
next
  case False
  then show ?thesis using assms by (simp add: stoi_def show_int_def read_sign_show_nat read_show_nat)
qed

lemma lower_digit:
  assumes "(of_char c :: nat) \<le> 57"
  shows "lower c = c"
  using assms by (simp add: lower_def Let_def)

lemma stof_show_nat:
  assumes "n < 2 ^ 24"
  shows "stof (show_nat n) = Inr (Fin (of_nat n))"
proof -
  have rd: "read_decimal 10 (CHR ''e'') 10 (show_nat n) = Some (of_nat n)"
    by (simp add: read_decimal_def read_show_nat read_exponent_def)
  have low: "map lower (take k (show_nat n)) = take k (show_nat n)" for k
  proof (rule map_idI)
    fix c assume "c \<in> set (take k (show_nat n))"
    then obtain d where "d < 10" "c = digit_char d" by (metis in_set_takeD show_nat_digits)
    then show "lower c = c" by (intro lower_digit) (simp add: of_char_digit)
  qed
  have no: "take k (show_nat n) \<noteq> a # b # s" if "b \<notin> digit_char ` {..<10}" for k a b s
  proof
    assume "take k (show_nat n) = a # b # s"
    then have "b \<in> set (take k (show_nat n))" by simp
    then show False using that by (metis imageI in_set_takeD lessThan_iff show_nat_digits)
  qed
  have letters: "CHR ''n'' \<notin> digit_char ` {..<10}" "CHR ''a'' \<notin> digit_char ` {..<10}" "CHR ''x'' \<notin> digit_char ` {..<10}"
    by (auto simp: of_char_digit dest!: arg_cong [where f = "of_char :: char \<Rightarrow> nat"])
  have "fl_int Single (int n) = Fin (of_int (int n))" by (rule fl_int_exact) (use assms in simp)
  then have "fl Single (of_nat n) = Fin (of_nat n)" by (simp add: fl_int_def)
  then show ?thesis
    using rd low no letters by (simp add: stof_def read_sign_show_nat read_number_def is_hex_def in_range_def)
qed

section \<open>What a command line means\<close>

text \<open>
  The abstract command line: a list of options with their values. \<open>render\<close> is its text, \<open>apply_opt\<close> its meaning.
\<close>

datatype opt =
    Debug | Reverse | Compression | PreciseTime | Server
  | Client string | Streams int | Port int | Mode int | Rate int | Seconds nat | Interval nat
  | Interface string | LogFile string | BatsLog string | Files string "string list"

fun render :: "opt \<Rightarrow> string list" where
  "render Debug = [''-d'']"
| "render Reverse = [''-r'']"
| "render Compression = [''-C'']"
| "render PreciseTime = [''-T'']"
| "render Server = [''-s'']"
| "render (Client host) = [''-c'', host]"
| "render (Streams n) = [''-P'', show_int n]"
| "render (Port n) = [''-p'', show_int n]"
| "render (Mode n) = [''-m'', show_int n]"
| "render (Rate n) = [''-b'', show_int n]"
| "render (Seconds n) = [''-t'', show_nat n]"
| "render (Interval n) = [''-i'', show_nat n]"
| "render (Interface v) = [''-I'', v]"
| "render (LogFile v) = [''-l'', v]"
| "render (BatsLog v) = [''-L'', v]"
| "render (Files f fs) = [''-f'', f] @ fs"

fun apply_opt :: "opt \<Rightarrow> cli \<Rightarrow> cli" where
  "apply_opt Debug c = set_config (is_debug_mode_update (\<lambda>_. True)) c"
| "apply_opt Reverse c = set_config (is_reverse_enabled_update (\<lambda>_. True)) c"
| "apply_opt Compression c = set_config (is_compression_enabled_update (\<lambda>_. True)) c"
| "apply_opt PreciseTime c = set_config (is_precise_time_enabled_update (\<lambda>_. True)) c"
| "apply_opt Server c = c\<lparr>cli_role := ROLE_RECEIVER\<rparr>"
| "apply_opt (Client host) c = (set_config (peer_host_update (\<lambda>_. host)) c)\<lparr>cli_role := ROLE_SENDER\<rparr>"
| "apply_opt (Streams n) c = set_config (num_streams_update (\<lambda>_. n)) c"
| "apply_opt (Port n) c = set_config (port_update (\<lambda>_. n)) c"
| "apply_opt (Mode n) c = set_config (protocol_update (\<lambda>_. n)) c"
| "apply_opt (Rate n) c = set_config (max_allowed_sending_rate_update (\<lambda>_. n)) c"
| "apply_opt (Seconds n) c = set_config (time_update (\<lambda>_. Fin (of_nat n))) c"
| "apply_opt (Interval n) c = set_config (interval_update (\<lambda>_. Fin (of_nat n))) c"
| "apply_opt (Interface v) c = c\<lparr>cli_interface := v\<rparr>"
| "apply_opt (LogFile v) c = c\<lparr>cli_log_file := v\<rparr>"
| "apply_opt (BatsLog v) c = c\<lparr>cli_bats_log_path := v\<rparr>"
| "apply_opt (Files f fs) c = set_config (files_update (\<lambda>gs. gs @ f # fs)) (c\<lparr>is_reading_vec := True\<rparr>)"

definition is_option :: "string \<Rightarrow> bool" where
  "is_option a \<longleftrightarrow> a \<in> set ([''-h'', ''-d'', ''-r'', ''-C'', ''-T'', ''-s''] @ value_args)"

fun is_int32 :: "int \<Rightarrow> bool" where
  "is_int32 n = (- (2 ^ 31) \<le> n \<and> n < 2 ^ 31)"

declare is_int32.simps [simp del]

fun opt_ok :: "opt \<Rightarrow> bool" where
  "opt_ok (Streams n) = is_int32 n"
| "opt_ok (Port n) = is_int32 n"
| "opt_ok (Mode n) = is_int32 n"
| "opt_ok (Rate n) = is_int32 n"
| "opt_ok (Seconds n) = (n < 2 ^ 24)"
| "opt_ok (Interval n) = (n < 2 ^ 24)"
| "opt_ok (Files f fs) = list_all (\<lambda>g. \<not> is_option g) fs"
| "opt_ok _ = True"

fun sets_role :: "opt \<Rightarrow> bool" where
  "sets_role Server = True"
| "sets_role (Client host) = True"
| "sets_role _ = False"

lemmas arg_defs = parse_args.simps flag_arg_def value_args_def value_arg_def int_arg_def Let_def

lemma parse_file_names:
  assumes "list_all (\<lambda>g. \<not> is_option g) fs" and "is_reading_vec c"
  shows "parse_args (fs @ rest) c = parse_args rest (set_config (files_update (\<lambda>gs. gs @ fs)) c)"
  using assms
proof (induction fs arbitrary: c)
  case Nil
  have "set_config (files_update (\<lambda>gs. gs @ [])) c = c" by (cases c; cases "cli_config c") (simp add: set_config_def)
  then show ?case by (simp only: append_Nil)
next
  case (Cons f fs)
  have "flag_arg f c = None" "f \<notin> set value_args" using Cons.prems by (auto simp: is_option_def flag_arg_def)
  then have "parse_args ((f # fs) @ rest) c = parse_args (fs @ rest) (push_file f c)"
    using Cons.prems by (simp add: parse_args.simps other_arg_def)
  also have "\<dots> = parse_args rest (set_config (files_update (\<lambda>gs. gs @ fs)) (push_file f c))"
    by (rule Cons.IH) (use Cons.prems in \<open>auto simp: push_file_def set_config_def\<close>)
  also have "set_config (files_update (\<lambda>gs. gs @ fs)) (push_file f c) = set_config (files_update (\<lambda>gs. gs @ f # fs)) c"
    by (simp add: push_file_def set_config_def comp_def)
  finally show ?case .
qed

lemma parse_opt:
  assumes "opt_ok x" and "sets_role x \<Longrightarrow> cli_role c = ROLE_NONE"
  shows "parse_args (render x @ rest) c = parse_args rest (apply_opt x c)"
proof (cases x)
  case (Files f fs)
  have "parse_args (render x @ rest) c = parse_args (fs @ rest) (push_file f (c\<lparr>is_reading_vec := True\<rparr>))"
    by (simp add: Files arg_defs)
  also have "\<dots> = parse_args rest (set_config (files_update (\<lambda>gs. gs @ fs)) (push_file f (c\<lparr>is_reading_vec := True\<rparr>)))"
    by (rule parse_file_names) (use assms(1) Files in \<open>auto simp: push_file_def set_config_def\<close>)
  finally show ?thesis by (simp add: Files push_file_def set_config_def comp_def)
qed (use assms in \<open>simp_all add: arg_defs stoi_show_int stof_show_nat is_int32.simps\<close>, simp_all add: set_config_def)

lemma apply_opt_role: "\<not> sets_role x \<Longrightarrow> cli_role (apply_opt x c) = cli_role c"
  by (cases x) (simp_all add: set_config_def)

lemma command_line_prefix:
  assumes "list_all opt_ok os" and "length (filter sets_role os) \<le> 1" and "cli_role c = ROLE_NONE \<or> filter sets_role os = []"
  shows "parse_args (concat (map render os) @ rest) c = parse_args rest (fold apply_opt os c)"
  using assms
proof (induction os arbitrary: c)
  case (Cons x os)
  have "parse_args (render x @ concat (map render os) @ rest) c = parse_args (concat (map render os) @ rest) (apply_opt x c)"
    by (rule parse_opt) (use Cons.prems in auto)
  also have "\<dots> = parse_args rest (fold apply_opt os (apply_opt x c))"
    by (rule Cons.IH) (use Cons.prems in \<open>auto simp: apply_opt_role split: if_splits\<close>)
  finally show ?case by simp
qed simp



text \<open>
  \<open>-t\<close> and \<open>-i\<close> as the last argument take the null pointer for a string, while every other option without its value makes
  the program return no role; \<open>-t\<close> and \<open>-i\<close> and the integer options end the program by an uncaught exception on a value that
  does not start with a number.
\<close>

theorem bad_arguments:
  assumes "list_all opt_ok os" and "length (filter sets_role os) \<le> 1" and "a \<in> set value_args"
  shows "parse_args (concat (map render os) @ [a]) cli_init =
      (if a = ''-t'' \<or> a = ''-i'' then Inl NullDeref else Inr (Some ROLE_NONE, fold apply_opt os cli_init))
    \<and> (a \<in> {''-t'', ''-i''} \<longrightarrow> stof v = Inl Terminate \<longrightarrow> parse_args (concat (map render os) @ [a, v]) cli_init = Inl Terminate)
    \<and> (a \<in> {''-P'', ''-p'', ''-m'', ''-b''} \<longrightarrow> stoi v = Inl Terminate \<longrightarrow> parse_args (concat (map render os) @ [a, v]) cli_init = Inl Terminate)"
proof -
  have p: "parse_args (concat (map render os) @ rest) cli_init = parse_args rest (fold apply_opt os cli_init)" for rest
    by (rule command_line_prefix [OF assms(1,2)]) (simp add: cli_init_def)
  have "flag_arg a c = None" for c using assms(3) by (auto simp: value_args_def flag_arg_def)
  then show ?thesis
    unfolding p using assms(3) by (auto simp: parse_args.simps missing_value_def value_arg_def int_arg_def)
qed

theorem bad_arguments_witness:
  "parse_args [''-c'', ''10.0.0.1'', ''-t''] cli_init = Inl NullDeref
   \<and> parse_args [''-c'', ''10.0.0.1'', ''-t'', ''soon''] cli_init = Inl Terminate"
proof -
  have "stof ''soon'' = Inl Terminate" by code_simp
  then show ?thesis using bad_arguments [of "[Client ''10.0.0.1'']" "''-t''" "''soon''"] by (simp add: value_args_def)
qed

section \<open>Accepted configurations\<close>

text \<open>What \<open>check_config\<close> promises of a configuration it accepts.\<close>

definition client_ok :: "(string \<Rightarrow> bool) \<Rightarrow> TestConfig \<Rightarrow> bool" where
  "client_ok file_exists c \<longleftrightarrow> peer_host c \<noteq> '''' \<and> IsSupportedProtocol (protocol c)
     \<and> (role c = ROLE_FILE_SENDER \<longrightarrow> protocol c \<in> {1, 2} \<and> files c \<noteq> [] \<and> length (files c) \<le> 10
          \<and> (\<exists>f \<in> set (files c). file_exists f) \<and> 0 \<le> num_streams c \<and> num_streams c \<le> int (length (files c)))"

definition server_ok :: "ifaddr list option \<Rightarrow> string \<Rightarrow> TestConfig \<Rightarrow> bool" where
  "server_ok ifs name c \<longleftrightarrow> name \<noteq> '''' \<and> ReadIPAddress ifs name \<noteq> '''' \<and> IsSupportedProtocol (protocol c)
     \<and> files c = [] \<and> max_allowed_sending_rate c \<le> 0"

lemma stream_count_fits:
  assumes "n \<le> 10" and "is_int32 k"
  shows "\<not> word_of_nat n < (word_of_int k :: u64) \<longleftrightarrow> 0 \<le> k \<and> k \<le> int n"
proof -
  have n: "uint (word_of_nat n :: u64) = int n" using assms(1) by (simp add: uint_nat unat_of_nat)
  have k: "uint (word_of_int k :: u64) = k mod 2 ^ 64" by (simp add: uint_word_of_int)
  show ?thesis
  proof (cases "0 \<le> k")
    case True
    then have "k mod 2 ^ 64 = k" using assms(2) by (simp add: is_int32.simps)
    then show ?thesis using True n k by (simp add: word_less_def not_less)
  next
    case False
    have "k mod 2 ^ 64 = (k + 2 ^ 64) mod 2 ^ 64" by simp
    also have "\<dots> = k + 2 ^ 64" using False assms(2) by (intro mod_pos_pos_trivial) (auto simp: is_int32.simps)
    finally show ?thesis using False n k assms by (simp add: word_less_def is_int32.simps)
  qed
qed

lemma check_config_role:
  assumes "is_int32 (num_streams (cli_config a))"
  shows "fst (check_config ex ifs a) =
    (let r = requested_role a; c = (cli_config a)\<lparr>role := r\<rparr>
     in if isReceiverRole r \<and> server_ok ifs (cli_interface a) c \<or> isSenderRole r \<and> client_ok ex c then r else ROLE_NONE)"
proof -
  define r where "r = requested_role a"
  note fits = stream_count_fits [of "length (files (cli_config a))", OF _ assms(1)]
  consider "isReceiverRole r" "\<not> isSenderRole r" | "\<not> isReceiverRole r" "isSenderRole r" | "\<not> isReceiverRole r" "\<not> isSenderRole r"
    using roles_exclusive by blast
  then show ?thesis
  proof cases
    case 1
    then show ?thesis
      by (auto simp: check_config_def r_def [symmetric] ValidateServerConfig_def server_ok_def set_config_def Let_def)
  next
    case 2
    then show ?thesis
      using fits by (auto simp: check_config_def r_def [symmetric] ValidateClientConfig_def client_ok_def set_config_def Let_def)
  qed (simp add: check_config_def r_def [symmetric] Let_def)
qed

text \<open>
  C34. Only checked configurations get a role: \<open>InitFromArgs\<close> returns a receiver role exactly for a configuration with a bound
  interface that has an address, a supported protocol, no files and no rate limit, and a sender role exactly for one with a
  host and a supported protocol; a file sender in addition has a reliable BATS protocol, one to ten files of which one exists, and
  at most as many streams as files. Every other configuration gets no role.
\<close>

theorem roles_are_checked:
  assumes "is_int32 (num_streams (cli_config a))"
  shows "fst (check_config ex ifs a) =
    (let r = requested_role a; c = (cli_config a)\<lparr>role := r\<rparr>
     in if isReceiverRole r \<and> server_ok ifs (cli_interface a) c \<or> isSenderRole r \<and> client_ok ex c then r else ROLE_NONE)"
  using assms by (rule check_config_role)

theorem roles_are_checked_witness:
  "fst (check_config (\<lambda>f. f = ''a'') None (cli_init\<lparr>cli_role := ROLE_SENDER,
     cli_config := TestConfig_init\<lparr>peer_host := ''h'', protocol := 1, files := [''a'', ''b'']\<rparr>\<rparr>)) = ROLE_FILE_SENDER"
proof -
  let ?a = "cli_init\<lparr>cli_role := ROLE_SENDER, cli_config := TestConfig_init\<lparr>peer_host := ''h'', protocol := 1, files := [''a'', ''b'']\<rparr>\<rparr>"
  have "IsSupportedProtocol 1" by (simp add: IsSupportedProtocol_def)
  then show ?thesis
    using roles_are_checked [of ?a "\<lambda>f. f = ''a''" None]
    by (simp add: requested_role_def TestConfig_init_def is_int32.simps isSenderRole_def client_ok_def)
qed

end
