(* ===== verification/Iperf_Api.thy ===== *)
theory Iperf_Api
  imports Iperf_Test File_Transfer Command_Line
begin

text \<open>
  \<open>IperfBatsApi\<close> (\<open>iperf_bats_api.h\<close>, \<open>iperf_bats_api.cc\<close>) and \<open>main\<close> (\<open>iperf.cc\<close>): the table of the tests, the control
  channel of the server, the polling loops, the printer. A test of either kind is an \<open>any_test\<close>, and the calls
  through \<open>IIperfTest\<close> are functions on it. The table is an association list in the order of iteration;
  every loop over it treats each test by itself.

  Calls of the library are appended to \<open>a_calls\<close>, output to \<open>a_stdout\<close> and, if a log file is open, to \<open>a_log\<close>.
  What the printer calls of a test print is printed when the call that made them returns. The polling loops read the
  shared state again in every round: a round is given the events of the other threads during its sleep, and a loop that
  uses up the given rounds is \<open>Blocked\<close>.
\<close>

section \<open>Tests of either kind\<close>

datatype ('r, 'f, 'q) any_test = Gen "('r, 'f) IperfTest" | Ft "'q IperfFileTransfer"

record ('r, 'f, 'q) api_env =
  gen_env :: "('r, 'f) test_env"
  ft_env :: "'q file_env"
  build_stamp :: string
  create_directories :: "string \<Rightarrow> bool"
  can_append :: "string \<Rightarrow> bool"

record api_in =
  ctrl_input :: ctrl_in
  file_input :: file_in

fun any_Id :: "('r, 'f, 'q) any_test \<Rightarrow> u32 res" where
  "any_Id (Gen t) = Id t"
| "any_Id (Ft x) = Id x"

fun GetState :: "('r, 'f, 'q) any_test \<Rightarrow> TestState" where
  "GetState (Gen t) = t_state t"
| "GetState (Ft x) = t_state x"

fun GetConfig :: "('r, 'f, 'q) any_test \<Rightarrow> TestConfig" where
  "GetConfig (Gen t) = t_config t"
| "GetConfig (Ft x) = t_config x"

fun any_Start :: "('r, 'f, 'q) api_env \<Rightarrow> ('r, 'f, 'q) any_test \<Rightarrow> bool \<times> ('r, 'f, 'q) any_test" where
  "any_Start E (Gen t) = map_prod id Gen (StartTest (fs_exists (ft_env E)) t)"
| "any_Start E (Ft x) = map_prod id Ft (file_Start (ft_env E) x)"

fun any_Stop :: "('r, 'f, 'q) api_env \<Rightarrow> api_in \<Rightarrow> ('r, 'f, 'q) any_test \<Rightarrow> (bool \<times> ('r, 'f, 'q) any_test) res" where
  "any_Stop E i (Gen t) = rmap (map_prod id Gen) (StopTest (ci_clock (ctrl_input i)) t)"
| "any_Stop E i (Ft x) = rmap (map_prod id Ft) (file_Stop (ft_env E) (fi_join (file_input i)) x)"

fun any_CloseCtrlChannel :: "('r, 'f, 'q) any_test \<Rightarrow> ('r, 'f, 'q) any_test" where
  "any_CloseCtrlChannel (Gen t) = Gen (CloseCtrlChannel t)"
| "any_CloseCtrlChannel (Ft x) = Ft (CloseCtrlChannel x)"

fun any_HandleControlMessage ::
  "('r, 'f, 'q) api_env \<Rightarrow> api_in \<Rightarrow> conn \<Rightarrow> octet list \<Rightarrow> ('r, 'f, 'q) any_test \<Rightarrow> ('r, 'f, 'q) any_test res" where
  "any_HandleControlMessage E i cn b (Gen t) = rmap Gen (Iperf_Test.HandleControlMessage (gen_env E) (ctrl_input i) cn b t)"
| "any_HandleControlMessage E i cn b (Ft x) = rmap Ft (file_HandleControlMessage (ft_env E) (file_input i) cn b x)"

fun any_IsStreamReady :: "('r, 'f, 'q) any_test \<Rightarrow> bool \<times> ('r, 'f, 'q) any_test" where
  "any_IsStreamReady (Gen t) = map_prod id Gen (IsStreamReady t)"
| "any_IsStreamReady (Ft x) = (file_IsStreamReady x, Ft x)"

fun any_IsStreamDone :: "('r, 'f, 'q) any_test \<Rightarrow> bool \<times> ('r, 'f, 'q) any_test" where
  "any_IsStreamDone (Gen t) = (IsStreamDone t, Gen t)"
| "any_IsStreamDone (Ft x) = map_prod id Ft (file_IsStreamDone x)"

fun any_TestFinishState :: "clock \<Rightarrow> ('r, 'f, 'q) any_test \<Rightarrow> (bool \<times> ('r, 'f, 'q) any_test) res" where
  "any_TestFinishState ck (Gen t) = rmap (map_prod id Gen) (TestFinishState ck t)"
| "any_TestFinishState ck (Ft x) = Inr (map_prod id Ft (file_TestFinishState x))"

fun any_OnSentFinished :: "clock \<Rightarrow> ('r, 'f, 'q) any_test \<Rightarrow> ('r, 'f, 'q) any_test res" where
  "any_OnSentFinished ck (Gen t) = rmap Gen (OnSentFinished ck t)"
| "any_OnSentFinished ck (Ft x) = Inr (Ft x)"

fun any_PrintStreamSendSummary :: "('r, 'f, 'q) any_test \<Rightarrow> ('r, 'f, 'q) any_test" where
  "any_PrintStreamSendSummary (Gen t) = Gen (PrintStreamSendSummary t)"
| "any_PrintStreamSendSummary (Ft x) = Ft x"

fun any_TryPrintSummary :: "('r, 'f, 'q) any_test \<Rightarrow> ('r, 'f, 'q) any_test res" where
  "any_TryPrintSummary (Gen t) = rmap Gen (TryPrintSummary t)"
| "any_TryPrintSummary (Ft x) = Inr (Ft x)"

section \<open>State\<close>

datatype api_call =
    AListen string u16
  | ASetCallback conn "u32 option"
  | ASetLogLevel BATSLogLevel
  | ASetLogPath string

record ('r, 'f, 'q) IperfBatsApi =
  a_cli :: cli
  ver_info :: string
  log_open :: bool
  test_tbl :: "(u32 \<times> ('r, 'f, 'q) any_test) list"
  server_listen_port :: int
  stop_signal_value :: int
  is_ctrl_chn_connected :: bool
  a_stopped :: bool
  a_next_stream :: int
  a_calls :: "api_call list"
  a_stdout :: string
  a_log :: string

definition SIGINT :: int where "SIGINT = 2"
definition default_resolution :: int where "default_resolution = 10"

definition new_api :: "int \<Rightarrow> ('r, 'f, 'q) IperfBatsApi" where
  "new_api sid = \<lparr>a_cli = cli_init, ver_info = '''', log_open = False, test_tbl = [], server_listen_port = 0,
     stop_signal_value = 0, is_ctrl_chn_connected = False, a_stopped = False, a_next_stream = sid, a_calls = [],
     a_stdout = '''', a_log = ''''\<rparr>"

abbreviation a_role :: "('r, 'f, 'q) IperfBatsApi \<Rightarrow> TestRole" where
  "a_role a \<equiv> cli_role (a_cli a)"

definition a_emit :: "api_call \<Rightarrow> ('r, 'f, 'q) IperfBatsApi \<Rightarrow> ('r, 'f, 'q) IperfBatsApi" where
  "a_emit x a = a\<lparr>a_calls := a_calls a @ [x]\<rparr>"

section \<open>Printing\<close>

definition line :: "string \<Rightarrow> string" where
  "line s = s @ [CHR 0x0A]"

definition print_both :: "string \<Rightarrow> ('r, 'f, 'q) IperfBatsApi \<Rightarrow> ('r, 'f, 'q) IperfBatsApi" where
  "print_both txt a = a\<lparr>a_stdout := a_stdout a @ txt, a_log := (if log_open a then a_log a @ txt else a_log a)\<rparr>"

definition InitVer :: "('r, 'f, 'q) api_env \<Rightarrow> string \<Rightarrow> string" where
  "InitVer E ver =
     (if ver = ''''
      then line ''* Linux/Unix platform'' @ ''BATS Iperf version: v1.0(2a67e3d)  Build date: '' @ build_stamp E
           @ '' Compiler: '' @ ''gcc11 '' @ line ''Release ''
      else ver)"

definition with_ver :: "('r, 'f, 'q) api_env \<Rightarrow> string \<Rightarrow> ('r, 'f, 'q) IperfBatsApi \<Rightarrow> ('r, 'f, 'q) IperfBatsApi" where
  "with_ver E txt a = (let a = a\<lparr>ver_info := InitVer E (ver_info a)\<rparr> in print_both (ver_info a @ txt) a)"

definition dashes :: string where
  "dashes = line (replicate 59 (CHR ''-''))"

definition recv_report_bw_udp_header :: string where
  "recv_report_bw_udp_header = line ''[ ID] Interval           Received     Bitrate         Jitter    Lost/Total Datagrams''"

definition send_report_bw_udp_header :: string where
  "send_report_bw_udp_header = line ''[ ID] Interval           Transfer     Bitrate         Jitter    Lost/Total Datagrams''"

definition PrintRecvSummaryHeader :: "('r, 'f, 'q) IperfBatsApi \<Rightarrow> ('r, 'f, 'q) IperfBatsApi" where
  "PrintRecvSummaryHeader = print_both recv_report_bw_udp_header"

definition PrintSentSummaryHeader :: "('r, 'f, 'q) IperfBatsApi \<Rightarrow> ('r, 'f, 'q) IperfBatsApi" where
  "PrintSentSummaryHeader = print_both send_report_bw_udp_header"

definition PrintReceiverInfo :: "('r, 'f, 'q) api_env \<Rightarrow> ('r, 'f, 'q) IperfBatsApi \<Rightarrow> ('r, 'f, 'q) IperfBatsApi" where
  "PrintReceiverInfo E a =
     with_ver E (dashes @ line (''Server listening on '' @ show_int (server_listen_port a) @ '' (signaling channel)'') @ dashes) a"

definition PrintReceiverFailure :: "('r, 'f, 'q) api_env \<Rightarrow> ('r, 'f, 'q) IperfBatsApi \<Rightarrow> ('r, 'f, 'q) IperfBatsApi" where
  "PrintReceiverFailure E a =
     with_ver E (line (''Server failed to listen on '' @ show_int (server_listen_port a) @ '' (signaling channel)'')) a"

text \<open>The two texts of the sender name the host of the first test of the table.\<close>

definition PrintSenderInfo :: "('r, 'f, 'q) api_env \<Rightarrow> ('r, 'f, 'q) IperfBatsApi \<Rightarrow> ('r, 'f, 'q) IperfBatsApi res" where
  "PrintSenderInfo E a =
     (case test_tbl a of
        [] \<Rightarrow> Inl NullDeref
      | (k, t) # _ \<Rightarrow>
        Inr (with_ver E (dashes @ line (''Connecting to host '' @ peer_host (GetConfig t) @ '', port '' @
               show_int (port (GetConfig t) - 1)) @ dashes) a))"

definition PrintSenderFailure :: "('r, 'f, 'q) api_env \<Rightarrow> ('r, 'f, 'q) IperfBatsApi \<Rightarrow> ('r, 'f, 'q) IperfBatsApi res" where
  "PrintSenderFailure E a =
     (case test_tbl a of
        [] \<Rightarrow> Inl NullDeref
      | (k, t) # _ \<Rightarrow>
        Inr (with_ver E (line (''Client failed to connect to host '' @ peer_host (GetConfig t) @ '', port '' @
               show_int (port (GetConfig t) - 1))) a))"

text \<open>The printer calls among what a test has emitted, from position \<open>n\<close> on.\<close>

fun printed :: "('r, 'f, 'q) any_test \<Rightarrow> nat" where
  "printed (Gen t) = length (t_out t)"
| "printed (Ft x) = length (x_out x)"

fun print_out :: "('r, 'f, 'q) api_env \<Rightarrow> test_out \<Rightarrow> ('r, 'f, 'q) IperfBatsApi \<Rightarrow> ('r, 'f, 'q) IperfBatsApi res" where
  "print_out E SentSummaryHeader a = Inr (PrintSentSummaryHeader a)"
| "print_out E RecvSummaryHeader a = Inr (PrintRecvSummaryHeader a)"
| "print_out E SenderInfo a = PrintSenderInfo E a"
| "print_out E SenderFailure a = PrintSenderFailure E a"
| "print_out E _ a = Inr a"

fun print_file_out :: "('r, 'f, 'q) api_env \<Rightarrow> file_out \<Rightarrow> ('r, 'f, 'q) IperfBatsApi \<Rightarrow> ('r, 'f, 'q) IperfBatsApi res" where
  "print_file_out E FSenderFailure a = PrintSenderFailure E a"
| "print_file_out E _ a = Inr a"

fun print_new :: "('r, 'f, 'q) api_env \<Rightarrow> nat \<Rightarrow> ('r, 'f, 'q) any_test \<Rightarrow> ('r, 'f, 'q) IperfBatsApi \<Rightarrow> ('r, 'f, 'q) IperfBatsApi res" where
  "print_new E n (Gen t) a = rfold (print_out E) (drop n (t_out t)) a"
| "print_new E n (Ft x) a = rfold (print_file_out E) (drop n (x_out x)) a"

definition usage_text :: string where
  "usage_text = concat (map line
     [''Usage: bats_iperf [options]'',
      ''Options:'',
      ''  -t <time>        : Test duration in seconds (default: 10)'',
      ''  -i <interval>    : Interval for reporting results in seconds (default: 1)'',
      ''  -I <interface>   : The name of the interface'',
      ''  -P <num_streams> : Number of parallel streams (default: 1)'',
      ''  -r               : Enable reverse mode (server to client)'',
      ''  -p <port>        : Port number to use for the data channel (default: 5201); and '',
      ''                     The port of signaling channel is set to `port - 1`.'',
      ''  -m <mode>        : Protocol mode (0: BTP, 1: BRTP, 2: BRCTP, 3: TRANSPARENT, default: BTP)'',
      ''                     When run as server, this option is ignored.'',
      ''  -s               : Run as server'',
      ''  -c <host>        : Run as client and connect to <host>'',
      ''  -f <file>        : Run as client to send the file'',
      ''  -l <logfile>     : Log file to write iperf output (default: stdout)'',
      ''  -L <logfile path>: Log path to write bats protocol log (default: )'',
      ''  -b               : Max allowed sending rate in Mbps, only valid for clients'',
      ''  -h               : Show this help message'',
      ''  -d               : Emit debugging output'',
      ''  -T               : Show precise time wall clock in the reports'',
      ''  -C               : Enable the data compression''])"

definition Usage :: "('r, 'f, 'q) api_env \<Rightarrow> ('r, 'f, 'q) IperfBatsApi \<Rightarrow> ('r, 'f, 'q) IperfBatsApi" where
  "Usage E a = (let a = a\<lparr>ver_info := InitVer E (ver_info a)\<rparr> in a\<lparr>a_stdout := a_stdout a @ ver_info a @ usage_text\<rparr>)"

section \<open>The table of tests\<close>

definition tbl_insert :: "u32 \<Rightarrow> 't \<Rightarrow> (u32 \<times> 't) list \<Rightarrow> (u32 \<times> 't) list" where
  "tbl_insert k t tbl = (if map_of tbl k = None then tbl @ [(k, t)] else tbl)"

definition tbl_update :: "u32 \<Rightarrow> 't \<Rightarrow> (u32 \<times> 't) list \<Rightarrow> (u32 \<times> 't) list" where
  "tbl_update k t tbl = map (\<lambda>(k', t'). (k', if k' = k then t else t')) tbl"

definition tbl_erase :: "u32 \<Rightarrow> (u32 \<times> 't) list \<Rightarrow> (u32 \<times> 't) list" where
  "tbl_erase k tbl = filter (\<lambda>(k', t). k' \<noteq> k) tbl"

text \<open>The static counter of stream ids goes into a test with a call and comes back with its result.\<close>

fun with_sid :: "int \<Rightarrow> ('r, 'f, 'q) any_test \<Rightarrow> ('r, 'f, 'q) any_test" where
  "with_sid n (Gen t) = Gen (t\<lparr>g_stream_id := n\<rparr>)"
| "with_sid n (Ft x) = Ft x"

fun sid_after :: "int \<Rightarrow> ('r, 'f, 'q) any_test \<Rightarrow> int" where
  "sid_after n (Gen t) = g_stream_id t"
| "sid_after n (Ft x) = n"

text \<open>A call of a test of the table: \<open>f\<close> may change the test, and what it prints is printed.\<close>

definition call_test ::
  "('r, 'f, 'q) api_env \<Rightarrow> u32 \<Rightarrow> (('r, 'f, 'q) any_test \<Rightarrow> ('x \<times> ('r, 'f, 'q) any_test) res)
     \<Rightarrow> ('r, 'f, 'q) IperfBatsApi \<Rightarrow> ('x \<times> ('r, 'f, 'q) IperfBatsApi) res" where
  "call_test E k f a =
     (case map_of (test_tbl a) k of
        None \<Rightarrow> Inl NullDeref
      | Some t \<Rightarrow>
        rbind (f (with_sid (a_next_stream a) t)) (\<lambda>(x, t').
        rbind (print_new E (printed t) t' a) (\<lambda>a.
        Inr (x, a\<lparr>test_tbl := tbl_update k t' (test_tbl a), a_next_stream := sid_after (a_next_stream a) t'\<rparr>))))"

definition do_test ::
  "('r, 'f, 'q) api_env \<Rightarrow> u32 \<Rightarrow> (('r, 'f, 'q) any_test \<Rightarrow> ('r, 'f, 'q) any_test res)
     \<Rightarrow> ('r, 'f, 'q) IperfBatsApi \<Rightarrow> ('r, 'f, 'q) IperfBatsApi res" where
  "do_test E k f a = rmap snd (call_test E k (\<lambda>t. rmap (Pair ()) (f t)) a)"

section \<open>Initialisation\<close>

fun set_up :: "string \<Rightarrow> ('r, 'f, 'q) any_test \<Rightarrow> ('r, 'f, 'q) any_test" where
  "set_up name (Gen t) = Gen (SetResolution default_resolution (SetBoundInf name (SetPrinter True t)))"
| "set_up name (Ft x) = Ft (SetResolution default_resolution (SetBoundInf name (SetPrinter True x)))"

definition open_log :: "('r, 'f, 'q) api_env \<Rightarrow> ('r, 'f, 'q) IperfBatsApi \<Rightarrow> ('r, 'f, 'q) IperfBatsApi res" where
  "open_log E a =
     (let file = cli_log_file (a_cli a); dir = parent_path file in
      if file = '''' then Inr a
      else if fs_exists (ft_env E) dir \<or> create_directories E dir then Inr (a\<lparr>log_open := can_append E file\<rparr>)
      else Inl Terminate)"

definition show_usage :: "('r, 'f, 'q) api_env \<Rightarrow> cli \<Rightarrow> ('r, 'f, 'q) IperfBatsApi \<Rightarrow> ('r, 'f, 'q) IperfBatsApi" where
  "show_usage E c a = (let a = a\<lparr>a_cli := c\<lparr>usage_shown := False\<rparr>\<rparr> in if usage_shown c then Usage E a else a)"

definition add_sender_test ::
  "('r, 'f, 'q) api_env \<Rightarrow> clock \<Rightarrow> TestRole \<Rightarrow> ('r, 'f, 'q) IperfBatsApi \<Rightarrow> ('r, 'f, 'q) IperfBatsApi res" where
  "add_sender_test E ck r a =
     (let c = cli_config (a_cli a);
          t = set_up (cli_interface (a_cli a))
                (if r = ROLE_SENDER then Gen (new_test ck c (a_next_stream a)) else Ft (new_transfer (ft_env E) (mono_ms ck) c)) in
      rbind (any_Id t) (\<lambda>k. Inr (a\<lparr>test_tbl := tbl_insert k t (test_tbl a)\<rparr>)))"

text \<open>After the argument loop: log files, the checks of the configuration, the test of a sender.\<close>

definition set_logs :: "('r, 'f, 'q) IperfBatsApi \<Rightarrow> ('r, 'f, 'q) IperfBatsApi" where
  "set_logs a =
     (let c = a_cli a; a = a_emit (ASetLogLevel (if is_debug_mode (cli_config c) then LOG_INFO else LOG_ERROR)) a
      in if cli_bats_log_path c = '''' then a else a_emit (ASetLogPath (cli_bats_log_path c)) a)"

definition set_role ::
  "('r, 'f, 'q) api_env \<Rightarrow> clock \<Rightarrow> ifaddr list option \<Rightarrow> ('r, 'f, 'q) IperfBatsApi \<Rightarrow> (TestRole \<times> ('r, 'f, 'q) IperfBatsApi) res" where
  "set_role E ck ifs a =
     (let (r, c) = check_config (fs_exists (ft_env E)) ifs (a_cli a); a = show_usage E c a in
      if isReceiverRole r then Inr (r, a\<lparr>server_listen_port := port (cli_config c) - 1\<rparr>)
      else if isSenderRole r then rmap (Pair r) (add_sender_test E ck r a)
      else Inr (ROLE_NONE, a))"

definition InitFromArgs ::
  "('r, 'f, 'q) api_env \<Rightarrow> clock \<Rightarrow> ifaddr list option \<Rightarrow> string list \<Rightarrow> ('r, 'f, 'q) IperfBatsApi
     \<Rightarrow> (TestRole \<times> ('r, 'f, 'q) IperfBatsApi) res" where
  "InitFromArgs E ck ifs args a =
     (if args = [] then Inr (ROLE_NONE, Usage E a)
      else
        rbind (parse_args args (a_cli a)) (\<lambda>(early, c).
        (let a = show_usage E c a in
         case early of
           Some r \<Rightarrow> Inr (r, a)
         | None \<Rightarrow> rbind (open_log E (set_logs a)) (set_role E ck ifs))))"

section \<open>The control channel of the server\<close>

definition api_ControlChannelListenCallback ::
  "('r, 'f, 'q) api_env \<Rightarrow> conn \<Rightarrow> BatsListenEvent \<Rightarrow> ('r, 'f, 'q) IperfBatsApi \<Rightarrow> ('r, 'f, 'q) IperfBatsApi" where
  "api_ControlChannelListenCallback E cn event a =
     (case event of
        BATS_LISTEN_NEW_CONNECTION \<Rightarrow> a_emit (ASetCallback cn None) (a\<lparr>is_ctrl_chn_connected := True\<rparr>)
      | BATS_LISTEN_FAILED \<Rightarrow> PrintReceiverFailure E a
      | BATS_LISTEN_SUCCESS \<Rightarrow> PrintReceiverInfo E a
      | _ \<Rightarrow> a)"

text \<open>The test that a message asks for; other messages leave \<open>received_test\<close> null.\<close>

definition received_test ::
  "('r, 'f, 'q) api_env \<Rightarrow> iperf_control_data \<Rightarrow> ('r, 'f, 'q) IperfBatsApi \<Rightarrow> ('r, 'f, 'q) any_test option" where
  "received_test E h a =
     (let c = cli_config (a_cli a); ident = ucast (ctl_test_id h) :: u64 in
      if ctl_action_code h = 0x01 then Some (Ft (new_transfer_id (ft_env E) ident c))
      else if ctl_action_code h = 0x02 then Some (Gen (new_test_id ident c (a_next_stream a)))
      else None)"

fun set_receiver :: "('r, 'f, 'q) any_test \<Rightarrow> ('r, 'f, 'q) any_test" where
  "set_receiver (Gen t) = Gen (SetRole ROLE_RECEIVER t)"
| "set_receiver (Ft x) = Ft (SetRole ROLE_RECEIVER x)"

definition api_HandleControlMessage ::
  "('r, 'f, 'q) api_env \<Rightarrow> api_in \<Rightarrow> conn \<Rightarrow> octet list \<Rightarrow> ('r, 'f, 'q) IperfBatsApi \<Rightarrow> ('r, 'f, 'q) IperfBatsApi res" where
  "api_HandleControlMessage E i cn b a =
     rbind (read_control b) (\<lambda>h.
     (case map_of (test_tbl a) (ctl_test_id h) of
        Some t \<Rightarrow> do_test E (ctl_test_id h) (any_HandleControlMessage E i cn b) a
      | None \<Rightarrow>
        (case received_test E h a of
           None \<Rightarrow> Inl NullDeref
         | Some t \<Rightarrow>
           rbind (any_HandleControlMessage E i cn b (set_up (cli_interface (a_cli a)) (set_receiver t))) (\<lambda>t'.
           rbind (print_new E (printed t) t' a) (\<lambda>a.
           rbind (any_Id t') (\<lambda>k.
           Inr (a_emit (ASetCallback cn (Some k))
             (a\<lparr>test_tbl := tbl_insert k t' (test_tbl a), a_next_stream := sid_after (a_next_stream a) t'\<rparr>))))))))"

definition api_ControlChannelConnectionCallback ::
  "('r, 'f, 'q) api_env \<Rightarrow> api_in \<Rightarrow> conn \<Rightarrow> BatsConnEvent \<Rightarrow> octet list \<Rightarrow> u32 option \<Rightarrow> ('r, 'f, 'q) IperfBatsApi
     \<Rightarrow> ('r, 'f, 'q) IperfBatsApi res" where
  "api_ControlChannelConnectionCallback E i cn event b user a =
     (if event = BATS_CONNECTION_FAILED \<or> event = BATS_CONNECTION_CLOSED \<or> event = BATS_CONNECTION_SHUTDOWN_BY_PEER
      then
        rbind (case user of
                 None \<Rightarrow> Inr a
               | Some k \<Rightarrow> if map_of (test_tbl a) k = None then Inr a
                          else do_test E k (\<lambda>t. rmap snd (any_Stop E i (any_CloseCtrlChannel t))) a) (\<lambda>a.
        Inr (a\<lparr>is_ctrl_chn_connected := False\<rparr>))
      else if event = BATS_CONNECTION_ESTABLISHED then Inr (a\<lparr>is_ctrl_chn_connected := True\<rparr>)
      else if event = BATS_CONNECTION_DATA_RECEIVED then api_HandleControlMessage E i cn b a
      else Inr a)"

section \<open>StopAll\<close>

definition StopAll ::
  "('r, 'f, 'q) api_env \<Rightarrow> (u32 \<Rightarrow> api_in) \<Rightarrow> ('r, 'f, 'q) IperfBatsApi \<Rightarrow> ('r, 'f, 'q) IperfBatsApi res" where
  "StopAll E ins a =
     (if a_stopped a then Inr a
      else rfold (\<lambda>k. do_test E k (\<lambda>t. rmap snd (any_Stop E (ins k) t))) (map fst (test_tbl a))
             (a\<lparr>a_stopped := True, stop_signal_value := SIGINT\<rparr>))"

section \<open>What other threads do\<close>

text \<open>Callbacks of the control channel, of the tests and of their streams, and the signal handler.\<close>

datatype api_event =
    ApListen conn BatsListenEvent
  | ApControl api_in conn BatsConnEvent "octet list" "u32 option"
  | ApTest u32 test_event
  | ApFile u32 file_event
  | ApSignal int "u32 \<Rightarrow> api_in"

fun any_step :: "('r, 'f, 'q) api_env \<Rightarrow> test_event + file_event \<Rightarrow> ('r, 'f, 'q) any_test \<Rightarrow> ('r, 'f, 'q) any_test res" where
  "any_step E (Inl e) (Gen t) = rmap Gen (test_step (gen_env E) t e)"
| "any_step E (Inr e) (Ft x) = rmap Ft (file_step (ft_env E) x e)"
| "any_step E _ t = Inr t"

fun api_step :: "('r, 'f, 'q) api_env \<Rightarrow> ('r, 'f, 'q) IperfBatsApi \<Rightarrow> api_event \<Rightarrow> ('r, 'f, 'q) IperfBatsApi res" where
  "api_step E a (ApListen cn ev) = Inr (api_ControlChannelListenCallback E cn ev a)"
| "api_step E a (ApControl i cn ev b user) = api_ControlChannelConnectionCallback E i cn ev b user a"
| "api_step E a (ApTest k e) = (if map_of (test_tbl a) k = None then Inr a else do_test E k (any_step E (Inl e)) a)"
| "api_step E a (ApFile k e) = (if map_of (test_tbl a) k = None then Inr a else do_test E k (any_step E (Inr e)) a)"
| "api_step E a (ApSignal sig ins) = StopAll E ins (a\<lparr>stop_signal_value := sig\<rparr>)"

section \<open>The loop of the receiver\<close>

text \<open>
  A test that is done leaves the table for \<open>dying_tests\<close>. The arguments of the trace message of the other branch are
  evaluated: \<open>IsStreamDone\<close> is called once more.
\<close>

definition poll_test ::
  "('r, 'f, 'q) api_env \<Rightarrow> clock \<Rightarrow> u32 \<Rightarrow> ('r, 'f, 'q) IperfBatsApi \<times> (('r, 'f, 'q) any_test \<times> nat) list
     \<Rightarrow> (('r, 'f, 'q) IperfBatsApi \<times> (('r, 'f, 'q) any_test \<times> nat) list) res" where
  "poll_test E ck k ad =
     (case ad of (a, dying) \<Rightarrow>
      rbind (call_test E k (any_TestFinishState ck) a) (\<lambda>(_, a).
      rbind (call_test E k (\<lambda>t. Inr (if GetState t = TEST_DONE then any_IsStreamDone t else (False, t))) a) (\<lambda>(finished, a).
      rbind (call_test E k (\<lambda>t. rmap (\<lambda>n. (n, t)) (any_Id t)) a) (\<lambda>(_, a).
      if finished
      then rbind (do_test E k any_TryPrintSummary a) (\<lambda>a.
           Inr (a\<lparr>test_tbl := tbl_erase k (test_tbl a)\<rparr>, dying @ [(the (map_of (test_tbl a) k), 0)]))
      else rbind (do_test E k (\<lambda>t. Inr (snd (any_IsStreamDone t))) a) (\<lambda>a. Inr (a, dying))))))"

definition reap :: "bool \<Rightarrow> ('t \<times> nat) list \<Rightarrow> ('t \<times> nat) list" where
  "reap chn dying = map (\<lambda>(t, cnt). (t, cnt + 1)) (filter (\<lambda>(t, cnt). chn \<and> cnt \<le> 10) dying)"

definition receiver_round ::
  "('r, 'f, 'q) api_env \<Rightarrow> clock \<Rightarrow> ('r, 'f, 'q) IperfBatsApi \<times> (('r, 'f, 'q) any_test \<times> nat) list
     \<Rightarrow> (('r, 'f, 'q) IperfBatsApi \<times> (('r, 'f, 'q) any_test \<times> nat) list) res" where
  "receiver_round E ck ad =
     rbind (rfold (poll_test E ck) (map fst (test_tbl (fst ad))) ad) (\<lambda>(a, dying).
     Inr (a, reap (is_ctrl_chn_connected a) dying))"

fun receiver_loop ::
  "('r, 'f, 'q) api_env \<Rightarrow> (u32 \<Rightarrow> api_in) \<Rightarrow> (api_event list \<times> clock) list
     \<Rightarrow> ('r, 'f, 'q) IperfBatsApi \<times> (('r, 'f, 'q) any_test \<times> nat) list \<Rightarrow> ('r, 'f, 'q) IperfBatsApi res" where
  "receiver_loop E ins [] ad = (if stop_signal_value (fst ad) = SIGINT then StopAll E ins (fst ad) else Inl Blocked)"
| "receiver_loop E ins ((evs, ck) # rounds) ad =
     (if stop_signal_value (fst ad) = SIGINT then StopAll E ins (fst ad)
      else
        rbind (run_events (api_step E) evs (fst ad)) (\<lambda>a.
        rbind (receiver_round E ck (a, snd ad)) (receiver_loop E ins rounds)))"

definition RunServer ::
  "('r, 'f, 'q) api_env \<Rightarrow> ifaddr list option \<Rightarrow> (u32 \<Rightarrow> api_in) \<Rightarrow> (api_event list \<times> clock) list
     \<Rightarrow> ('r, 'f, 'q) IperfBatsApi \<Rightarrow> ('r, 'f, 'q) IperfBatsApi res" where
  "RunServer E ifs ins rounds a =
     (if \<not> isReceiverRole (a_role a) then Inr a
      else
        receiver_loop E ins rounds
          (a_emit (AListen (ReadIPAddress ifs (cli_interface (a_cli a))) (word_of_int (server_listen_port a))) a, []))"

section \<open>The loops of the sender\<close>

definition max_timeout_cnt :: nat where "max_timeout_cnt = 10000"

text \<open>The wait for the streams; \<open>False\<close>: given up.\<close>

fun wait_ready ::
  "('r, 'f, 'q) api_env \<Rightarrow> u32 \<Rightarrow> nat \<Rightarrow> api_event list list \<Rightarrow> ('r, 'f, 'q) IperfBatsApi
     \<Rightarrow> (bool \<times> ('r, 'f, 'q) IperfBatsApi) res" where
  "wait_ready E k n rounds a =
     rbind (call_test E k (\<lambda>t. Inr (any_IsStreamReady t)) a) (\<lambda>(ready, a).
     if ready \<or> stop_signal_value a = SIGINT then Inr (True, a)
     else case rounds of
            [] \<Rightarrow> Inl Blocked
          | evs # rounds \<Rightarrow>
            rbind (run_events (api_step E) evs a) (\<lambda>a.
            if max_timeout_cnt < n + 1 then Inr (False, a) else wait_ready E k (n + 1) rounds a))"

declare wait_ready.simps [simp del]

fun sender_loop ::
  "('r, 'f, 'q) api_env \<Rightarrow> u32 \<Rightarrow> (api_event list \<times> clock) list \<Rightarrow> ('r, 'f, 'q) IperfBatsApi \<Rightarrow> ('r, 'f, 'q) IperfBatsApi res" where
  "sender_loop E k [] a = (if stop_signal_value a = SIGINT then Inr a else Inl Blocked)"
| "sender_loop E k ((evs, ck) # rounds) a =
     (if stop_signal_value a = SIGINT then Inr a
      else
        rbind (run_events (api_step E) evs a) (\<lambda>a.
        rbind (call_test E k (any_TestFinishState ck) a) (\<lambda>(finished, a).
        if finished then do_test E k (any_OnSentFinished ck) a else sender_loop E k rounds a)))"

definition sender_done :: "('r, 'f, 'q) any_test \<Rightarrow> bool \<times> ('r, 'f, 'q) any_test" where
  "sender_done t = (if GetState t = TEST_DONE then any_IsStreamDone t else (False, t))"

text \<open>The wait for the reports with \<open>n\<close> rounds left; the result is what is left of them.\<close>

fun wait_done ::
  "('r, 'f, 'q) api_env \<Rightarrow> u32 \<Rightarrow> nat \<Rightarrow> api_event list list \<Rightarrow> ('r, 'f, 'q) IperfBatsApi
     \<Rightarrow> (nat \<times> ('r, 'f, 'q) IperfBatsApi) res" where
  "wait_done E k 0 rounds a = Inr (0, a)"
| "wait_done E k (Suc n) rounds a =
     (if stop_signal_value a = SIGINT then Inr (Suc n, a)
      else
        rbind (call_test E k (\<lambda>t. Inr (sender_done t)) a) (\<lambda>(finished, a).
        if finished then Inr (Suc n, a)
        else
          rbind (do_test E k (\<lambda>t. Inr (snd (any_IsStreamDone t))) a) (\<lambda>a.
          case rounds of
            [] \<Rightarrow> Inl Blocked
          | evs # rounds \<Rightarrow> rbind (run_events (api_step E) evs a) (wait_done E k n rounds))))"

record run_in =
  ready_rounds :: "api_event list list"
  poll_rounds :: "(api_event list \<times> clock) list"
  done_rounds :: "api_event list list"
  stop_ins :: "u32 \<Rightarrow> api_in"

definition EnterSenderIntervalLoop ::
  "('r, 'f, 'q) api_env \<Rightarrow> run_in \<Rightarrow> u32 \<Rightarrow> ('r, 'f, 'q) IperfBatsApi \<Rightarrow> ('r, 'f, 'q) IperfBatsApi res" where
  "EnterSenderIntervalLoop E ri k a =
     rbind (sender_loop E k (poll_rounds ri) a) (\<lambda>a.
     rbind (wait_done E k 15 (done_rounds ri) a) (\<lambda>(n, a).
     rbind (if n = 0 then call_test E k (\<lambda>t. Inr (any_IsStreamDone t)) a else Inr (True, a)) (\<lambda>(finished, a).
     rbind (call_test E k (\<lambda>t. rmap (\<lambda>n. (n, t)) (any_Id t)) a) (\<lambda>(_, a).
     rbind (if finished then Inr a else do_test E k (\<lambda>t. Inr (any_PrintStreamSendSummary t)) a) (\<lambda>a.
     StopAll E (stop_ins ri) a)))))"

definition RunTest ::
  "('r, 'f, 'q) api_env \<Rightarrow> run_in \<Rightarrow> ('r, 'f, 'q) IperfBatsApi \<Rightarrow> ('r, 'f, 'q) IperfBatsApi res" where
  "RunTest E ri a =
     (if \<not> isSenderRole (a_role a) then Inr a
      else case test_tbl a of
        [(k, t)] \<Rightarrow>
          rbind (call_test E k (\<lambda>t. Inr (any_Start E t)) a) (\<lambda>(_, a).
          rbind (wait_ready E k 0 (ready_rounds ri) a) (\<lambda>(ready, a).
          if ready then EnterSenderIntervalLoop E ri k a else Inr a))
      | _ \<Rightarrow> Inr a)"

section \<open>main\<close>

definition main ::
  "('r, 'f, 'q) api_env \<Rightarrow> clock \<Rightarrow> ifaddr list option \<Rightarrow> run_in \<Rightarrow> string list \<Rightarrow> ('r, 'f, 'q) IperfBatsApi res" where
  "main E ck ifs ri args =
     rbind (InitFromArgs E ck ifs args (new_api 1)) (\<lambda>(r, a).
     if isSenderRole r then RunTest E ri a
     else if isReceiverRole r then RunServer E ifs (stop_ins ri) (poll_rounds ri) a
     else Inr a)"

end
