(* ===== verification/Api_Ids.thy ===== *)
theory Api_Ids
  imports Iperf_Api Test_Messages File_Stop
begin

text \<open>
  The id of a test never changes: every operation of \<open>IperfTest\<close> and \<open>IperfFileTransfer\<close> keeps it.
\<close>

section \<open>Throughput tests\<close>

lemma CloseCtrlChannel_id [simp]: "test_id (CloseCtrlChannel t) = test_id t"
  by (simp add: CloseCtrlChannel_def)

lemma SetRole_id [simp]: "test_id (SetRole r t) = test_id t" "test_id (SetResolution n t) = test_id t"
  "test_id (SetBoundInf v t) = test_id t" "test_id (SetPrinter p t) = test_id t"
  by (simp_all add: SetRole_def SetResolution_def SetBoundInf_def SetPrinter_def)

lemma sending_id:
  "SendTestReady t = Inr u \<Longrightarrow> test_id u = test_id t"
  "SendAck t = Inr u \<Longrightarrow> test_id u = test_id t"
  "SendTestSummary t = Inr u \<Longrightarrow> test_id u = test_id t"
  "SendTestParameters t = Inr u \<Longrightarrow> test_id u = test_id t"
  by (auto simp: SendTestReady_def SendAck_def SendTestSummary_def SendTestParameters_def send_ctrl_def rbind_eq_Inr
      split: if_splits option.splits)

lemma TryPrintSummary_id: "TryPrintSummary t = Inr u \<Longrightarrow> test_id u = test_id t"
  by (auto simp: TryPrintSummary_def rbind_eq_Inr split: if_splits)

lemma StopTest_id: "StopTest ck t = Inr (r, u) \<Longrightarrow> test_id u = test_id t"
  by (auto simp: StopTest_def rbind_eq_Inr split: if_splits dest!: TryPrintSummary_id)

lemma tick_id: "tick t = Inr (due, u) \<Longrightarrow> test_id u = test_id t"
  by (auto simp: tick_def rbind_eq_Inr Let_def split: if_splits)

lemma TestFinishState_id: "TestFinishState ck t = Inr (r, u) \<Longrightarrow> test_id u = test_id t"
  unfolding TestFinishState_def CheckStreamIntervalReceive_def
  by (auto simp: rbind_eq_Inr rmap_eq_Inr Let_def split: if_splits dest: tick_id)

lemma open_streams_id: "rfold (\<lambda>i. open_stream E (cks i)) ns t = Inr u \<Longrightarrow> test_id u = test_id t"
  by (erule rfold_invariant [where P = "\<lambda>u. test_id u = test_id t"]) (auto simp: open_stream_def rbind_eq_Inr Let_def)

lemma HandleControlMessage_id: "Iperf_Test.HandleControlMessage E ci cn b t = Inr u \<Longrightarrow> test_id u = test_id t"
  unfolding Iperf_Test.HandleControlMessage_def HandleAckMessage_def HandleSummaryMessage_def HandleTestParameters_def
    HandleReadyMessage_def
  by (auto simp: rbind_eq_Inr Let_def split: if_splits dest!: sending_id TryPrintSummary_id open_streams_id)

lemma DataListenCallback_id: "DataListenCallback E cn ideal ev t = Inr u \<Longrightarrow> test_id u = test_id t"
  by (auto simp: DataListenCallback_def rbind_eq_Inr Let_def split: BatsListenEvent.splits option.splits if_splits dest!: sending_id)

lemma OnSentFinished_id: "OnSentFinished ck t = Inr u \<Longrightarrow> test_id u = test_id t"
  by (auto simp: OnSentFinished_def rbind_eq_Inr split: if_splits dest!: sending_id)

lemma test_step_id: "test_step E t e = Inr u \<Longrightarrow> test_id u = test_id t"
proof (cases e)
  case (TeControl ci cn ev d)
  then show "test_step E t e = Inr u \<Longrightarrow> test_id u = test_id t"
    by (cases ev) (auto simp: ControlChannelConnectionCallback_def rbind_eq_Inr rmap_eq_Inr
        dest!: sending_id StopTest_id HandleControlMessage_id)
qed (auto simp: rbind_eq_Inr rmap_eq_Inr StartTest_def IsStreamReady_def PrintStreamSendSummary_def Let_def split: if_splits
    dest: StopTest_id HandleControlMessage_id DataListenCallback_id TestFinishState_id OnSentFinished_id TryPrintSummary_id)

section \<open>File transfers\<close>

lemma goto_id [simp]: "test_id (goto i pc T) = test_id T" "test_id (upd_loc i f T) = test_id T"
  by (simp_all add: goto_def upd_loc_def)

lemma count_file_bytes_id [simp]: "test_id (count_file_bytes i T) = test_id T"
  by (simp add: count_file_bytes_def Let_def)

lemma fetch_file_id [simp]: "test_id (fetch_file E i T) = test_id T"
  by (simp add: fetch_file_def Let_def split: option.splits prod.splits)

lemma send_block_id: "send_block ok i T = Inr U \<Longrightarrow> test_id U = test_id T"
  by (auto simp: send_block_def Let_def split: if_splits)

lemma next_block_id: "next_block E ob i T = Inr U \<Longrightarrow> test_id U = test_id T"
  by (auto simp: next_block_def rbind_eq_Inr Let_def split: if_splits prod.splits dest!: send_block_id)

lemma file_thread_step_id: "file_thread_step E ob i pc T = Inr U \<Longrightarrow> test_id U = test_id T"
  by (cases pc) (auto simp: Let_def split: if_splits dest: next_block_id send_block_id)

lemma join_thread_id: "join_thread E i obs T = Inr U \<Longrightarrow> test_id U = test_id T"
  by (induction obs arbitrary: T) (auto simp: rbind_eq_Inr split: if_splits dest!: file_thread_step_id)

lemma file_Stop_id:
  assumes "file_Stop E obs T = Inr (r, U)"
  shows "test_id U = test_id T"
proof -
  have "rfold (stop_stream E obs) ns V = Inr W \<Longrightarrow> test_id W = test_id V" for ns V W
    by (erule rfold_invariant [where P = "\<lambda>U. test_id U = test_id V"])
      (auto simp: stop_stream_def rbind_eq_Inr dest!: join_thread_id)
  then show ?thesis using assms by (fastforce simp: file_Stop_def rbind_eq_Inr split: if_splits)
qed

lemma response_id: "SendResponse code T = Inr U \<Longrightarrow> test_id U = test_id T"
  by (auto simp: SendResponse_def file_send_ctrl_def rbind_eq_Inr split: option.splits)

lemma open_file_streams_id: "test_id (fold open_file_stream ns T) = test_id T"
  by (induction ns arbitrary: T) (simp_all add: open_file_stream_def)

lemma file_HandleControlMessage_id: "file_HandleControlMessage E fi cn b T = Inr U \<Longrightarrow> test_id U = test_id T"
  unfolding file_HandleControlMessage_def HandleFileTransferRequest_def OnRecvResponse_def SendResponseOk_def SendResponseDenied_def
  by (auto simp: rbind_eq_Inr rmap_eq_Inr Let_def open_file_streams_id split: if_splits option.splits dest!: response_id file_Stop_id)

lemma request_id: "SendFileTransferRequest T = Inr U \<Longrightarrow> test_id U = test_id T"
  by (auto simp: SendFileTransferRequest_def file_send_ctrl_def rbind_eq_Inr Let_def split: option.splits)

lemma finish_file_id [simp]: "test_id (finish_file i h T) = test_id T"
  by (simp add: finish_file_def Let_def)

lemma write_data_id: "write_data wbad i w vs T = (good, U) \<Longrightarrow> test_id U = test_id T"
  by (auto simp: write_data_def Let_def split: if_splits)

lemma store_block_id:
  assumes "store_block E wbad i h payload len T = Inr U"
  shows "test_id U = test_id T"
proof (cases "f_file_writer (x_streams T ! i)")
  case None
  then show ?thesis using assms by (simp add: store_block_def)
next
  case (Some w)
  define vs where "vs = (if has_comp h then Decompress (density_lib E) (Some payload) len True (int max_decompressed_buf_sz) else payload)"
  obtain good V where V: "write_data wbad i w vs T = (good, V)" by (cases "write_data wbad i w vs T")
  show ?thesis
  proof (cases "has_comp h \<and> vs = [] \<or> \<not> good")
    case True
    then show ?thesis using assms Some V write_data_id [OF V]
      by (auto simp: store_block_def vs_def [symmetric] rbind_eq_Inr split: if_splits)
  next
    case False
    then show ?thesis using assms Some V write_data_id [OF V]
      by (simp add: store_block_def vs_def [symmetric] rbind_eq_Inr Let_def split: if_split_asm, auto)
  qed
qed

lemma WriteFileSha256_id: "WriteFileSha256 E name b n T = Inr U \<Longrightarrow> test_id U = test_id T"
  by (auto simp: WriteFileSha256_def rbind_eq_Inr)

lemma open_file_id:
  assumes "open_file E i h b T = Inr (opened, U)"
  shows "test_id U = test_id T"
proof -
  obtain name ext V len where V: "(if has_sum h then WriteFileSha256 E (name @ ''.sha256sum'') b sizeof_bk_header T else Inr T) = Inr V"
    and U: "(let file = (if ext = '''' then name else name @ ''.'' @ ext); opened = fs_can_open E file;
          T = upd_stream i (\<lambda>s. s\<lparr>f_file_name := file, f_file_length := unpack_length len,
                f_file_writer := Some \<lparr>w_path = file, w_open = opened, w_bad = False, w_pos = 0\<rparr>\<rparr>) V
      in if \<not> opened then Inr (False, T)
         else (let T = T\<lparr>x_disk := (x_disk T)(file \<mapsto> [])\<rparr>
               in Inr (True, if is_debug_mode (t_config T) then T
                             else x_emit (BarRegister (file_seq h) (''Receiving file : '' @ file)) T))) = (Inr (opened, U) :: (bool \<times> 'a IperfFileTransfer) res)"
    using assms unfolding open_file_def by (elim rbindE) (auto simp only: prod.case split: prod.splits elim!: rbindE)
  have "test_id V = test_id T" using V by (auto split: if_splits dest: WriteFileSha256_id)
  moreover have "test_id U = test_id V" using U by (auto simp: Let_def split: if_split_asm)
  ultimately show ?thesis by simp
qed

lemma HandleReceivedFileData_id: "HandleReceivedFileData E wbad i b T = Inr U \<Longrightarrow> test_id U = test_id T"
  by (auto simp: HandleReceivedFileData_def rbind_eq_Inr Let_def split: if_splits dest!: store_block_id open_file_id)

lemma on_closed_id: "on_closed E fi user T = Inr (r, U) \<Longrightarrow> test_id U = test_id T"
  by (auto simp: on_closed_def rbind_eq_Inr rmap_eq_Inr split: option.splits if_splits dest: file_Stop_id)

lemma on_stream_id: "on_stream user f T = Inr (r, U) \<Longrightarrow> test_id U = test_id T"
  by (auto simp: on_stream_def at_stream_def rbind_eq_Inr rmap_eq_Inr split: option.splits if_splits)

lemma file_ConnectionCallback_id: "file_ConnectionCallback E fi cn ideal ev b len user T = Inr (r, U) \<Longrightarrow> test_id U = test_id T"
  by (cases ev) (auto simp: file_ConnectionCallback_def at_stream_def retry_file_connect_def CreateFileTransferThread_def rbind_eq_Inr rmap_eq_Inr
      split: option.splits if_splits
      dest!: on_closed_id on_stream_id request_id file_HandleControlMessage_id HandleReceivedFileData_id)

lemma file_DataListenCallback_id: "file_DataListenCallback cn ev T = Inr U \<Longrightarrow> test_id U = test_id T"
  by (auto simp: file_DataListenCallback_def Let_def split: option.splits BatsListenEvent.splits)

lemma file_IsStreamDone_id [simp]: "test_id (snd (file_IsStreamDone T)) = test_id T"
  by (simp add: file_IsStreamDone_def Let_def)

lemma file_step_id: "file_step E T e = Inr U \<Longrightarrow> test_id U = test_id T"
  by (cases e) (auto simp: rmap_eq_Inr file_Start_def file_TestFinishState_def Let_def split: if_splits
      dest: file_Stop_id file_HandleControlMessage_id file_ConnectionCallback_id file_DataListenCallback_id file_thread_step_id)

end
