(* ===== verification/Api_Table.thy ===== *)
theory Api_Table
  imports Api_Ids
begin

text \<open>
  The table of the tests of \<open>IperfBatsApi\<close>: the laws of its operations as a locale, the invariant that every
  test stands under its own id, and rules for calls of a test of the table.
\<close>

section \<open>The interface of the table\<close>

locale test_table =
  fixes lookup :: "'m \<Rightarrow> 'k \<Rightarrow> 'v option"
    and insert :: "'k \<Rightarrow> 'v \<Rightarrow> 'm \<Rightarrow> 'm"
    and update :: "'k \<Rightarrow> 'v \<Rightarrow> 'm \<Rightarrow> 'm"
    and erase :: "'k \<Rightarrow> 'm \<Rightarrow> 'm"
    and wf :: "'m \<Rightarrow> bool"
  assumes lookup_insert: "lookup (insert k v m) k' = (if k' = k \<and> lookup m k = None then Some v else lookup m k')"
    and lookup_update: "lookup (update k v m) k' = (if k' = k \<and> lookup m k \<noteq> None then Some v else lookup m k')"
    and lookup_erase: "lookup (erase k m) k' = (if k' = k then None else lookup m k')"
    and wf_insert: "wf m \<Longrightarrow> wf (insert k v m)"
    and wf_update: "wf m \<Longrightarrow> wf (update k v m)"
    and wf_erase: "wf m \<Longrightarrow> wf (erase k m)"
begin

text \<open>A property of every entry of the table.\<close>

definition entries :: "('k \<Rightarrow> 'v \<Rightarrow> bool) \<Rightarrow> 'm \<Rightarrow> bool" where
  "entries P m \<longleftrightarrow> wf m \<and> (\<forall>k v. lookup m k = Some v \<longrightarrow> P k v)"

lemma entries_insert: "entries P m \<Longrightarrow> P k v \<Longrightarrow> entries P (insert k v m)"
  by (auto simp: entries_def lookup_insert wf_insert split: if_splits)

lemma entries_update: "entries P m \<Longrightarrow> (lookup m k \<noteq> None \<Longrightarrow> P k v) \<Longrightarrow> entries P (update k v m)"
  by (auto simp: entries_def lookup_update wf_update split: if_splits)

lemma entries_erase: "entries P m \<Longrightarrow> entries P (erase k m)"
  by (auto simp: entries_def lookup_erase wf_erase split: if_splits)

lemma entries_lookup: "entries P m \<Longrightarrow> lookup m k = Some v \<Longrightarrow> P k v"
  by (simp add: entries_def)

lemma entries_mono: "entries P m \<Longrightarrow> (\<And>k v. P k v \<Longrightarrow> Q k v) \<Longrightarrow> entries Q m"
  by (auto simp: entries_def)

end

lemma map_of_tbl_update: "map_of (tbl_update k v m) k' = (if k' = k \<and> map_of m k \<noteq> None then Some v else map_of m k')"
  by (induction m) (auto simp: tbl_update_def)

lemma keys_tbl_update [simp]: "map fst (tbl_update k v m) = map fst m"
  by (simp add: tbl_update_def case_prod_beta comp_def)

interpretation tbl: test_table map_of tbl_insert tbl_update tbl_erase "\<lambda>m. distinct (map fst m)"
proof
  fix k k' :: u32 and v :: 'b and m :: "(u32 \<times> 'b) list"
  show "map_of (tbl_insert k v m) k' = (if k' = k \<and> map_of m k = None then Some v else map_of m k')"
    by (auto simp: tbl_insert_def map_add_def split: option.splits)
  show "map_of (tbl_update k v m) k' = (if k' = k \<and> map_of m k \<noteq> None then Some v else map_of m k')"
    by (rule map_of_tbl_update)
  show "map_of (tbl_erase k m) k' = (if k' = k then None else map_of m k')"
    by (induction m) (auto simp: tbl_erase_def)
  show "distinct (map fst m) \<Longrightarrow> distinct (map fst (tbl_insert k v m))"
    by (auto simp: tbl_insert_def map_of_eq_None_iff)
  show "distinct (map fst m) \<Longrightarrow> distinct (map fst (tbl_update k v m))" by simp
  show "distinct (map fst m) \<Longrightarrow> distinct (map fst (tbl_erase k m))"
    by (auto simp: tbl_erase_def intro: distinct_map_filter)
qed

section \<open>The invariant\<close>

fun any_id :: "('r, 'f, 'q) any_test \<Rightarrow> u32" where
  "any_id (Gen t) = test_id t"
| "any_id (Ft x) = test_id x"

definition table_ok :: "('r, 'f, 'q) IperfBatsApi \<Rightarrow> bool" where
  "table_ok a \<longleftrightarrow> tbl.entries (\<lambda>k t. any_id t = k \<and> k \<noteq> 0) (test_tbl a)"

lemma any_Id_eq: "any_Id t = (if any_id t = 0 then Inl AssertFail else Inr (any_id t))"
  by (cases t) (simp_all add: Id_def)

lemma any_id_keeps [simp]:
  "any_id (with_sid n t) = any_id t" "any_id (any_CloseCtrlChannel t) = any_id t" "any_id (set_up name t) = any_id t"
  "any_id (set_receiver t) = any_id t" "any_id (any_PrintStreamSendSummary t) = any_id t"
  by (cases t; simp add: PrintStreamSendSummary_def)+

lemma any_polls_id [simp]:
  "any_id (snd (any_IsStreamDone t)) = any_id t" "any_id (snd (any_IsStreamReady t)) = any_id t" "any_id (snd (any_Start E t)) = any_id t"
proof -
  show "any_id (snd (any_IsStreamDone t)) = any_id t" by (cases t) simp_all
  show "any_id (snd (any_IsStreamReady t)) = any_id t" by (cases t) (simp_all add: IsStreamReady_def Let_def)
  show "any_id (snd (any_Start E t)) = any_id t" by (cases t) (simp_all add: StartTest_def file_Start_def Let_def)
qed

lemma any_Stop_id: "any_Stop E i t = Inr (r, u) \<Longrightarrow> any_id u = any_id t"
  by (cases t) (auto simp: rmap_eq_Inr dest: StopTest_id file_Stop_id)

lemma any_HandleControlMessage_id: "any_HandleControlMessage E i cn b t = Inr u \<Longrightarrow> any_id u = any_id t"
  by (cases t) (auto simp: rmap_eq_Inr dest: HandleControlMessage_id file_HandleControlMessage_id)

lemma any_TestFinishState_id: "any_TestFinishState ck t = Inr (r, u) \<Longrightarrow> any_id u = any_id t"
proof (cases t)
  case (Ft x)
  then show "any_TestFinishState ck t = Inr (r, u) \<Longrightarrow> any_id u = any_id t"
    by (auto simp: file_TestFinishState_def) (metis file_IsStreamDone_id snd_conv snd_map_prod any_id.simps(2))
qed (auto simp: rmap_eq_Inr dest: TestFinishState_id)

lemma any_OnSentFinished_id: "any_OnSentFinished ck t = Inr u \<Longrightarrow> any_id u = any_id t"
  by (cases t) (auto simp: rmap_eq_Inr dest: OnSentFinished_id)

lemma any_TryPrintSummary_id: "any_TryPrintSummary t = Inr u \<Longrightarrow> any_id u = any_id t"
  by (cases t) (auto simp: rmap_eq_Inr dest: TryPrintSummary_id)

lemma any_step_id: "any_step E e t = Inr u \<Longrightarrow> any_id u = any_id t"
  by (cases t; cases e) (auto simp: rmap_eq_Inr dest: test_step_id file_step_id)

section \<open>Calls of a test of the table\<close>

text \<open>Printing changes nothing but the output and the version text.\<close>

definition same_but_output :: "('r, 'f, 'q) IperfBatsApi \<Rightarrow> ('r, 'f, 'q) IperfBatsApi \<Rightarrow> bool" where
  "same_but_output a b \<longleftrightarrow> a\<lparr>ver_info := '''', a_stdout := '''', a_log := ''''\<rparr> = b\<lparr>ver_info := '''', a_stdout := '''', a_log := ''''\<rparr>"

lemma same_but_outputD:
  assumes "same_but_output a b"
  shows "test_tbl b = test_tbl a" "a_next_stream b = a_next_stream a" "a_stopped b = a_stopped a"
    "stop_signal_value b = stop_signal_value a" "is_ctrl_chn_connected b = is_ctrl_chn_connected a" "a_cli b = a_cli a"
    "a_calls b = a_calls a" "server_listen_port b = server_listen_port a"
  using assms by (cases a; cases b; simp add: same_but_output_def)+

lemma same_refl [simp]: "same_but_output a a"
  by (simp add: same_but_output_def)

lemma same_trans: "same_but_output a b \<Longrightarrow> same_but_output b c \<Longrightarrow> same_but_output a c"
  by (simp add: same_but_output_def)

lemma print_same [simp]: "same_but_output a (print_both txt a)" "same_but_output a (with_ver E txt a)"
  by (cases a; simp add: same_but_output_def print_both_def with_ver_def Let_def)+

lemma sender_prints_same:
  assumes "test_tbl a \<noteq> []"
  shows "returns (PrintSenderInfo E a) (same_but_output a)" "returns (PrintSenderFailure E a) (same_but_output a)"
  using assms by (cases "test_tbl a"; simp add: PrintSenderInfo_def PrintSenderFailure_def returns_def case_prod_beta)+

lemma print_out_same:
  assumes "test_tbl a \<noteq> []"
  shows "returns (print_out E x a) (same_but_output a)"
  using sender_prints_same [OF assms]
  by (cases x) (simp_all add: returns_def PrintSentSummaryHeader_def PrintRecvSummaryHeader_def)

lemma print_file_out_same:
  assumes "test_tbl a \<noteq> []"
  shows "returns (print_file_out E x a) (same_but_output a)"
  using sender_prints_same [OF assms] by (cases x) (simp_all add: returns_def)

lemma print_fold_same:
  assumes "\<And>x a. test_tbl a \<noteq> [] \<Longrightarrow> returns (f x a) (same_but_output a)" and "test_tbl a \<noteq> []"
  shows "returns (rfold f xs a) (same_but_output a)"
  using assms(2)
proof (induction xs arbitrary: a)
  case (Cons x xs)
  obtain b where b: "f x a = Inr b" "same_but_output a b" using assms(1) [OF Cons.prems, of x] by (auto simp: returns_def)
  then have "test_tbl b \<noteq> []" using Cons.prems same_but_outputD(1) by fastforce
  from returns_mono [OF Cons.IH [OF this] same_trans [OF b(2)]] show ?case using b(1) by simp
qed (simp add: returns_def)

lemma print_new_same: "test_tbl a \<noteq> [] \<Longrightarrow> returns (print_new E n t a) (same_but_output a)"
  by (cases t) (auto intro!: print_fold_same print_out_same print_file_out_same)

text \<open>What a call leaves as it was: all but the called test, the stream counter and the output.\<close>

definition called :: "u32 \<Rightarrow> ('r, 'f, 'q) any_test \<Rightarrow> ('r, 'f, 'q) IperfBatsApi \<Rightarrow> ('r, 'f, 'q) IperfBatsApi \<Rightarrow> bool" where
  "called k u a b \<longleftrightarrow> test_tbl b = tbl_update k u (test_tbl a) \<and> a_stopped b = a_stopped a \<and> stop_signal_value b = stop_signal_value a
     \<and> is_ctrl_chn_connected b = is_ctrl_chn_connected a \<and> a_cli b = a_cli a \<and> a_calls b = a_calls a"

lemma call_testE:
  assumes "call_test E k f a = Inr (x, b)"
  obtains t u where "map_of (test_tbl a) k = Some t" and "f (with_sid (a_next_stream a) t) = Inr (x, u)" and "called k u a b"
proof -
  from assms obtain t u c where t: "map_of (test_tbl a) k = Some t" "f (with_sid (a_next_stream a) t) = Inr (x, u)"
      "print_new E (printed t) u a = Inr c" "b = c\<lparr>test_tbl := tbl_update k u (test_tbl c), a_next_stream := sid_after (a_next_stream c) u\<rparr>"
    by (auto simp: call_test_def rbind_eq_Inr split: option.splits)
  have "test_tbl a \<noteq> []" using t(1) by auto
  then have "same_but_output a c" by (rule returns_unique [OF print_new_same t(3)])
  then have "called k u a b" using t(4) by (simp add: called_def same_but_outputD)
  then show thesis using that t by blast
qed

lemma returns_call_test:
  assumes "map_of (test_tbl a) k = Some t"
    and "returns (f (with_sid (a_next_stream a) t)) (\<lambda>(x, u). \<forall>b. called k u a b \<longrightarrow> Q (x, b))"
  shows "returns (call_test E k f a) Q"
proof -
  obtain x u where u: "f (with_sid (a_next_stream a) t) = Inr (x, u)" "\<And>b. called k u a b \<Longrightarrow> Q (x, b)"
    using assms(2) by (auto simp: returns_def)
  have "test_tbl a \<noteq> []" using assms(1) by auto
  then obtain c where c: "print_new E (printed t) u a = Inr c" "same_but_output a c"
    using print_new_same by (fastforce simp: returns_def)
  then have "called k u a (c\<lparr>test_tbl := tbl_update k u (test_tbl c), a_next_stream := sid_after (a_next_stream c) u\<rparr>)"
    by (simp add: called_def same_but_outputD)
  then show ?thesis using assms(1) u c by (simp add: call_test_def returns_def)
qed

lemma do_testE:
  assumes "do_test E k f a = Inr b"
  obtains t u where "map_of (test_tbl a) k = Some t" and "f (with_sid (a_next_stream a) t) = Inr u" and "called k u a b"
  using assms by (auto simp: do_test_def rmap_eq_Inr elim!: call_testE)

lemma returns_do_test:
  assumes "map_of (test_tbl a) k = Some t"
    and "returns (f (with_sid (a_next_stream a) t)) (\<lambda>u. \<forall>b. called k u a b \<longrightarrow> Q b)"
  shows "returns (do_test E k f a) Q"
  unfolding do_test_def
  by (rule returns_rmap, rule returns_call_test [OF assms(1)], rule returns_rmap, rule returns_mono [OF assms(2)]) simp

lemma table_ok_called:
  assumes "table_ok a" and "map_of (test_tbl a) k = Some t" and "any_id u = any_id t" and "called k u a b"
  shows "table_ok b"
  using assms tbl.entries_lookup [OF assms(1) [unfolded table_ok_def] assms(2)]
  by (auto simp: table_ok_def called_def intro: tbl.entries_update)

lemma table_ok_do_test:
  assumes "do_test E k f a = Inr b" and "table_ok a" and "\<And>t u. f t = Inr u \<Longrightarrow> any_id u = any_id t"
  shows "table_ok b"
  using assms(1) by (elim do_testE) (use table_ok_called [OF assms(2)] assms(3) any_id_keeps(1) in metis)

lemma table_ok_call_test:
  assumes "call_test E k f a = Inr (x, b)" and "table_ok a" and "\<And>t x u. f t = Inr (x, u) \<Longrightarrow> any_id u = any_id t"
  shows "table_ok b"
  using assms(1) by (elim call_testE) (use table_ok_called [OF assms(2)] assms(3) any_id_keeps(1) in metis)

lemma table_ok_cong [simp]:
  "table_ok (a\<lparr>is_ctrl_chn_connected := v\<rparr>) = table_ok a" "table_ok (a\<lparr>stop_signal_value := n\<rparr>) = table_ok a"
  "table_ok (a\<lparr>a_stopped := v\<rparr>) = table_ok a" "table_ok (a_emit x a) = table_ok a" "table_ok (a\<lparr>server_listen_port := n\<rparr>) = table_ok a"
  "table_ok (a\<lparr>a_next_stream := n\<rparr>) = table_ok a" "table_ok (a\<lparr>log_open := v\<rparr>) = table_ok a" "table_ok (a\<lparr>a_cli := c\<rparr>) = table_ok a"
  by (simp_all add: table_ok_def a_emit_def)

lemma table_ok_same: "same_but_output a b \<Longrightarrow> table_ok b = table_ok a"
  by (simp add: table_ok_def same_but_outputD)

lemma table_ok_insert: "table_ok a \<Longrightarrow> any_id t \<noteq> 0 \<Longrightarrow> table_ok (a\<lparr>test_tbl := tbl_insert (any_id t) t (test_tbl a)\<rparr>)"
  by (simp add: table_ok_def tbl.entries_insert)

section \<open>Every operation keeps the invariant\<close>

lemma table_ok_StopAll: "StopAll E ins a = Inr b \<Longrightarrow> table_ok a \<Longrightarrow> table_ok b"
proof (cases "a_stopped a")
  case False
  assume "StopAll E ins a = Inr b" "table_ok a"
  then show "table_ok b"
    using False unfolding StopAll_def
    by (simp, elim rfold_invariant) (auto elim!: table_ok_do_test simp: rmap_eq_Inr dest: any_Stop_id)
qed (simp add: StopAll_def)

lemma print_keeps:
  "print_out E x a = Inr b \<Longrightarrow> same_but_output a b" "print_file_out E y a = Inr b \<Longrightarrow> same_but_output a b"
proof -
  show "print_out E x a = Inr b \<Longrightarrow> same_but_output a b"
    using returns_unique [OF print_out_same [of a E x], of b]
    by (cases "test_tbl a = []"; cases x) (auto simp: PrintSenderInfo_def PrintSenderFailure_def PrintSentSummaryHeader_def PrintRecvSummaryHeader_def)
  show "print_file_out E y a = Inr b \<Longrightarrow> same_but_output a b"
    using returns_unique [OF print_file_out_same [of a E y], of b]
    by (cases "test_tbl a = []"; cases y) (auto simp: PrintSenderFailure_def)
qed

lemma print_new_table: "print_new E n t a = Inr b \<Longrightarrow> same_but_output a b"
  by (cases t) (auto elim!: rfold_invariant [where P = "same_but_output a"] dest: print_keeps intro: same_trans)

lemma id_widened [simp]: "ucast (ucast (w :: u32) :: u64) = w"
  by (rule bit_word_eqI) (simp add: bit_simps)

lemma received_test_id: "received_test E h a = Some t \<Longrightarrow> any_id t = ctl_test_id h"
  by (auto simp: received_test_def new_transfer_id_def new_test_id_def new_IIperfTest_def IIperfTest.defs IperfTest.defs
      IperfFileTransfer.defs Let_def split: if_splits)

lemma table_ok_message:
  assumes "api_HandleControlMessage E i cn b a = Inr c" and "table_ok a"
  shows "table_ok c"
proof -
  obtain h where h: "read_control b = Inr h" using assms(1) by (auto simp: api_HandleControlMessage_def rbind_eq_Inr)
  show ?thesis
  proof (cases "map_of (test_tbl a) (ctl_test_id h)")
    case (Some t)
    then have "do_test E (ctl_test_id h) (any_HandleControlMessage E i cn b) a = Inr c"
      using assms(1) h by (simp add: api_HandleControlMessage_def)
    then show ?thesis using assms(2) by (rule table_ok_do_test) (rule any_HandleControlMessage_id)
  next
    case None
    then obtain t u d k where u: "any_HandleControlMessage E i cn b (set_up (cli_interface (a_cli a)) (set_receiver t)) = Inr u"
        "print_new E (printed t) u a = Inr d" "any_Id u = Inr k"
        "c = a_emit (ASetCallback cn (Some k)) (d\<lparr>test_tbl := tbl_insert k u (test_tbl d), a_next_stream := sid_after (a_next_stream d) u\<rparr>)"
      using assms(1) h by (auto simp: api_HandleControlMessage_def rbind_eq_Inr split: option.splits)
    have "k = any_id u" "any_id u \<noteq> 0" using u(3) by (auto simp: any_Id_eq split: if_splits)
    moreover have "table_ok d" using assms(2) table_ok_same [OF print_new_table [OF u(2)]] by simp
    ultimately show ?thesis
      using u(4) table_ok_insert [of d u] by (simp add: table_ok_def a_emit_def)
  qed
qed

lemma table_ok_step: "api_step E a e = Inr b \<Longrightarrow> table_ok a \<Longrightarrow> table_ok b"
proof (cases e)
  case (ApListen cn ev)
  then show "api_step E a e = Inr b \<Longrightarrow> table_ok a \<Longrightarrow> table_ok b"
    by (cases ev) (auto simp: api_ControlChannelListenCallback_def PrintReceiverInfo_def PrintReceiverFailure_def
        table_ok_same [OF print_same(2)])
next
  case (ApControl i cn ev d user)
  then show "api_step E a e = Inr b \<Longrightarrow> table_ok a \<Longrightarrow> table_ok b"
    by (auto simp: api_ControlChannelConnectionCallback_def rbind_eq_Inr rmap_eq_Inr split: if_splits option.splits
        intro: table_ok_message dest!: table_ok_do_test any_Stop_id)
next
  case (ApTest k e')
  then show "api_step E a e = Inr b \<Longrightarrow> table_ok a \<Longrightarrow> table_ok b"
    by (auto split: if_splits elim!: table_ok_do_test dest: any_step_id)
next
  case (ApFile k e')
  then show "api_step E a e = Inr b \<Longrightarrow> table_ok a \<Longrightarrow> table_ok b"
    by (auto split: if_splits elim!: table_ok_do_test dest: any_step_id)
next
  case (ApSignal sig ins)
  then show "api_step E a e = Inr b \<Longrightarrow> table_ok a \<Longrightarrow> table_ok b" by (auto dest: table_ok_StopAll)
qed

end
