(* ===== verification/Api_Properties.thy ===== *)
theory Api_Properties
  imports Api_Table Test_Properties File_Properties
begin

text \<open>
  The properties of \<open>IperfBatsApi\<close>, each with a concrete instance.
\<close>

section \<open>Example values\<close>

definition example_api_env :: "(u64 list, unit, File list) api_env" where
  "example_api_env = \<lparr>gen_env = example_test_env, ft_env = example_env, build_stamp = '''', create_directories = (\<lambda>p. True), can_append = (\<lambda>p. True)\<rparr>"

definition example_api_in :: api_in where
  "example_api_in = \<lparr>ctrl_input = example_ctrl_in,
     file_input = \<lparr>fi_ifaddrs = None, fi_space = Some 100, fi_join = (\<lambda>_. []), fi_wbad = False\<rparr>\<rparr>"

definition example_ifs :: "ifaddr list option" where
  "example_ifs = None"

text \<open>A client command line and what it leads to.\<close>

definition example_client :: "opt list" where
  "example_client = [Client ''10.0.0.1'', Mode 1, Seconds 5]"

section \<open>Initialisation\<close>

lemma Usage_same [simp]: "same_but_output a (Usage E a)"
  by (cases a) (simp add: same_but_output_def Usage_def Let_def)

lemma show_usage_table [simp]: "test_tbl (show_usage E c a) = test_tbl a" "a_next_stream (show_usage E c a) = a_next_stream a"
  "a_cli (show_usage E c a) = c\<lparr>usage_shown := False\<rparr>" "log_open (show_usage E c a) = log_open a"
  "stop_signal_value (show_usage E c a) = stop_signal_value a"
  by (simp_all add: show_usage_def Usage_def Let_def)

lemma open_log_table: "open_log E a = Inr b \<Longrightarrow> test_tbl b = test_tbl a \<and> a_cli b = a_cli a \<and> a_next_stream b = a_next_stream a"
  by (auto simp: open_log_def Let_def split: if_splits)

lemma new_tests_id [simp]:
  "test_id (new_test ck c n) = ucast (mono_ms ck)" "test_id (new_transfer FE ident c) = ucast ident"
  by (simp_all add: new_test_def new_test_id_def new_transfer_def new_transfer_id_def new_IIperfTest_def IIperfTest.defs
      IperfTest.defs IperfFileTransfer.defs Let_def case_prod_beta)

lemma table_ok_add:
  assumes "rbind (any_Id t) (\<lambda>k. Inr (b\<lparr>test_tbl := tbl_insert k t (test_tbl b)\<rparr>)) = Inr c" and "table_ok b"
  shows "table_ok c"
  using assms table_ok_insert [OF assms(2), of t] by (auto simp: any_Id_eq rbind_eq_Inr split: if_splits)

lemma table_ok_add_sender_test: "add_sender_test E ck r b = Inr c \<Longrightarrow> table_ok b \<Longrightarrow> table_ok c"
  unfolding add_sender_test_def Let_def by (rule table_ok_add)

lemma set_logs_table [simp]: "test_tbl (set_logs a) = test_tbl a" "a_next_stream (set_logs a) = a_next_stream a" "a_cli (set_logs a) = a_cli a"
  "stop_signal_value (set_logs a) = stop_signal_value a"
  by (simp_all add: set_logs_def a_emit_def Let_def)

lemma table_ok_set_role: "set_role E ck ifs a = Inr (r, b) \<Longrightarrow> table_ok a \<Longrightarrow> table_ok b"
  by (auto simp: set_role_def rmap_eq_Inr table_ok_def [of "show_usage _ _ _"] table_ok_def [of a] Let_def split: if_splits prod.splits
      intro: table_ok_add_sender_test)

lemma table_ok_init:
  assumes "InitFromArgs E ck ifs args (new_api n) = Inr (r, a)"
  shows "table_ok a"
proof -
  have none: "table_ok b" if "test_tbl b = []" for b :: "('a, 'b, 'c) IperfBatsApi"
    using that by (simp add: table_ok_def tbl.entries_def)
  have new: "test_tbl (new_api n) = []" by (simp add: new_api_def)
  show ?thesis
  proof (cases "args = []")
    case True
    then show ?thesis using assms none [OF new] table_ok_same [OF Usage_same] by (auto simp: InitFromArgs_def)
  next
    case False
    then obtain early c where c: "(case early of Some r \<Rightarrow> Inr (r, show_usage E c (new_api n))
         | None \<Rightarrow> rbind (open_log E (set_logs (show_usage E c (new_api n)))) (set_role E ck ifs)) = Inr (r, a)"
      using assms by (auto simp: InitFromArgs_def rbind_eq_Inr Let_def)
    show ?thesis
    proof (cases early)
      case None
      then obtain b where b: "open_log E (set_logs (show_usage E c (new_api n))) = Inr b" "set_role E ck ifs b = Inr (r, a)"
        using c by (auto simp: rbind_eq_Inr)
      have "table_ok b" by (rule none) (use open_log_table [OF b(1)] new in simp)
      then show ?thesis using b(2) table_ok_set_role by blast
    next
      case (Some x)
      then have "a = show_usage E c (new_api n)" using c by simp
      then show ?thesis using new by (intro none) simp
    qed
  qed
qed

lemma check_config_cli:
  "cli_config (snd (check_config ex ifs a)) = (cli_config a)\<lparr>role := requested_role a\<rparr>"
  "cli_interface (snd (check_config ex ifs a)) = cli_interface a" "cli_role (snd (check_config ex ifs a)) = requested_role a"
  by (simp_all add: check_config_def ValidateServerConfig_def ValidateClientConfig_def set_config_def Let_def)

lemma fold_opts_int32: "list_all opt_ok os \<Longrightarrow> is_int32 (num_streams (cli_config c)) \<Longrightarrow> is_int32 (num_streams (cli_config (fold apply_opt os c)))"
proof (induction os arbitrary: c)
  case (Cons x os)
  have "is_int32 (num_streams (cli_config (apply_opt x c)))" using Cons.prems by (cases x) (simp_all add: set_config_def)
  then show ?case using Cons by simp
qed simp

lemma fold_opts_usage: "usage_shown (fold apply_opt os c) = usage_shown c"
proof (induction os arbitrary: c)
  case (Cons x os)
  have "usage_shown (apply_opt x c) = usage_shown c" by (cases x) (simp_all add: set_config_def)
  then show ?case using Cons by simp
qed simp

text \<open>The test of a sender with configuration \<open>c\<close>, as it is put into the table.\<close>

definition sender_test ::
  "('r, 'f, 'q) api_env \<Rightarrow> clock \<Rightarrow> int \<Rightarrow> string \<Rightarrow> TestConfig \<Rightarrow> ('r, 'f, 'q) any_test" where
  "sender_test E ck n name c = set_up name (if role c = ROLE_SENDER then Gen (new_test ck c n) else Ft (new_transfer (ft_env E) (mono_ms ck) c))"

lemma sender_test_id [simp]: "any_id (sender_test E ck n name c) = ucast (mono_ms ck)"
  by (simp add: sender_test_def)

lemma init_client:
  assumes "list_all opt_ok os" and "length (filter sets_role os) \<le> 1" and "os \<noteq> []"
  defines "c \<equiv> fold apply_opt os cli_init"
  defines "cfg \<equiv> (cli_config c)\<lparr>role := requested_role c\<rparr>"
  assumes "isSenderRole (requested_role c)" and "client_ok (fs_exists (ft_env E)) cfg" and "cli_log_file c = ''''"
    and "(ucast (mono_ms ck) :: u32) \<noteq> 0"
  shows "\<exists>a. InitFromArgs E ck ifs (concat (map render os)) (new_api n) = Inr (requested_role c, a)
    \<and> test_tbl a = [(ucast (mono_ms ck), sender_test E ck n (cli_interface c) cfg)] \<and> a_role a = requested_role c
    \<and> stop_signal_value a = 0"
proof -
  obtain x xs where "os = x # xs" using assms(3) by (cases os) auto
  moreover have "render x \<noteq> []" by (cases x) simp_all
  ultimately have ne: "concat (map render os) \<noteq> []" by simp
  define args where "args = concat (map render os)"
  have p: "parse_args (concat (map render os)) cli_init = Inr (None, c)"
    using command_line_prefix [OF assms(1,2), of cli_init "[]"] by (simp add: cli_init_def c_def)
  have i32: "is_int32 (num_streams (cli_config c))" unfolding c_def
    by (rule fold_opts_int32 [OF assms(1)]) (simp add: cli_init_def TestConfig_init_def is_int32.simps)
  have uu: "c\<lparr>usage_shown := False\<rparr> = c" using fold_opts_usage [of os cli_init] by (simp add: c_def cli_init_def)
  obtain c' where cc: "check_config (fs_exists (ft_env E)) ifs c = (requested_role c, c')"
    using check_config_role [OF i32, of "fs_exists (ft_env E)" ifs] assms(6,7)
    by (cases "check_config (fs_exists (ft_env E)) ifs c") (auto simp: Let_def cfg_def)
  have c': "cli_config c' = cfg" "cli_interface c' = cli_interface c" "cli_role c' = requested_role c"
    using check_config_cli [of "fs_exists (ft_env E)" ifs c] cc by (simp_all add: cfg_def)
  have nr: "\<not> isReceiverRole (requested_role c)" using assms(6) roles_exclusive by blast
  define a1 where "a1 = set_logs (show_usage E c (new_api n))"
  have a1: "a_cli a1 = c" "test_tbl a1 = []" "a_next_stream a1 = n" "stop_signal_value a1 = 0" using uu by (simp_all add: a1_def new_api_def)
  have "open_log E a1 = Inr a1" using a1 assms(8) by (simp add: open_log_def Let_def)
  moreover have "set_role E ck ifs a1 = rmap (Pair (requested_role c)) (add_sender_test E ck (requested_role c) (show_usage E c' a1))"
    using a1 cc nr assms(6) by (simp add: set_role_def Let_def)
  moreover define t where "t = sender_test E ck n (cli_interface c) cfg"
  have "add_sender_test E ck (requested_role c) (show_usage E c' a1) =
      rbind (any_Id t) (\<lambda>k. Inr ((show_usage E c' a1)\<lparr>test_tbl := tbl_insert k t []\<rparr>))"
    using a1 c' by (simp add: add_sender_test_def Let_def t_def sender_test_def cfg_def)
  moreover have "any_Id t = Inr (ucast (mono_ms ck))" using assms(9) by (simp add: any_Id_eq t_def)
  ultimately show ?thesis
    using p ne c' a1(4) unfolding InitFromArgs_def args_def [symmetric] by (simp add: new_api_def [of n, THEN arg_cong [where f = a_cli]] Let_def a1_def tbl_insert_def t_def)
qed


definition example_args :: "string list" where
  "example_args = [''-c'', ''10.0.0.1'', ''-m'', ''1'', ''-t'', ''5'']"

definition example_cli :: cli where
  "example_cli = cli_init\<lparr>cli_role := ROLE_SENDER, cli_config := TestConfig_init\<lparr>peer_host := ''10.0.0.1'', protocol := 1, time := Fin 5\<rparr>\<rparr>"

lemma example_client_facts:
  "list_all opt_ok example_client" "length (filter sets_role example_client) \<le> 1" "example_client \<noteq> []"
  "fold apply_opt example_client cli_init = example_cli" "requested_role example_cli = ROLE_SENDER"
  "isSenderRole ROLE_SENDER" "cli_log_file example_cli = ''''" "(ucast (mono_ms (example_clock 7)) :: u32) = 7"
  "client_ok (fs_exists (ft_env example_api_env)) ((cli_config example_cli)\<lparr>role := ROLE_SENDER\<rparr>)"
  "cli_interface example_cli = ''''"
  by (simp_all add: example_client_def is_int32.simps example_cli_def cli_init_def set_config_def TestConfig_init_def
      requested_role_def isSenderRole_def example_clock_def client_ok_def IsSupportedProtocol_def)

lemma example_client_args: "concat (map render example_client) = example_args"
proof -
  have "show_int 1 = ''1''" "show_nat 5 = ''5''" by code_simp+
  then show ?thesis by (simp add: example_client_def example_args_def)
qed




section \<open>Stopping\<close>

fun any_stopped :: "('r, 'f, 'q) any_test \<Rightarrow> bool" where
  "any_stopped (Gen t) = t_stopped t"
| "any_stopped (Ft x) = t_stopped x"

fun any_can_stop :: "('r, 'f, 'q) api_env \<Rightarrow> api_in \<Rightarrow> ('r, 'f, 'q) any_test \<Rightarrow> bool" where
  "any_can_stop E i (Gen t) = (t_stopped t \<or> printable (ci_clock (ctrl_input i)) t)"
| "any_can_stop E i (Ft x) = (t_stopped x \<or> stoppable (ft_env E) (fi_join (file_input i)) x)"

lemma any_sid [simp]: "any_can_stop E i (with_sid n t) = any_can_stop E i t" "any_stopped (with_sid n t) = any_stopped t"
  by (cases t; simp add: printable_def)+

text \<open>Both kinds of test keep the contract of \<open>IIperfTest\<close>.\<close>

definition finished_test :: "('r, 'f, 'q) any_test \<Rightarrow> bool" where
  "finished_test t \<longleftrightarrow> GetState t = TEST_DONE \<and> fst (any_IsStreamDone t)"

lemma any_Stop_ok:
  assumes "any_can_stop E i t"
  shows "returns (any_Stop E i t) (\<lambda>(r, u). any_stopped u \<and> any_id u = any_id t \<and> (any_stopped t \<or> finished_test u))"
proof (cases t)
  case (Gen x)
  show ?thesis
  proof (cases "t_stopped x")
    case True
    then show ?thesis using Gen general_test.stop_again [OF True] by (simp add: returns_def)
  next
    case False
    then have "printable (ci_clock (ctrl_input i)) x" using assms Gen by simp
    from general_test.stop_first [OF False this] show ?thesis
      unfolding Gen any_Stop.simps by (rule returns_rmap [OF returns_mono]) (auto simp: finished_test_def)
  qed
next
  case (Ft x)
  show ?thesis
  proof (cases "t_stopped x")
    case True
    then show ?thesis using Ft file_test.stop_again [OF True] by (simp add: returns_def)
  next
    case False
    then have "stoppable (ft_env E) (fi_join (file_input i)) x" using assms Ft by simp
    from file_test.stop_first [OF False this] show ?thesis
      unfolding Ft any_Stop.simps by (rule returns_rmap [OF returns_mono]) (auto simp: finished_test_def)
  qed
qed

text \<open>The tests of the keys \<open>ks\<close> are stopped and those that were running are finished, the others are as they were.\<close>

definition stopped_upto ::
  "u32 set \<Rightarrow> ('r, 'f, 'q) IperfBatsApi \<Rightarrow> ('r, 'f, 'q) IperfBatsApi \<Rightarrow> bool" where
  "stopped_upto ks a b \<longleftrightarrow> map fst (test_tbl b) = map fst (test_tbl a) \<and> a_stopped b \<and> stop_signal_value b = SIGINT
     \<and> (\<forall>k t. map_of (test_tbl a) k = Some t \<longrightarrow> (\<exists>u. map_of (test_tbl b) k = Some u \<and>
          (if k \<in> ks then any_stopped u \<and> any_id u = any_id t \<and> (any_stopped t \<or> finished_test u) else u = t)))"

lemma stop_one:
  assumes "stopped_upto ks a b" and "map_of (test_tbl a) k = Some t" and "k \<notin> ks" and "any_can_stop E i t"
  shows "returns (do_test E k (\<lambda>t. rmap snd (any_Stop E i t)) b) (stopped_upto (insert k ks) a)"
proof -
  obtain u where "map_of (test_tbl b) k = Some u" "if k \<in> ks then any_stopped u \<and> any_id u = any_id t \<and> (any_stopped t \<or> finished_test u) else u = t"
    using assms(1,2) unfolding stopped_upto_def by blast
  then have b: "map_of (test_tbl b) k = Some t" using assms(3) by simp
  have "returns (any_Stop E i (with_sid (a_next_stream b) t)) (\<lambda>(r, u). any_stopped u \<and> any_id u = any_id t \<and> (any_stopped t \<or> finished_test u))"
    using any_Stop_ok [of E i "with_sid (a_next_stream b) t"] assms(4) by simp
  then have "returns (rmap snd (any_Stop E i (with_sid (a_next_stream b) t)))
      (\<lambda>u. \<forall>c. called k u b c \<longrightarrow> stopped_upto (insert k ks) a c)"
    by (rule returns_rmap [OF returns_mono])
      (use assms(1,2) b in \<open>auto simp: called_def stopped_upto_def tbl.lookup_update\<close>)
  then show ?thesis by (rule returns_do_test [OF b])
qed

lemma stop_all:
  assumes "stopped_upto ks a b" and "set ns \<subseteq> dom (map_of (test_tbl a))" and "distinct ns" and "ks \<inter> set ns = {}"
    and "\<And>k t. map_of (test_tbl a) k = Some t \<Longrightarrow> any_can_stop E (ins k) t"
  shows "returns (rfold (\<lambda>k. do_test E k (\<lambda>t. rmap snd (any_Stop E (ins k) t))) ns b) (stopped_upto (ks \<union> set ns) a)"
  using assms(1-4)
proof (induction ns arbitrary: ks b)
  case (Cons k ns)
  then obtain t where t: "map_of (test_tbl a) k = Some t" by auto
  have "returns (do_test E k (\<lambda>t. rmap snd (any_Stop E (ins k) t)) b) (stopped_upto (insert k ks) a)"
    by (rule stop_one [OF Cons.prems(1) t]) (use Cons.prems(4) assms(5) [OF t] in auto)
  then have "returns (do_test E k (\<lambda>t. rmap snd (any_Stop E (ins k) t)) b)
      (\<lambda>c. returns (rfold (\<lambda>k. do_test E k (\<lambda>t. rmap snd (any_Stop E (ins k) t))) ns c) (stopped_upto (insert k ks \<union> set ns) a))"
    by (rule returns_mono) (rule Cons.IH, use Cons.prems in auto)
  then show ?case by (simp add: returns_bind)
qed (simp add: returns_def)


definition example_api :: "(u64 list, unit, File list) IperfBatsApi" where
  "example_api = (new_api 1)\<lparr>test_tbl := [(5, Gen (example_test ROLE_SENDER)), (6, Ft (example_sending\<lparr>test_id := 6\<rparr>))]\<rparr>"

definition example_stops :: "u32 \<Rightarrow> api_in" where
  "example_stops k = example_api_in\<lparr>file_input := (file_input example_api_in)\<lparr>fi_join := (\<lambda>i. replicate 5 ok_obs)\<rparr>\<rparr>"


end
