(* ===== verification/Api_Loops.thy ===== *)
theory Api_Loops
  imports Api_Properties
begin

text \<open>
  The server's control channel and the polling loops of \<open>IperfBatsApi\<close>: how tests come into the table and leave it,
  and that the waits of the sender end.
\<close>

section \<open>A new test\<close>

definition server_output :: "test_out \<Rightarrow> bool" where
  "server_output x \<longleftrightarrow> x \<noteq> SenderInfo \<and> x \<noteq> SenderFailure"

lemma server_prints:
  assumes "list_all server_output xs"
  shows "returns (rfold (print_out E) xs a) (same_but_output a)"
  using assms
proof (induction xs arbitrary: a)
  case (Cons x xs)
  have "returns (print_out E x a) (same_but_output a)"
    using Cons.prems by (cases x) (simp_all add: server_output_def returns_def PrintSentSummaryHeader_def PrintRecvSummaryHeader_def)
  then have "returns (print_out E x a) (\<lambda>b. returns (rfold (print_out E) xs b) (same_but_output a))"
    by (rule returns_mono) (rule returns_mono [OF Cons.IH], use Cons.prems in \<open>auto intro: same_trans\<close>)
  then show ?case by (simp add: returns_bind)
qed (simp add: returns_def)

lemma parameters_output:
  assumes "is_parameters m ident c wi wt" and "HandleControlMessage E ci cn m u = Inr v" and "t_out u = []"
  shows "list_all server_output (t_out v)"
proof -
  obtain h where "read_control m = Inr h" "ctl_action_code h = 2" using assms(1) by (auto simp: is_parameters_def)
  then show ?thesis
    using assms(2,3) by (auto simp: HandleControlMessage_def HandleTestParameters_def SendAck_def send_ctrl_def rbind_eq_Inr Let_def
        ack_state_def server_output_def t_emit_def split: if_splits option.splits)
qed

lemma new_receiver_fields:
  fixes n :: int
  shows "t_state (new_test_id ident c n) = TEST_NONE" "t_out (new_test_id ident c n) = []" "test_id (new_test_id ident c n) = ucast ident"
    "test_streams (new_test_id ident c n) = []"
  by (simp_all add: new_test_id_def new_IIperfTest_def IIperfTest.defs IperfTest.defs)

lemma set_up_receiver:
  assumes "set_up name (set_receiver (Gen t)) = Gen u"
  shows "t_state u = t_state t" "t_out u = t_out t" "test_id u = test_id t" "printer u" "test_streams u = test_streams t"
  using assms by (auto simp: SetResolution_def SetBoundInf_def SetPrinter_def SetRole_def)

lemma server_new_test:
  fixes a :: "('r, 'f, 'q) IperfBatsApi"
  assumes m: "is_parameters m ident c wi wt"
    and fit: "0 \<le> protocol c" "protocol c < 256" "0 \<le> port c" "port c < 65536"
    and ms: "timeout_of (TestConfig_init\<lparr>interval := seconds_of_wire wi, time := seconds_of_wire wt\<rparr>) = Inr ms"
    and new: "map_of (test_tbl a) ident = None" "ident \<noteq> 0"
  shows "returns (api_HandleControlMessage E i cn m a) (\<lambda>b. \<exists>v. test_tbl b = test_tbl a @ [(ident, Gen v)]
    \<and> t_state v = TEST_START \<and> knows c wi wt v \<and> (\<exists>addr bc. Listen addr (word_of_int (port c)) bc \<in> set (t_out v))
    \<and> a_calls b = a_calls a @ [ASetCallback cn (Some ident)])"
proof -
  obtain h where h: "read_control m = Inr h" "ctl_test_id h = ident" "ctl_action_code h = 2"
    using m by (auto simp: is_parameters_def)
  define t :: "('r, 'f) IperfTest" where "t = new_test_id (ucast ident) (cli_config (a_cli a)) (a_next_stream a)"
  have r: "received_test E h a = Some (Gen t)" using h by (simp add: received_test_def t_def)
  obtain u where u: "set_up (cli_interface (a_cli a)) (set_receiver (Gen t)) = (Gen u :: ('r, 'f, 'q) any_test)" by simp
  have tf: "t_state t = TEST_NONE" "t_out t = []" "test_id t = ident" "test_streams t = []"
    unfolding t_def by (simp_all add: new_receiver_fields)
  note uf = set_up_receiver [OF u, unfolded tf]
  have id: "test_id u = ident" using uf(3) by simp
  obtain v where v: "HandleControlMessage (gen_env E) (ctrl_input i) cn m u = Inr v" "t_state v = TEST_START" "knows c wi wt v"
      "\<exists>addr bc. Listen addr (word_of_int (port c)) bc \<in> set (t_out v)"
    using parameters_received [of m u c wi wt ms "gen_env E" "ctrl_input i" cn] m fit ms uf id new(2)
    by (auto simp: returns_def)
  have vid: "test_id v = ident" using HandleControlMessage_id [OF v(1)] id by simp
  obtain b where b: "rfold (print_out E) (t_out v) a = Inr b" "same_but_output a b"
    using server_prints [OF parameters_output [OF m v(1) uf(2)], of E a] by (auto simp: returns_def)
  have "api_HandleControlMessage E i cn m a = Inr (a_emit (ASetCallback cn (Some ident))
      (b\<lparr>test_tbl := tbl_insert ident (Gen v) (test_tbl b), a_next_stream := g_stream_id v\<rparr>))"
    using h new r u v(1) b(1) tf(2) vid by (simp add: api_HandleControlMessage_def any_Id_eq)
  then show ?thesis
    using v(2-4) b(2) new(1) by (auto simp: returns_def a_emit_def tbl_insert_def same_but_outputD)
qed

text \<open>
  C13. The first message of a client makes its test at the server: the parameters that a sender emits, received by a server
  that does not know the sender's id, add exactly one test to the table, under that id. It has the
  sender's parameters, is started, listens on the data port, and the control channel is from then on bound to it.
\<close>

theorem server_creates_test:
  assumes "ctrl_chn t = Some cn" "test_id t \<noteq> 0"
    and "seconds_to_wire (interval (t_config t)) = Inr wi" "seconds_to_wire (time (t_config t)) = Inr wt"
      "timeout_of (TestConfig_init\<lparr>interval := seconds_of_wire wi, time := seconds_of_wire wt\<rparr>) = Inr ms"
      "0 \<le> protocol (t_config t)" "protocol (t_config t) < 256" "0 \<le> port (t_config t)" "port (t_config t) < 65536"
    and "map_of (test_tbl a) (test_id t) = None"
  shows "returns (SendTestParameters t) (\<lambda>t'. \<exists>msg. last (t_out t') = CtrlSend cn msg \<and>
    returns (api_ControlChannelConnectionCallback E i cn' BATS_CONNECTION_DATA_RECEIVED msg user a) (\<lambda>b.
      \<exists>v. test_tbl b = test_tbl a @ [(test_id t, Gen v)] \<and> t_state v = TEST_START \<and> knows (t_config t) wi wt v
        \<and> (\<exists>addr bc. Listen addr (word_of_int (port (t_config t))) bc \<in> set (t_out v))
        \<and> a_calls b = a_calls a @ [ASetCallback cn' (Some (test_id t))]))"
proof -
  obtain m where m: "is_parameters m (test_id t) (t_config t) wi wt"
      "SendTestParameters t = Inr ((t_emit (CtrlSend cn m) t)\<lparr>t_state := TEST_EXCHANGE_PARAMETERS\<rparr>)"
    using parameters_sent [OF assms(1-4)] by auto
  show ?thesis
    unfolding m(2) using server_new_test [OF m(1) assms(6-9,5,10,2), of E i cn'] t_emit_def
    by (auto simp: returns_def [of "Inr _"] api_ControlChannelConnectionCallback_def t_emit_def)
qed

theorem server_creates_test_witness:
  "\<exists>t' msg b v. SendTestParameters (example_test ROLE_SENDER) = Inr t' \<and> last (t_out t') = CtrlSend 3 msg
     \<and> api_ControlChannelConnectionCallback example_api_env example_api_in 4 BATS_CONNECTION_DATA_RECEIVED msg None (new_api 1) = Inr b
     \<and> test_tbl b = [(5, Gen v)] \<and> t_state v = TEST_START \<and> port (t_config v) = 5201"
proof -
  have w: "seconds_to_wire (Fin 1) = Inr 100" "seconds_to_wire (Fin 10) = Inr 1000"
    "timeout_of (TestConfig_init\<lparr>interval := seconds_of_wire 100, time := seconds_of_wire 1000\<rparr>) = Inr 10000" by code_simp+
  have "test_tbl (new_api 1) = []" by (simp add: new_api_def)
  then show ?thesis
    using server_creates_test [of "example_test ROLE_SENDER" 3 100 1000 10000 "new_api 1" example_api_env example_api_in 4 None] w
    by (force simp: example_config_fields returns_def knows_def)
qed

section \<open>A test leaves the table\<close>

text \<open>A test that has nothing left to do; the next poll counts its ticks once more.\<close>

fun over :: "('r, 'f, 'q) any_test \<Rightarrow> bool" where
  "over (Gen t) \<longleftrightarrow> t_state t = TEST_DONE \<and> test_streams t = [] \<and> (printer t \<or> role (t_config t) \<noteq> ROLE_RECEIVER)"
| "over (Ft x) \<longleftrightarrow> t_state x = TEST_DONE \<and> x_streams x = []"

definition can_tick :: "TestConfig \<Rightarrow> int \<Rightarrow> bool" where
  "can_tick c n \<longleftrightarrow> n < 2 ^ 31 - 1 \<and> (\<exists>k. ticks_per_interval c = Inr k \<and> k \<noteq> 0)"

fun pollable :: "('r, 'f, 'q) any_test \<Rightarrow> bool" where
  "pollable (Gen t) \<longleftrightarrow> can_tick (t_config t) (passed_ticks t)"
| "pollable (Ft x) \<longleftrightarrow> True"

lemma can_tick_ok: "can_tick (t_config t) (passed_ticks t) \<Longrightarrow> \<exists>due u. tick t = Inr (due, u)"
  by (auto simp: can_tick_def tick_def guard_def Let_def)

lemma over_keeps [simp]:
  "over (with_sid n t) = over t" "pollable (with_sid n t) = pollable t" "pollable (any_CloseCtrlChannel t) = pollable t"
  "any_stopped (any_CloseCtrlChannel t) = any_stopped t" "any_can_stop E i (any_CloseCtrlChannel t) = any_can_stop E i t"
  by (cases t; simp add: CloseCtrlChannel_def printable_def stoppable_def can_send_def)+

lemma tick_fields: "tick t = Inr (due, u) \<Longrightarrow> t_state u = t_state t \<and> test_streams u = test_streams t \<and> printer u = printer t \<and> t_config u = t_config t"
  by (auto simp: tick_def rbind_eq_Inr Let_def split: if_splits)

lemma over_polled:
  assumes "over t" and "pollable t"
  shows "returns (any_TestFinishState ck t) (\<lambda>(_, u). over u \<and> any_id u = any_id t)"
proof (cases t)
  case (Gen x)
  obtain due y where y: "tick x = Inr (due, y)" using assms(2) Gen can_tick_ok by fastforce
  then show ?thesis
    using assms(1) Gen tick_fields [OF y] tick_id [OF y]
    by (auto simp: TestFinishState_def CheckStreamIntervalReceive_def returns_def)
next
  case (Ft x)
  then show ?thesis using assms(1) by (simp add: file_TestFinishState_def file_IsStreamDone_def returns_def Let_def)
qed

lemma over_done: "over t \<Longrightarrow> GetState t = TEST_DONE \<and> any_IsStreamDone t = (True, t)"
  by (cases t) (simp_all add: IsStreamDone_def file_IsStreamDone_def Let_def)

lemma over_printed: "over t \<Longrightarrow> returns (any_TryPrintSummary t) (\<lambda>u. over u \<and> any_id u = any_id t)"
  by (cases t) (auto simp: TryPrintSummary_def t_emit_def returns_def)

lemma tbl_erase_update: "tbl_erase k (tbl_update k u m) = tbl_erase k m"
  by (induction m) (auto simp: tbl_erase_def tbl_update_def)

lemma example_stopped [simp]: "\<not> t_stopped (example_test r)"
  by (simp add: example_test_def new_test_id_def new_IIperfTest_def IIperfTest.defs IperfTest.defs)

lemma poll_over:
  assumes "map_of (test_tbl a) k = Some t" and "over t" and "pollable t" and "any_id t \<noteq> 0"
  shows "returns (poll_test E ck k (a, dying)) (\<lambda>(b, dying'). test_tbl b = tbl_erase k (test_tbl a)
    \<and> (\<exists>u. any_id u = any_id t \<and> dying' = dying @ [(u, 0)]))"
proof -
  let ?at = "\<lambda>b u. over u \<and> any_id u = any_id t \<and> test_tbl b = tbl_update k u (test_tbl a)"
  have look: "map_of (test_tbl b) k = Some u" if "?at b u" for b u using that assms(1) by (simp add: tbl.lookup_update)
  have upd: "tbl_update k v (tbl_update k u m) = tbl_update k v m" for u v and m :: "(u32 \<times> ('a, 'b, 'c) any_test) list"
    by (auto simp: tbl_update_def)
  have step: "returns (call_test E k f b) (\<lambda>(x, c). P x \<and> (\<exists>v. ?at c v))"
    if "?at b u" "\<And>u. over u \<Longrightarrow> any_id u = any_id t \<Longrightarrow> returns (f u) (\<lambda>(x, v). P x \<and> over v \<and> any_id v = any_id t)" for b u P and f :: "_ \<Rightarrow> ('z \<times> _) res"
    by (rule returns_call_test [OF look [OF that(1)]], rule returns_mono [OF that(2)])
      (use that(1) in \<open>auto simp: called_def upd\<close>)
  have "returns (call_test E k (any_TestFinishState ck) a) (\<lambda>(_, b). \<exists>u. ?at b u)"
    by (rule returns_call_test [OF assms(1)], rule returns_mono [OF over_polled]) (use assms in \<open>auto simp: called_def\<close>)
  then obtain x1 b1 u1 where 1: "call_test E k (any_TestFinishState ck) a = Inr (x1, b1)" "?at b1 u1" by (auto simp: returns_def)
  have "returns (call_test E k (\<lambda>t. Inr (if GetState t = TEST_DONE then any_IsStreamDone t else (False, t))) b1) (\<lambda>(x, b). x \<and> (\<exists>u. ?at b u))"
    by (rule step [OF 1(2), of _ "\<lambda>x. x"]) (simp add: over_done returns_def)
  then obtain b2 u2 where 2: "call_test E k (\<lambda>t. Inr (if GetState t = TEST_DONE then any_IsStreamDone t else (False, t))) b1 = Inr (True, b2)" "?at b2 u2"
    by (auto simp: returns_def)
  have "returns (call_test E k (\<lambda>t. rmap (\<lambda>n. (n, t)) (any_Id t)) b2) (\<lambda>(x, b). True \<and> (\<exists>u. ?at b u))"
    by (rule step [OF 2(2)]) (use assms(4) in \<open>simp add: any_Id_eq returns_def\<close>)
  then obtain x3 b3 u3 where 3: "call_test E k (\<lambda>t. rmap (\<lambda>n. (n, t)) (any_Id t)) b2 = Inr (x3, b3)" "?at b3 u3" by (auto simp: returns_def)
  have "returns (do_test E k any_TryPrintSummary b3) (\<lambda>b. \<exists>u. ?at b u)"
    by (rule returns_do_test [OF look [OF 3(2)]], rule returns_mono [OF over_printed]) (use 3(2) in \<open>auto simp: called_def upd\<close>)
  then obtain b4 u4 where 4: "do_test E k any_TryPrintSummary b3 = Inr b4" "?at b4 u4" by (auto simp: returns_def)
  show ?thesis using 1(1) 2(1) 3(1) 4 look [OF 4(2)] by (auto simp: poll_test_def returns_def tbl_erase_update)
qed

lemma any_Stop_over:
  assumes "any_can_stop E i t" and "\<not> any_stopped t" and "pollable t"
  shows "returns (any_Stop E i t) (\<lambda>(r, u). over u \<and> pollable u \<and> any_id u = any_id t)"
proof (cases t)
  case (Gen x)
  have "returns (StopTest (ci_clock (ctrl_input i)) x) (\<lambda>(r, u). over (Gen u) \<and> pollable (Gen u) \<and> test_id u = test_id x)"
    using assms Gen by (cases "role (t_config x) = ROLE_RECEIVER")
      (simp_all add: StopTest_def TryPrintSummary_def printable_def t_emit_def returns_def)
  then show ?thesis unfolding Gen any_Stop.simps by (rule returns_rmap [OF returns_mono]) auto
next
  case (Ft x)
  then have "\<not> t_stopped x" "stoppable (ft_env E) (fi_join (file_input i)) x" using assms by auto
  from file_Stop_first [OF this] show ?thesis unfolding Ft any_Stop.simps by (rule returns_rmap [OF returns_mono]) auto
qed

lemma reap_bound: "\<forall>(t, n) \<in> set dying. c \<le> n \<Longrightarrow> \<forall>(t, n) \<in> set (reap chn dying). Suc c \<le> n \<and> n \<le> 11"
  by (auto simp: reap_def)

lemma reaped_bounded: "length chns + c = 12 \<Longrightarrow> \<forall>(t, n) \<in> set dying. c \<le> n \<and> n \<le> 11 \<Longrightarrow> fold reap chns dying = []"
proof (induction chns arbitrary: c dying)
  case Nil
  then have "x \<notin> set dying" for x by (cases x) fastforce
  then show ?case by (cases dying) auto
next
  case (Cons b chns)
  have "\<forall>(t, n) \<in> set (reap b dying). Suc c \<le> n \<and> n \<le> 11" using reap_bound [of dying c b] Cons.prems(2) by auto
  then show ?case using Cons.IH [of "Suc c"] Cons.prems(1) by simp
qed

lemma reaped: "length chns = 12 \<Longrightarrow> fold reap chns dying = []"
  using reap_bound [of dying 0 "hd chns"] reaped_bounded [of "tl chns" 1 "reap (hd chns) dying"] by (cases chns) auto

text \<open>
  C12. A client that disconnects leaves no test behind: the callback of the control channel stops the client's test, the next
  poll takes it out of the table, all other tests stay, and after twelve rounds of the server's loop it is
  released.
\<close>

theorem disconnected_test_removed:
  assumes "map_of (test_tbl a) k = Some t" and "any_can_stop E i t" and "\<not> any_stopped t" and "pollable t" and "any_id t \<noteq> 0"
    and "event = BATS_CONNECTION_FAILED \<or> event = BATS_CONNECTION_CLOSED \<or> event = BATS_CONNECTION_SHUTDOWN_BY_PEER"
    and "length chns = 12"
  shows "returns (api_ControlChannelConnectionCallback E i cn event d (Some k) a) (\<lambda>b. \<not> is_ctrl_chn_connected b
    \<and> returns (poll_test E ck k (b, dying)) (\<lambda>(c, dying'). test_tbl c = tbl_erase k (test_tbl a)
        \<and> (\<exists>u. any_id u = any_id t \<and> dying' = dying @ [(u, 0)]) \<and> fold reap chns dying' = []))"
proof -
  let ?f = "\<lambda>t. rmap snd (any_Stop E i (any_CloseCtrlChannel t))"
  have "returns (any_Stop E i (any_CloseCtrlChannel (with_sid (a_next_stream a) t))) (\<lambda>(r, u). over u \<and> pollable u \<and> any_id u = any_id t)"
    using any_Stop_over [of E i "any_CloseCtrlChannel (with_sid (a_next_stream a) t)"] assms(2-4) by simp
  then have "returns (do_test E k ?f a) (\<lambda>b. \<exists>u. test_tbl b = tbl_update k u (test_tbl a) \<and> over u \<and> pollable u \<and> any_id u = any_id t)"
    by (intro returns_do_test [OF assms(1)] returns_rmap) (auto simp: called_def elim!: returns_mono)
  then obtain b u where b: "do_test E k ?f a = Inr b" "test_tbl b = tbl_update k u (test_tbl a)" "over u" "pollable u" "any_id u = any_id t"
    by (auto simp: returns_def)
  let ?b = "b\<lparr>is_ctrl_chn_connected := False\<rparr>"
  have "map_of (test_tbl ?b) k = Some u" using b(2) assms(1) by (simp add: tbl.lookup_update)
  from poll_over [OF this b(3,4), of E ck dying] have
    "returns (poll_test E ck k (?b, dying)) (\<lambda>(c, dying'). test_tbl c = tbl_erase k (test_tbl a)
        \<and> (\<exists>u. any_id u = any_id t \<and> dying' = dying @ [(u, 0)]) \<and> fold reap chns dying' = [])"
    using assms(5) b(2,5) by (auto simp: tbl_erase_update reaped [OF assms(7)] elim!: returns_mono)
  then show ?thesis
    using b(1) assms(1,6) by (auto simp: api_ControlChannelConnectionCallback_def returns_def [of "Inr _"])
qed

lemma example_can_tick: "can_tick (example_config r) 0"
proof -
  have "ticks_per_interval (example_config r) = Inr 1"
    by (simp add: ticks_per_interval_def example_config_fields) code_simp
  then show ?thesis by (simp add: can_tick_def)
qed

theorem disconnected_test_removed_witness:
  "returns (api_ControlChannelConnectionCallback example_api_env (example_stops 5) 4 BATS_CONNECTION_CLOSED [] (Some 5) example_api)
     (\<lambda>b. returns (poll_test example_api_env (example_clock 9) 5 (b, [])) (\<lambda>(c, dying). map fst (test_tbl c) = [6]
       \<and> length dying = 1 \<and> fold reap (replicate 12 True) dying = []))"
proof -
  have t: "map_of (test_tbl example_api) 5 = Some (Gen (example_test ROLE_SENDER))" by (simp add: example_api_def)
  have e: "map fst (tbl_erase 5 (test_tbl example_api)) = [6]" by (simp add: example_api_def tbl_erase_def)
  have ok: "any_can_stop example_api_env (example_stops 5) (Gen (example_test ROLE_SENDER))" "\<not> any_stopped (Gen (example_test ROLE_SENDER))"
      "pollable (Gen (example_test ROLE_SENDER))" "any_id (Gen (example_test ROLE_SENDER)) \<noteq> 0"
    by (simp_all add: printable_def example_can_tick example_stopped)
  have "length (replicate 12 True) = 12" by simp
  from disconnected_test_removed [OF t ok, of BATS_CONNECTION_CLOSED, OF _ this, of 4 "[]" "example_clock 9" "[]"]
  show ?thesis by (rule returns_mono) (use e in \<open>auto elim!: returns_mono\<close>)
qed

text \<open>
  C36. A message that comes too late ends the server: once a finished test has left the table, any message with its
  id that does not ask for a new test leads to a call through a null pointer.
\<close>

theorem late_message_crashes_server:
  assumes "map_of (test_tbl a) k = Some t" and "over t" and "pollable t" and "any_id t \<noteq> 0"
    and "read_control m = Inr h" and "ctl_test_id h = k" and "ctl_action_code h \<noteq> 1" and "ctl_action_code h \<noteq> 2"
  shows "returns (poll_test E ck k (a, dying)) (\<lambda>(b, _).
    api_ControlChannelConnectionCallback E i cn BATS_CONNECTION_DATA_RECEIVED m user b = Inl NullDeref)"
  using poll_over [OF assms(1-4), of E ck dying] assms(5-8)
  by (auto simp: api_ControlChannelConnectionCallback_def api_HandleControlMessage_def received_test_def tbl.lookup_erase
      elim!: returns_mono)

definition example_over :: "(u64 list, unit, File list) IperfBatsApi" where
  "example_over = (new_api 1)\<lparr>test_tbl := [(5, Gen ((example_test ROLE_RECEIVER)\<lparr>t_state := TEST_DONE\<rparr>))]\<rparr>"

theorem late_message_crashes_server_witness:
  "\<exists>m. write_control (replicate 300 0) (control_message 5 0x03) = Inr m \<and> returns (poll_test example_api_env (example_clock 9) 5 (example_over, []))
     (\<lambda>(b, _). api_ControlChannelConnectionCallback example_api_env example_api_in 4 BATS_CONNECTION_DATA_RECEIVED m (Some 5) b = Inl NullDeref)"
proof -
  obtain m where m: "write_control (replicate 300 0) (control_message 5 0x03) = Inr m" "read_control m = Inr (control_message 5 0x03)"
    using write_control_ok [of "replicate 300 0" "control_message 5 0x03"] by auto
  have t: "map_of (test_tbl example_over) 5 = Some (Gen ((example_test ROLE_RECEIVER)\<lparr>t_state := TEST_DONE\<rparr>))" by (simp add: example_over_def)
  have "returns (poll_test example_api_env (example_clock 9) 5 (example_over, []))
     (\<lambda>(b, _). api_ControlChannelConnectionCallback example_api_env example_api_in 4 BATS_CONNECTION_DATA_RECEIVED m (Some 5) b = Inl NullDeref)"
    by (rule late_message_crashes_server [OF t _ _ _ m(2)]) (simp_all add: example_can_tick control_message_def)
  then show ?thesis using m(1) by blast
qed

section \<open>The waits of the sender\<close>

text \<open>What the other threads do during one round leaves the test in the table and does not fault.\<close>

definition keeps_test :: "('r, 'f, 'q) api_env \<Rightarrow> u32 \<Rightarrow> api_event list \<Rightarrow> bool" where
  "keeps_test E k evs \<longleftrightarrow> (\<forall>a. map_of (test_tbl a) k \<noteq> None \<longrightarrow> returns (run_events (api_step E) evs a) (\<lambda>b. map_of (test_tbl b) k \<noteq> None))"

lemma returns_call_pure:
  assumes "map_of (test_tbl a) k \<noteq> None"
  shows "returns (call_test E k (\<lambda>t. Inr (f t)) a) (\<lambda>(x, b). (\<exists>t. x = fst (f t)) \<and> map_of (test_tbl b) k \<noteq> None)"
proof -
  obtain t where t: "map_of (test_tbl a) k = Some t" using assms by auto
  then have "map_of (tbl_update k u (test_tbl a)) k = Some u" for u by (simp add: tbl.lookup_update)
  then show ?thesis by (intro returns_call_test [OF t]) (auto simp: returns_def called_def case_prod_beta)
qed

lemma returns_do_pure:
  assumes "map_of (test_tbl a) k \<noteq> None"
  shows "returns (do_test E k (\<lambda>t. Inr (f t)) a) (\<lambda>b. map_of (test_tbl b) k \<noteq> None)"
proof -
  obtain t where t: "map_of (test_tbl a) k = Some t" using assms by auto
  then have "map_of (tbl_update k u (test_tbl a)) k = Some u" for u by (simp add: tbl.lookup_update)
  then show ?thesis by (intro returns_do_test [OF t]) (auto simp: returns_def called_def)
qed

lemma wait_ready_returns:
  assumes "map_of (test_tbl a) k \<noteq> None" and "\<forall>evs \<in> set rounds. keeps_test E k evs"
    and "n \<le> max_timeout_cnt" and "max_timeout_cnt < length rounds + n"
  shows "returns (wait_ready E k n rounds a) (\<lambda>(ready, b). map_of (test_tbl b) k \<noteq> None)"
  using assms
proof (induction rounds arbitrary: n a)
  case (Cons evs rounds)
  obtain x b where b: "call_test E k (\<lambda>t. Inr (any_IsStreamReady t)) a = Inr (x, b)" "map_of (test_tbl b) k \<noteq> None"
    using returns_call_pure [OF Cons.prems(1), of E any_IsStreamReady] by (auto simp: returns_def)
  obtain c where c: "run_events (api_step E) evs b = Inr c" "map_of (test_tbl c) k \<noteq> None"
    using Cons.prems(2) b(2) by (auto simp: keeps_test_def returns_def)
  have "returns (wait_ready E k (n + 1) rounds c) (\<lambda>(ready, b). map_of (test_tbl b) k \<noteq> None)"
    if "n + 1 \<le> max_timeout_cnt" using Cons.IH [OF c(2), of "n + 1"] Cons.prems that by simp
  then show ?case using b c by (subst wait_ready.simps) (auto simp: returns_def [of "Inr _"])
qed simp

lemma wait_done_returns:
  assumes "map_of (test_tbl a) k \<noteq> None" and "\<forall>evs \<in> set rounds. keeps_test E k evs" and "n \<le> length rounds"
  shows "returns (wait_done E k n rounds a) (\<lambda>(m, b). m \<le> n \<and> map_of (test_tbl b) k \<noteq> None)"
  using assms
proof (induction n arbitrary: rounds a)
  case (Suc n)
  then obtain evs rest where rounds: "rounds = evs # rest" by (cases rounds) auto
  obtain x b where b: "call_test E k (\<lambda>t. Inr (sender_done t)) a = Inr (x, b)" "map_of (test_tbl b) k \<noteq> None"
    using returns_call_pure [OF Suc.prems(1), of E sender_done] by (auto simp: returns_def)
  obtain c where c: "do_test E k (\<lambda>t. Inr (snd (any_IsStreamDone t))) b = Inr c" "map_of (test_tbl c) k \<noteq> None"
    using returns_do_pure [OF b(2), of E "\<lambda>t. snd (any_IsStreamDone t)"] by (auto simp: returns_def)
  obtain d where d: "run_events (api_step E) evs c = Inr d" "map_of (test_tbl d) k \<noteq> None"
    using Suc.prems(2) c(2) rounds by (auto simp: keeps_test_def returns_def)
  have "returns (wait_done E k n rest d) (\<lambda>(m, b). m \<le> Suc n \<and> map_of (test_tbl b) k \<noteq> None)"
    using Suc.IH [OF d(2), of rest] Suc.prems rounds by (auto elim!: returns_mono)
  then show ?case using b c d rounds Suc.prems(1) by (auto simp: returns_def [of "Inr _"])
qed (simp add: returns_def)

text \<open>
  The two waits of a client end: the wait for the streams is over after at most 10001 rounds, the wait for the reports
  after 15, whatever the other threads do as long as they leave the test in the table.
\<close>

lemma sender_waits_end:
  assumes "map_of (test_tbl a) k \<noteq> None" and "\<forall>evs \<in> set rounds. keeps_test E k evs"
  shows "(10000 < length rounds \<longrightarrow> returns (wait_ready E k 0 rounds a) (\<lambda>(ready, b). map_of (test_tbl b) k \<noteq> None))
    \<and> (15 \<le> length rounds \<longrightarrow> returns (wait_done E k 15 rounds a) (\<lambda>(n, b). n \<le> 15 \<and> map_of (test_tbl b) k \<noteq> None))"
  using wait_ready_returns [OF assms, of 0] wait_done_returns [OF assms, of 15] by (simp add: max_timeout_cnt_def)

end
