(* ===== verification/Progress_Bar.thy ===== *)
theory Progress_Bar
  imports Config
begin

text \<open>
  The progress bars of a file transfer (\<open>progressbar.h\<close>): \<open>ProgressBar\<close>, one line with its rate, percentage and colours, and
  \<open>CompoundProgressBar\<close>, ten of them on one terminal.

  A call of \<open>get_time_in_us\<close> is an argument \<open>now\<close>; what \<open>system("test $STY")\<close>, \<open>system("test $TMUX")\<close> and \<open>isatty\<close> answer are
  arguments of the constructors. Strings are the bytes that are written: the glyphs of the bars are in UTF-8. Written text is
  appended to \<open>cb_out\<close>. Signed 64-bit arithmetic faults when it overflows, an access outside an array is \<open>OutOfBounds\<close>.
  A NaN is printed without its sign.
\<close>

section \<open>Arithmetic\<close>

definition signed64 :: "int \<Rightarrow> int res" where
  "signed64 n = (if - (2 ^ 63) \<le> n \<and> n < 2 ^ 63 then Inr n else Inl SignedOverflow)"

fun fneg :: "flt \<Rightarrow> flt" where
  "fneg (Fin x) = Fin (- x)"
| "fneg PInf = NInf"
| "fneg NInf = PInf"
| "fneg NaN = NaN"

definition fsub :: "fmt \<Rightarrow> flt \<Rightarrow> flt \<Rightarrow> flt" where
  "fsub f a b = fadd f a (fneg b)"

text \<open>\<open>std::max\<close> and \<open>std::min\<close>; the first argument wins when the two do not compare.\<close>

definition fmax :: "flt \<Rightarrow> flt \<Rightarrow> flt" where
  "fmax a b = (if fless a b then b else a)"

definition fmin :: "flt \<Rightarrow> flt \<Rightarrow> flt" where
  "fmin a b = (if fless b a then b else a)"

text \<open>Conversion of a \<open>double\<close> to \<open>float\<close>.\<close>

definition narrow :: "flt \<Rightarrow> flt" where
  "narrow a = (case a of Fin x \<Rightarrow> fl Single x | _ \<Rightarrow> a)"

text \<open>\<open>%\<close> of C++: the sign of the dividend.\<close>

definition crem :: "int \<Rightarrow> int \<Rightarrow> int" where
  "crem a b = sgn a * (\<bar>a\<bar> mod \<bar>b\<bar>)"

section \<open>State of a bar\<close>

definition MAX_SMOOTH :: nat where "MAX_SMOOTH = 75"

record ProgressBar =
  t_first :: u64
  t_old :: u64
  n_old :: int
  deq_t_arr :: "u64 list"
  deq_n_arr :: "int list"
  deq_head :: nat
  deq_size :: nat
  deq_dtsum :: u64
  deq_dnsum :: int
  nupdates :: int
  pb_total :: int
  period_power :: nat
  smoothing :: nat
  last_div_res :: u64
  use_ema :: bool
  alpha_ema :: flt
  pb_glyphs :: "string list"
  in_screen :: bool
  in_tmux :: bool
  use_colors :: bool
  color_transition :: bool
  pb_width :: int
  right_pad :: string
  pb_label :: string

text \<open>A glyph of the block elements: the byte \<open>0xE2\<close> and two more.\<close>

definition glyph :: "nat \<Rightarrow> nat \<Rightarrow> string" where
  "glyph a b = [CHR 0xE2, char_of a, char_of b]"

definition default_glyphs :: "string list" where
  "default_glyphs = '' '' # map (glyph 0x96) [0x8F, 0x8E, 0x8D, 0x8C, 0x8B, 0x8A, 0x89, 0x88]"

definition set_theme_line :: "ProgressBar \<Rightarrow> ProgressBar" where
  "set_theme_line b = b\<lparr>pb_glyphs := map (glyph 0x94) [0x80, 0x80, 0x80] @ map (glyph 0x95) [0xBE, 0xBE, 0xBE, 0xBE] @
     [glyph 0x94 0x81, glyph 0x95 0x90]\<rparr>"

definition set_theme_circle :: "ProgressBar \<Rightarrow> ProgressBar" where
  "set_theme_circle b = b\<lparr>pb_glyphs := '' '' # map (glyph 0x97) [0x93, 0x91, 0x92, 0x90, 0x93, 0x91, 0x92] @ [''#'']\<rparr>"

definition set_theme_braille :: "ProgressBar \<Rightarrow> ProgressBar" where
  "set_theme_braille b = b\<lparr>pb_glyphs := '' '' # map (glyph 0xA1) [0x80, 0x84, 0x86, 0x87, 0x8F, 0x9F, 0xBF] @ [glyph 0xA3 0xBF]\<rparr>"

definition set_theme_braille_spin :: "ProgressBar \<Rightarrow> ProgressBar" where
  "set_theme_braille_spin b = b\<lparr>pb_glyphs := '' '' # map (glyph 0xA0) [0x99, 0xB9, 0xB8, 0xBC, 0xB4, 0xA6, 0x87, 0xBF]\<rparr>"

definition set_theme_vertical :: "ProgressBar \<Rightarrow> ProgressBar" where
  "set_theme_vertical b = b\<lparr>pb_glyphs := map (glyph 0x96) [0x81, 0x82, 0x83, 0x84, 0x85, 0x86, 0x87, 0x88, 0x88]\<rparr>"

definition set_theme_basic :: "ProgressBar \<Rightarrow> ProgressBar" where
  "set_theme_basic b = b\<lparr>pb_glyphs := replicate 8 '' '' @ [''#''], right_pad := ''|''\<rparr>"

definition new_bar :: "bool \<Rightarrow> bool \<Rightarrow> u64 \<Rightarrow> u64 \<Rightarrow> ProgressBar" where
  "new_bar screen tmux now now' =
     (let b = \<lparr>t_first = now, t_old = now', n_old = 0, deq_t_arr = replicate MAX_SMOOTH 0, deq_n_arr = replicate MAX_SMOOTH 0,
            deq_head = 0, deq_size = 0, deq_dtsum = 0, deq_dnsum = 0, nupdates = 0, pb_total = 0, period_power = 0, smoothing = 50,
            last_div_res = 0, use_ema = True, alpha_ema = fl Single (1 / 10), pb_glyphs = default_glyphs, in_screen = screen,
            in_tmux = tmux, use_colors = True, color_transition = True, pb_width = 40, right_pad = glyph 0x96 0x8F, pb_label = ''''\<rparr>
      in if screen then (set_theme_basic b)\<lparr>color_transition := False\<rparr>
         else if tmux then b\<lparr>color_transition := False\<rparr>
         else b)"

definition reset_bar :: "u64 \<Rightarrow> u64 \<Rightarrow> ProgressBar \<Rightarrow> ProgressBar" where
  "reset_bar now now' b = b\<lparr>t_first := now, t_old := now', n_old := 0, deq_head := 0, deq_size := 0, deq_dtsum := 0, deq_dnsum := 0,
     period_power := 0, nupdates := 0, pb_total := 0, pb_label := ''''\<rparr>"

definition set_label :: "u64 \<Rightarrow> u64 \<Rightarrow> string \<Rightarrow> ProgressBar \<Rightarrow> ProgressBar" where
  "set_label now now' l b = b\<lparr>pb_label := l, t_first := now, t_old := now'\<rparr>"

section \<open>Samples and rates\<close>

definition capacity :: "ProgressBar \<Rightarrow> nat" where
  "capacity b = (let cap = min (smoothing b) MAX_SMOOTH in if cap = 0 then 1 else cap)"

definition push_sample :: "u64 \<Rightarrow> int \<Rightarrow> ProgressBar \<Rightarrow> ProgressBar res" where
  "push_sample dt dn b =
     (let cap = capacity b; h = deq_head b; i = (h + deq_size b) mod cap in
      if deq_size b = cap
      then
        rbind (guard OutOfBounds (h < MAX_SMOOTH)) (\<lambda>_.
        rbind (signed64 (deq_dnsum b - deq_n_arr b ! h)) (\<lambda>s.
        rbind (signed64 (s + dn)) (\<lambda>s.
        Inr (b\<lparr>deq_t_arr := (deq_t_arr b)[h := dt], deq_n_arr := (deq_n_arr b)[h := dn],
               deq_dtsum := deq_dtsum b - deq_t_arr b ! h + dt, deq_dnsum := s, deq_head := (h + 1) mod cap\<rparr>))))
      else
        rbind (signed64 (deq_dnsum b + dn)) (\<lambda>s.
        Inr (b\<lparr>deq_t_arr := (deq_t_arr b)[i := dt], deq_n_arr := (deq_n_arr b)[i := dn],
               deq_dtsum := deq_dtsum b + dt, deq_dnsum := s, deq_size := deq_size b + 1\<rparr>)))"

definition rate_of :: "int \<Rightarrow> u64 \<Rightarrow> flt" where
  "rate_of n t = fmul Double (fdiv Double (fl_int Double n) (fl_int Double (uint t))) (Fin 1000000)"

definition smooth :: "flt \<Rightarrow> flt \<Rightarrow> flt \<Rightarrow> flt" where
  "smooth alpha r avg = fadd Double (fmul Double alpha r) (fmul Double (fsub Double (Fin 1) alpha) avg)"

text \<open>The rate of the sample in cell \<open>idx\<close> of the two arrays.\<close>

definition cell_rate :: "ProgressBar \<Rightarrow> nat \<Rightarrow> flt" where
  "cell_rate b idx = rate_of (deq_n_arr b ! idx) (deq_t_arr b ! idx)"

definition average_rate :: "ProgressBar \<Rightarrow> flt" where
  "average_rate b =
     (let cap = capacity b; top = deq_head b + deq_size b - 1 in
      if use_ema b \<and> 0 < deq_size b
      then fold (\<lambda>i. smooth (alpha_ema b) (cell_rate b ((top - i + cap) mod cap))) [1 ..< deq_size b] (cell_rate b (top mod cap))
      else if deq_dtsum b \<noteq> 0 then rate_of (deq_dnsum b) (deq_dtsum b)
      else Fin 0)"

section \<open>The period of redrawing\<close>

definition shown_div :: "nat \<Rightarrow> int \<Rightarrow> u64" where
  "shown_div p cur = drop_bit p (word_of_int cur)"

text \<open>\<open>pow\<close> of the loop is \<open>2 ^ p\<close>.\<close>

function power_for :: "int \<Rightarrow> nat \<Rightarrow> nat" where
  "power_for raw p = (if 2 ^ p < raw then power_for raw (Suc p) else p)"
  by pat_completeness auto
termination
  by (relation "measure (\<lambda>(raw, p). nat (raw - 2 ^ p))") auto

declare power_for.simps [simp del]

definition raw_period :: "int \<Rightarrow> u64 \<Rightarrow> int res" where
  "raw_period cur dt_tot =
     to_i64 (fmin (fmax (fdiv Double (fmul Double (fl Double (1 / 25)) (fl_int Double cur)) (fl_int Double (uint dt_tot))) (Fin 1))
               (Fin 500000))"

definition update_period :: "int \<Rightarrow> u64 \<Rightarrow> ProgressBar \<Rightarrow> ProgressBar res" where
  "update_period cur dt_tot b =
     (if nupdates b \<le> 10 then Inr b
      else
        rbind (raw_period cur dt_tot) (\<lambda>raw.
        (let p = power_for raw 0 in
         Inr (b\<lparr>smoothing := min MAX_SMOOTH (25 * 3), period_power := p, last_div_res := shown_div p cur\<rparr>))))"

section \<open>The line of a bar\<close>

definition to_byte_level :: "flt \<Rightarrow> int res" where
  "to_byte_level x = to_i64 (fmul Single (Fin 255) x)"

definition hsv_to_rgb :: "flt \<Rightarrow> flt \<Rightarrow> flt \<Rightarrow> (int \<times> int \<times> int) res" where
  "hsv_to_rgb h s v =
     (if fless s (fl Single (1 / 1000000)) then rmap (\<lambda>x. (x, x, x)) (to_i64 (fmul Single v (Fin 255)))
      else
        (let h6 = fmul Single h (Fin 6); one_minus = fsub Single (Fin 1) in
         rbind (to_i64 h6) (\<lambda>i.
         (let f = fsub Single h6 (fl_int Single i) in
          rbind (to_byte_level (fmul Single v (one_minus s))) (\<lambda>p.
          rbind (to_byte_level (fmul Single v (one_minus (fmul Single s f)))) (\<lambda>q.
          rbind (to_byte_level (fmul Single v (one_minus (fmul Single s (one_minus f))))) (\<lambda>t.
          rbind (to_i64 (fmul Single v (Fin 255))) (\<lambda>vi.
          (let i = crem i 6 in
           Inr (if i = 0 then (vi, t, p) else if i = 1 then (q, vi, p) else if i = 2 then (p, vi, t)
                else if i = 3 then (p, q, vi) else if i = 4 then (t, p, vi) else (vi, p, q)))))))))))"

definition esc :: "string \<Rightarrow> string" where
  "esc s = CHR 0x1B # s"

text \<open>\<open>snprintf\<close> into a buffer of \<open>n\<close> bytes and \<open>append\<close> of as many bytes as \<open>snprintf\<close> returns.\<close>

definition append_printf :: "nat \<Rightarrow> string \<Rightarrow> string res" where
  "append_printf n txt =
     (if length txt < n then Inr txt
      else if length txt = n then Inr (take (n - 1) txt @ [CHR 0x00])
      else Inl OutOfBounds)"

text \<open>The field width of a conversion.\<close>

definition field :: "nat \<Rightarrow> string \<Rightarrow> string" where
  "field n s = replicate (n - length s) (CHR '' '') @ s"

definition color_text :: "flt \<Rightarrow> ProgressBar \<Rightarrow> string res" where
  "color_text pct b =
     (if \<not> use_colors b then Inr ''''
      else if color_transition b
      then
        rbind (hsv_to_rgb (fadd Single (Fin 0) (fdiv Single (fmul Single (fl Single (1 / 100)) (narrow pct)) (Fin 3)))
                 (fl Single (65 / 100)) (Fin 1)) (\<lambda>(r, g, bl).
        append_printf 64 (esc ''[38;2;'' @ show_int r @ '';'' @ show_int g @ '';'' @ show_int bl @ ''m ''))
      else Inr (esc ''[32m ''))"

definition fill_text :: "flt \<Rightarrow> int \<Rightarrow> bool \<Rightarrow> ProgressBar \<Rightarrow> string res" where
  "fill_text fills_d fills open_end b =
     (let full = replicate (nat fills) (hd (last (pb_glyphs b)));
          pad = pb_width b - fills - 1;
          rest = (if 0 < pad then replicate (nat pad) (hd (hd (pb_glyphs b))) else '''') @ '' '' @ right_pad b in
      if in_screen b \<or> \<not> open_end then Inr (full @ rest)
      else
        rbind (to_i32 (fmul Double (Fin 8) (fsub Double fills_d (fl_int Double fills)))) (\<lambda>frac.
        Inr (full @ pb_glyphs b ! nat (min 8 (max 0 frac)) @ rest)))"

definition unit_of :: "flt \<Rightarrow> string \<times> flt" where
  "unit_of avgrate =
     (if fless (Fin 1000000) avgrate then (''MB/s'', Fin 1000000)
      else if fless (Fin 1000) avgrate then (''KB/s'', Fin 1000)
      else (''B/s'', Fin 1))"

definition stats_text :: "int \<Rightarrow> int \<Rightarrow> flt \<Rightarrow> u64 \<Rightarrow> string res" where
  "stats_text cur tot avgrate passed =
     (let (unit, scale) = unit_of avgrate; us = fl_int Double (uint passed) in
      rbind (to_i64 (fdiv Double us (Fin 1000000))) (\<lambda>passed_s.
      rbind (signed64 (passed_s * 1000)) (\<lambda>s_ms.
      rbind (to_i64 (fsub Double (fdiv Double us (Fin 1000)) (fl_int Double s_ms))) (\<lambda>passed_ms.
      append_printf 128 (''['' @ field 4 (show_int cur) @ ''/'' @ field 4 (show_int tot) @ '' Bytes | '' @
        field 3 (show_fixed 1 (fdiv Double avgrate scale)) @ '' '' @ unit @ '' | time '' @ show_int passed_s @ ''s:'' @
        show_int passed_ms @ ''ms] '')))))"

definition ratio :: "int \<Rightarrow> int \<Rightarrow> flt \<Rightarrow> flt" where
  "ratio cur tot scale = (if tot = 0 then Fin 0 else fmul Double (fdiv Double (fl_int Double cur) (fl_int Double tot)) scale)"

definition line_text :: "u64 \<Rightarrow> int \<Rightarrow> int \<Rightarrow> flt \<Rightarrow> ProgressBar \<Rightarrow> string res" where
  "line_text now cur tot avgrate b =
     rbind (signed64 (tot - cur)) (\<lambda>left.
     (let near = left \<le> 2 ^ period_power b;
          pct = (if near then Fin 100 else ratio cur tot (Fin 100));
          avgrate = (if near \<and> t_first b < t_old b then rate_of tot (t_old b - t_first b) else avgrate);
          cur = (if near then tot else cur);
          fills_d = ratio cur tot (fl_int Double (pb_width b)) in
      rbind (color_text pct b) (\<lambda>colors.
      rbind (to_i64 fills_d) (\<lambda>fills.
      rbind (fill_text fills_d (min (pb_width b) (max 0 fills)) (cur \<noteq> tot) b) (\<lambda>bar.
      rbind (append_printf 64 ('' '' @ field 4 (show_fixed 1 pct) @ ''% '')) (\<lambda>percent.
      rbind (stats_text cur tot avgrate (now - t_first b)) (\<lambda>stats.
      Inr (colors @ bar @ (if use_colors b then esc ''[1m'' @ esc ''[31m'' else '''') @ percent @
           (if use_colors b then esc ''[34m'' else '''') @ stats @ pb_label b @
           (if use_colors b then esc ''[0m'' else '''')))))))))"

text \<open>The empty line: not time to draw yet.\<close>

definition format_line :: "u64 \<Rightarrow> int \<Rightarrow> int \<Rightarrow> ProgressBar \<Rightarrow> (string \<times> ProgressBar) res" where
  "format_line now cur tot b =
     (let cur_div = shown_div (period_power b) cur in
      if cur_div \<le> last_div_res b \<and> cur \<noteq> tot then Inr ('''', b)
      else
        rbind (signed64 (nupdates b + 1)) (\<lambda>n.
        rbind (signed64 (cur - n_old b)) (\<lambda>dn.
        rbind (push_sample (now - t_old b) dn (b\<lparr>last_div_res := cur_div, nupdates := n, n_old := cur, t_old := now\<rparr>)) (\<lambda>b.
        (let avgrate = average_rate b in
         rbind (update_period cur (now - t_first b) b) (\<lambda>b.
         (let b = b\<lparr>pb_total := tot\<rparr> in
          rbind (line_text now cur tot avgrate b) (\<lambda>line. Inr (line, b)))))))))"

text \<open>The single-line form; the result is what is written.\<close>

definition progress :: "u64 \<Rightarrow> int \<Rightarrow> int \<Rightarrow> ProgressBar \<Rightarrow> (string \<times> ProgressBar) res" where
  "progress now cur tot b =
     rbind (format_line now cur tot b) (\<lambda>(line, b).
     if line = '''' then Inr ('''', b)
     else rbind (signed64 (tot - cur)) (\<lambda>_. Inr ([CHR 0x0D] @ '' '' @ line @ [CHR 0x0D] @ '' '', b)))"

definition finish_single :: "u64 \<Rightarrow> ProgressBar \<Rightarrow> (string \<times> ProgressBar) res" where
  "finish_single now b = progress now (pb_total b) (pb_total b) b"

section \<open>Ten bars on a terminal\<close>

definition max_bars :: nat where "max_bars = 10"

record CompoundProgressBar =
  cb_bars :: "ProgressBar list"
  cb_states :: "(int \<times> int) list"
  cb_is_tty :: bool
  layout_initialized :: bool
  cb_out :: string

definition new_compound :: "bool \<Rightarrow> ProgressBar list \<Rightarrow> CompoundProgressBar" where
  "new_compound tty bs = \<lparr>cb_bars = bs, cb_states = replicate max_bars (0, 0), cb_is_tty = tty, layout_initialized = False, cb_out = ''''\<rparr>"

definition cb_write :: "string \<Rightarrow> CompoundProgressBar \<Rightarrow> CompoundProgressBar" where
  "cb_write txt c = c\<lparr>cb_out := cb_out c @ txt\<rparr>"

definition clear_line :: string where
  "clear_line = CHR 0x0D # esc ''[2K''"

definition ensure_layout :: "CompoundProgressBar \<Rightarrow> CompoundProgressBar" where
  "ensure_layout c =
     (if layout_initialized c then c
      else if \<not> cb_is_tty c then c\<lparr>layout_initialized := True\<rparr>
      else (cb_write (concat (replicate max_bars (clear_line @ [CHR 0x0A]))) c)\<lparr>layout_initialized := True\<rparr>)"

definition draw_line :: "u64 \<Rightarrow> nat \<Rightarrow> CompoundProgressBar \<Rightarrow> CompoundProgressBar res" where
  "draw_line now idx c =
     rbind (guard OutOfBounds (idx < max_bars)) (\<lambda>_.
     (case cb_states c ! idx of (cur, tot) \<Rightarrow>
      if tot = 0 then Inr c
      else
        rbind (format_line now cur tot (cb_bars c ! idx)) (\<lambda>(line, b).
        (let c = c\<lparr>cb_bars := (cb_bars c)[idx := b]\<rparr> in
         if line = '''' then Inr c
         else if \<not> cb_is_tty c then Inr (cb_write (line @ [CHR 0x0A]) c)
         else
           Inr (cb_write (esc (''['' @ show_nat (max_bars - idx) @ ''A'') @ clear_line @ line @ [CHR 0x0A] @
                  (if 0 < max_bars - idx - 1 then esc (''['' @ show_nat (max_bars - idx - 1) @ ''B'') else '''') @ [CHR 0x0D])
                  (ensure_layout c))))))"

definition update_state :: "nat \<Rightarrow> int \<Rightarrow> int \<Rightarrow> CompoundProgressBar \<Rightarrow> bool \<times> CompoundProgressBar" where
  "update_state idx cur tot c =
     (if max_bars \<le> idx then (False, c) else (True, c\<lparr>cb_states := (cb_states c)[idx := (cur, tot)]\<rparr>))"

definition register_bar :: "u64 \<Rightarrow> u64 \<Rightarrow> nat \<Rightarrow> string \<Rightarrow> CompoundProgressBar \<Rightarrow> bool \<times> CompoundProgressBar" where
  "register_bar now now' idx label c =
     (if max_bars \<le> idx then (False, c)
      else (True, if label = '''' then c else c\<lparr>cb_bars := (cb_bars c)[idx := set_label now now' label (cb_bars c ! idx)]\<rparr>))"

definition update_bar :: "u64 \<Rightarrow> nat \<Rightarrow> int \<Rightarrow> int \<Rightarrow> CompoundProgressBar \<Rightarrow> CompoundProgressBar res" where
  "update_bar now idx cur tot c = (case update_state idx cur tot c of (ok, c) \<Rightarrow> if ok then draw_line now idx c else Inr c)"

definition finish_bar :: "u64 \<Rightarrow> nat \<Rightarrow> CompoundProgressBar \<Rightarrow> CompoundProgressBar res" where
  "finish_bar now idx c =
     (if \<not> cb_is_tty c then Inr c
      else if \<not> layout_initialized c then Inr c
      else
        rbind (guard OutOfBounds (idx < max_bars)) (\<lambda>_.
        (let tot = snd (cb_states c ! idx) in update_bar now idx tot tot c)))"

definition reset_compound :: "u64 \<Rightarrow> u64 \<Rightarrow> nat \<Rightarrow> CompoundProgressBar \<Rightarrow> CompoundProgressBar res" where
  "reset_compound now now' idx c =
     rbind (guard OutOfBounds (idx < max_bars)) (\<lambda>_.
     Inr (c\<lparr>cb_states := (cb_states c)[idx := (0, 0)], cb_bars := (cb_bars c)[idx := reset_bar now now' (cb_bars c ! idx)]\<rparr>))"

end
