(* ===== verification/Bar_Properties.thy ===== *)
theory Bar_Properties
  imports Progress_Bar
begin

text \<open>
  The two arrays of a \<open>ProgressBar\<close> are a window of its last 75 samples; two defects of the drawing.
\<close>

section \<open>The window of samples\<close>

definition cell :: "ProgressBar \<Rightarrow> nat \<Rightarrow> u64 \<times> int" where
  "cell b j = (deq_t_arr b ! j, deq_n_arr b ! j)"

definition samples :: "ProgressBar \<Rightarrow> (u64 \<times> int) list" where
  "samples b = map (\<lambda>i. cell b ((deq_head b + i) mod capacity b)) [0 ..< deq_size b]"

definition lastn :: "nat \<Rightarrow> 'a list \<Rightarrow> 'a list" where
  "lastn n xs = drop (length xs - n) xs"

definition window_ok :: "ProgressBar \<Rightarrow> bool" where
  "window_ok b \<longleftrightarrow> length (deq_t_arr b) = MAX_SMOOTH \<and> length (deq_n_arr b) = MAX_SMOOTH
     \<and> deq_head b < capacity b \<and> deq_size b \<le> capacity b \<and> (deq_size b < capacity b \<longrightarrow> deq_head b = 0)
     \<and> deq_dtsum b = sum_list (map fst (samples b)) \<and> deq_dnsum b = sum_list (map snd (samples b))"

lemma length_samples [simp]: "length (samples b) = deq_size b"
  by (simp add: samples_def)

lemma capacity_le: "capacity b \<le> MAX_SMOOTH"
  by (simp add: capacity_def MAX_SMOOTH_def Let_def)

lemma samples_nth: "i < deq_size b \<Longrightarrow> samples b ! i = cell b ((deq_head b + i) mod capacity b)"
  by (simp add: samples_def)

lemma samples_append:
  assumes "deq_head b = 0" and "deq_size b < capacity b" and "length (deq_t_arr b) = MAX_SMOOTH" and "length (deq_n_arr b) = MAX_SMOOTH"
    and "capacity b' = capacity b" and "deq_head b' = 0" and "deq_size b' = deq_size b + 1"
    and "deq_t_arr b' = (deq_t_arr b)[deq_size b := dt]" and "deq_n_arr b' = (deq_n_arr b)[deq_size b := dn]"
  shows "samples b' = samples b @ [(dt, dn)]"
proof (rule nth_equalityI)
  show "length (samples b') = length (samples b @ [(dt, dn)])" using assms(7) by simp
  fix i assume "i < length (samples b')"
  then have i: "i < deq_size b + 1" using assms(7) by simp
  then have "i mod capacity b = i" using assms(2) by simp
  moreover have "deq_size b < MAX_SMOOTH" using assms(2) capacity_le [of b] by simp
  ultimately show "samples b' ! i = (samples b @ [(dt, dn)]) ! i"
    using assms i by (cases "i = deq_size b") (auto simp: samples_nth nth_append cell_def)
qed

lemma samples_rotate:
  assumes "deq_head b < capacity b" and "deq_size b = capacity b" and "length (deq_t_arr b) = MAX_SMOOTH" and "length (deq_n_arr b) = MAX_SMOOTH"
    and "capacity b' = capacity b" and "deq_head b' = (deq_head b + 1) mod capacity b" and "deq_size b' = deq_size b"
    and "deq_t_arr b' = (deq_t_arr b)[deq_head b := dt]" and "deq_n_arr b' = (deq_n_arr b)[deq_head b := dn]"
  shows "samples b' = tl (samples b) @ [(dt, dn)]"
proof (rule nth_equalityI)
  let ?c = "capacity b" and ?h = "deq_head b"
  show "length (samples b') = length (tl (samples b) @ [(dt, dn)])" using assms by simp
  fix i assume "i < length (samples b')"
  then have i: "i < ?c" using assms by simp
  have idx: "((?h + 1) mod ?c + i) mod ?c = (?h + Suc i) mod ?c" by (simp add: mod_simps)
  have h: "?h < MAX_SMOOTH" using assms(1) capacity_le [of b] by simp
  show "samples b' ! i = (tl (samples b) @ [(dt, dn)]) ! i"
  proof (cases "Suc i < ?c")
    case True
    have "(?h + Suc i) mod ?c \<noteq> ?h"
    proof (cases "?h + Suc i < ?c")
      case False
      then have "(?h + Suc i) mod ?c = ?h + Suc i - ?c" using assms(1) True by (simp add: mod_if)
      then show ?thesis using True assms(1) False by linarith
    qed simp
    moreover have "i < ?c - Suc 0" using True by linarith
    ultimately show ?thesis
      using True assms i h idx by (simp add: samples_nth nth_append nth_tl cell_def)
  next
    case False
    then have "Suc i = ?c" using i by simp
    then have "(?h + Suc i) mod ?c = ?h" using assms(1) by simp
    moreover have "\<not> i < ?c - Suc 0" using False i by linarith
    ultimately show ?thesis
      using False assms i h idx by (simp add: samples_nth nth_append cell_def)
  qed
qed

lemma push_sample_window:
  assumes "window_ok b" and "push_sample dt dn b = Inr b'"
  shows "samples b' = lastn (capacity b) (samples b @ [(dt, dn)]) \<and> window_ok b'
    \<and> smoothing b' = smoothing b \<and> nupdates b' = nupdates b \<and> n_old b' = n_old b \<and> t_old b' = t_old b \<and> deq_size b' \<le> deq_size b + 1"
proof (cases "deq_size b = capacity b")
  case True
  then have b': "deq_t_arr b' = (deq_t_arr b)[deq_head b := dt]" "deq_n_arr b' = (deq_n_arr b)[deq_head b := dn]"
      "deq_dtsum b' = deq_dtsum b - deq_t_arr b ! deq_head b + dt" "deq_dnsum b' = deq_dnsum b - deq_n_arr b ! deq_head b + dn"
      "deq_head b' = (deq_head b + 1) mod capacity b" "deq_size b' = deq_size b" "smoothing b' = smoothing b" "nupdates b' = nupdates b"
      "n_old b' = n_old b" "t_old b' = t_old b"
    using assms(2) by (auto simp: push_sample_def signed64_def Let_def rbind_eq_Inr split: if_splits)
  have cap: "capacity b' = capacity b" using b'(7) by (simp add: capacity_def)
  have s: "samples b' = tl (samples b) @ [(dt, dn)]"
    by (rule samples_rotate) (use assms(1) True b' cap in \<open>simp_all add: window_ok_def\<close>)
  have pos: "0 < deq_size b" using True by (simp add: capacity_def Let_def)
  obtain x xs where x: "samples b = x # xs" using pos length_samples [of b] by (cases "samples b") (auto simp del: length_samples)
  then have "x = cell b (deq_head b)" using samples_nth [OF pos] assms(1) by (simp add: window_ok_def)
  then have "deq_dtsum b' = sum_list (map fst (samples b'))" "deq_dnsum b' = sum_list (map snd (samples b'))"
    using b'(3,4) assms(1) s x by (simp_all add: window_ok_def cell_def)
  moreover have "lastn (capacity b) (samples b @ [(dt, dn)]) = tl (samples b) @ [(dt, dn)]"
    using x True by (simp add: lastn_def flip: length_samples)
  ultimately show ?thesis
    using assms(1) b' cap s True pos by (simp add: window_ok_def)
next
  case False
  then have h: "deq_head b = 0" "deq_size b < capacity b" using assms(1) by (simp_all add: window_ok_def)
  then have b': "deq_t_arr b' = (deq_t_arr b)[deq_size b := dt]" "deq_n_arr b' = (deq_n_arr b)[deq_size b := dn]"
      "deq_dtsum b' = deq_dtsum b + dt" "deq_dnsum b' = deq_dnsum b + dn"
      "deq_head b' = 0" "deq_size b' = deq_size b + 1" "smoothing b' = smoothing b" "nupdates b' = nupdates b"
      "n_old b' = n_old b" "t_old b' = t_old b"
    using assms(2) False by (auto simp: push_sample_def signed64_def Let_def rbind_eq_Inr split: if_splits)
  have cap: "capacity b' = capacity b" using b'(7) by (simp add: capacity_def)
  have s: "samples b' = samples b @ [(dt, dn)]"
    by (rule samples_append) (use assms(1) h b' cap in \<open>simp_all add: window_ok_def\<close>)
  then show ?thesis
    using assms(1) b' cap h by (simp add: window_ok_def lastn_def)
qed

text \<open>The exponential average of the samples \<open>xs\<close>, the oldest first, taken from the newest to the oldest.\<close>

definition ema_spec :: "flt \<Rightarrow> (u64 \<times> int) list \<Rightarrow> flt" where
  "ema_spec alpha xs = (case rev xs of [] \<Rightarrow> Fin 0 | (t, n) # ys \<Rightarrow> fold (\<lambda>(t, n). smooth alpha (rate_of n t)) ys (rate_of n t))"

lemma average_is_ema:
  assumes "window_ok b" and "use_ema b" and "deq_size b \<noteq> 0"
  shows "average_rate b = ema_spec (alpha_ema b) (samples b)"
proof -
  let ?c = "capacity b" and ?n = "deq_size b"
  have nth: "rev (samples b) ! i = cell b ((deq_head b + ?n - 1 - i) mod ?c)" if "i < ?n" for i
  proof -
    have "deq_head b + (?n - Suc i) = deq_head b + ?n - 1 - i" using that by simp
    moreover have "rev (samples b) ! i = cell b ((deq_head b + (?n - Suc i)) mod ?c)" using that by (simp add: rev_nth samples_nth)
    ultimately show ?thesis by (simp only:)
  qed
  have n: "?n = Suc (?n - 1)" using assms(3) by simp
  obtain x xs where x: "rev (samples b) = x # xs" using assms(3) length_samples [of b]
    by (cases "rev (samples b)") (auto simp del: length_samples)
  have "length xs = ?n - 1" using x by (metis length_Cons length_rev length_samples diff_Suc_1)
  then have xs: "xs = map (\<lambda>i. cell b ((deq_head b + ?n - 1 - i + ?c) mod ?c)) [1 ..< ?n]"
    using nth [of "Suc _"] x by (intro nth_equalityI) (simp_all add: less_diff_conv)
  have "x = cell b ((deq_head b + ?n - 1) mod ?c)" using nth [of 0] x assms(3) by simp
  then show ?thesis
    using assms(2,3) x xs by (simp add: average_rate_def ema_spec_def cell_rate_def cell_def fold_map comp_def Let_def case_prod_beta)
qed

section \<open>Runs of a bar\<close>

definition bar_inv :: "ProgressBar \<Rightarrow> bool" where
  "bar_inv b \<longleftrightarrow> window_ok b \<and> (smoothing b = 75 \<or> smoothing b = 50 \<and> int (deq_size b) \<le> nupdates b \<and> nupdates b \<le> 10)"

lemma window_cong [simp]:
  "window_ok (b\<lparr>last_div_res := v, nupdates := n, n_old := m, t_old := t\<rparr>) = window_ok b"
  "samples (b\<lparr>last_div_res := v, nupdates := n, n_old := m, t_old := t\<rparr>) = samples b"
  "capacity (b\<lparr>last_div_res := v, nupdates := n, n_old := m, t_old := t\<rparr>) = capacity b"
  "window_ok (b\<lparr>pb_total := m\<rparr>) = window_ok b" "samples (b\<lparr>pb_total := m\<rparr>) = samples b"
  by (simp_all add: window_ok_def samples_def cell_def capacity_def)

lemma window_wider:
  assumes "window_ok b" and "deq_size b < capacity b" and "capacity b \<le> capacity b'" and "deq_t_arr b' = deq_t_arr b"
    and "deq_n_arr b' = deq_n_arr b" and "deq_head b' = deq_head b" and "deq_size b' = deq_size b"
    and "deq_dtsum b' = deq_dtsum b" and "deq_dnsum b' = deq_dnsum b"
  shows "samples b' = samples b \<and> window_ok b'"
proof -
  have h: "deq_head b = 0" using assms(1,2) by (simp add: window_ok_def)
  have "samples b' = samples b"
    by (rule nth_equalityI) (use assms h in \<open>auto simp: samples_nth cell_def\<close>)
  then show ?thesis using assms h by (simp add: window_ok_def)
qed

lemma update_period_window:
  assumes "update_period cur dt b = Inr b'" and "window_ok b"
    and "smoothing b = 75 \<or> smoothing b = 50 \<and> int (deq_size b) \<le> nupdates b \<and> nupdates b \<le> 11"
  shows "samples b' = samples b \<and> bar_inv b' \<and> nupdates b' = nupdates b \<and> t_old b' = t_old b \<and> n_old b' = n_old b
    \<and> use_ema b' = use_ema b \<and> alpha_ema b' = alpha_ema b"
proof (cases "nupdates b \<le> 10")
  case True
  then show ?thesis using assms by (auto simp: update_period_def bar_inv_def)
next
  case False
  then obtain p v where b': "b' = b\<lparr>smoothing := 75, period_power := p, last_div_res := v\<rparr>"
    using assms(1) by (auto simp: update_period_def rbind_eq_Inr Let_def MAX_SMOOTH_def)
  have "samples b' = samples b \<and> window_ok b'"
  proof (cases "smoothing b = 75")
    case True
    then have "capacity b' = capacity b" by (simp add: b' capacity_def)
    then show ?thesis using assms(2) by (simp add: b' window_ok_def samples_def cell_def)
  next
    case False
    then show ?thesis
      using assms(2,3) by (intro window_wider) (auto simp: b' capacity_def MAX_SMOOTH_def Let_def)
  qed
  then show ?thesis by (simp add: b' bar_inv_def)
qed

lemma push_keeps_ema: "push_sample dt dn b = Inr b' \<Longrightarrow> use_ema b' = use_ema b \<and> alpha_ema b' = alpha_ema b"
  by (auto simp: push_sample_def Let_def rbind_eq_Inr split: if_splits)

lemma format_line_window:
  assumes "bar_inv b" and "format_line now cur tot b = Inr (l, b')"
  shows "b' = b \<or> nupdates b' = nupdates b + 1 \<and> samples b' = lastn 75 (samples b @ [(now - t_old b, cur - n_old b)])
    \<and> t_old b' = now \<and> n_old b' = cur \<and> bar_inv b' \<and> use_ema b' = use_ema b \<and> alpha_ema b' = alpha_ema b"
proof (cases "shown_div (period_power b) cur \<le> last_div_res b \<and> cur \<noteq> tot")
  case True
  then show ?thesis using assms(2) by (simp add: format_line_def Let_def)
next
  case False
  let ?b = "b\<lparr>last_div_res := shown_div (period_power b) cur, nupdates := nupdates b + 1, n_old := cur, t_old := now\<rparr>"
  from False assms(2) obtain b1 b2 where b:
      "push_sample (now - t_old b) (cur - n_old b) ?b = Inr b1" "update_period cur (now - t_first b1) b1 = Inr b2" "b' = b2\<lparr>pb_total := tot\<rparr>"
    by (auto simp: format_line_def rbind_eq_Inr Let_def signed64_def split: if_splits)
  have "window_ok ?b" using assms(1) by (simp add: bar_inv_def)
  note p = push_sample_window [OF this b(1)] push_keeps_ema [OF b(1)]
  have "smoothing b1 = 75 \<or> smoothing b1 = 50 \<and> int (deq_size b1) \<le> nupdates b1 \<and> nupdates b1 \<le> 11"
    using assms(1) p by (auto simp: bar_inv_def)
  note u = update_period_window [OF b(2) _ this]
  have "samples b1 = lastn 75 (samples b @ [(now - t_old b, cur - n_old b)])"
    using p assms(1) by (auto simp: bar_inv_def capacity_def MAX_SMOOTH_def Let_def lastn_def)
  then show ?thesis using p u b(3) by (auto simp: bar_inv_def)
qed

text \<open>One call of \<open>format_line\<close>, with the list of all samples that were taken so far.\<close>

definition bar_step :: "u64 \<times> int \<times> int \<Rightarrow> ProgressBar \<times> (u64 \<times> int) list \<Rightarrow> (ProgressBar \<times> (u64 \<times> int) list) res" where
  "bar_step call bh =
     (case (call, bh) of ((now, cur, tot), (b, h)) \<Rightarrow>
      rbind (format_line now cur tot b) (\<lambda>(line, b').
      Inr (b', if nupdates b' = nupdates b then h else h @ [(now - t_old b, cur - n_old b)])))"

lemma lastn_snoc: "0 < n \<Longrightarrow> lastn n (lastn n xs @ [y]) = lastn n (xs @ [y])"
  by (cases "length xs \<le> n") (simp_all add: lastn_def Suc_diff_le)

lemma new_bar_inv: "bar_inv (new_bar screen tmux now now')" "samples (new_bar screen tmux now now') = []"
  "use_ema (new_bar screen tmux now now')" "alpha_ema (new_bar screen tmux now now') = fl Single (1 / 10)"
  by (simp_all add: new_bar_def bar_inv_def window_ok_def samples_def capacity_def MAX_SMOOTH_def set_theme_basic_def Let_def)


lemma example_line:
  assumes "use_colors b" and "\<not> color_transition b" and "pb_width b = 40" and "t_first b = 0" and "t_old b = 2000"
  shows "\<exists>l. line_text 2000 100 100 avg b = Inr l"
proof -
  have d: "show_int 100 = ''100''" "show_int 0 = ''0''" "show_int 2 = ''2''" "show_fixed (Suc 0) (Fin 100) = ''100.0''" by code_simp+
  have f: "ratio 100 100 (fl_int Double 40) = Fin 40" by code_simp
  have r: "rate_of 100 2000 = Fin 50000" by code_simp
  have u: "fl_int Double 2000 = Fin 2000" by code_simp
  have t: "to_i64 (fdiv Double (Fin 2000) (Fin 1000000)) = Inr 0"
    "to_i64 (fsub Double (fdiv Double (Fin 2000) (Fin 1000)) (fl_int Double 0)) = Inr 2" by code_simp+
  have x: "show_fixed (Suc 0) (fdiv Double (Fin 50000) (Fin 1000)) = ''50.0''" by code_simp
  have "\<exists>l. stats_text 100 100 (Fin 50000) 2000 = Inr l"
    by (simp add: stats_text_def unit_of_def fless_def u t x d signed64_def append_printf_def field_def Let_def)
  then show ?thesis
    using assms f r d by (auto simp: line_text_def signed64_def color_text_def fill_text_def append_printf_def field_def
        to_i64_def fcast_def trunc0_def Let_def)
qed


section \<open>Defects of the drawing\<close>

text \<open>
  The filled part of a bar is not text: with the themes whose full block is a glyph of three bytes, every full block is written as
  the first byte of that glyph alone, so that what is written for a bar with at least one full block is not UTF-8: the lead byte is
  not followed by a continuation byte.
\<close>

theorem full_blocks_are_broken:
  assumes "pb_glyphs b = default_glyphs" and "pb_width b = 40" and "0 < fills" and "fills \<le> 40"
    and "fill_text fills_d fills open_end b = Inr out"
  shows "take (nat fills) out = replicate (nat fills) (CHR 0xE2) \<and> \<not> (0x80 \<le> (of_char (out ! nat fills) :: nat) \<and> of_char (out ! nat fills) < (0xC0 :: nat))"
proof -
  define rest where "rest = (if 0 < 39 - fills then replicate (nat (39 - fills)) (CHR '' '') else '''') @ '' '' @ right_pad b"
  have lead: "hd (default_glyphs ! k) = CHR '' '' \<or> hd (default_glyphs ! k) = CHR 0xE2" "default_glyphs ! k \<noteq> []" if "k \<le> 8" for k
  proof -
    have "k \<in> {0, 1, 2, 3, 4, 5, 6, 7, 8}" using that by auto
    then show "hd (default_glyphs ! k) = CHR '' '' \<or> hd (default_glyphs ! k) = CHR 0xE2" "default_glyphs ! k \<noteq> []"
      by (auto simp: default_glyphs_def glyph_def)
  qed
  have g: "hd (last default_glyphs) = CHR 0xE2" "hd (hd default_glyphs) = CHR '' ''" by (simp_all add: default_glyphs_def glyph_def)
  have "\<exists>more. out = replicate (nat fills) (CHR 0xE2) @ more @ rest \<and> (more = [] \<or> (\<exists>k \<le> 8. more = default_glyphs ! k))"
  proof (cases "in_screen b \<or> \<not> open_end")
    case True
    then show ?thesis using assms g by (auto simp: fill_text_def rest_def Let_def algebra_simps)
  next
    case False
    then obtain frac where "out = replicate (nat fills) (CHR 0xE2) @ default_glyphs ! nat (min 8 (max 0 frac)) @ rest"
      using assms g by (auto simp: fill_text_def rest_def Let_def rbind_eq_Inr algebra_simps)
    moreover have "nat (min 8 (max 0 frac)) \<le> 8" by simp
    ultimately show ?thesis by blast
  qed
  then obtain more where out: "out = replicate (nat fills) (CHR 0xE2) @ more @ rest" "more = [] \<or> (\<exists>k \<le> 8. more = default_glyphs ! k)" by blast
  have "hd rest = CHR '' ''" "rest \<noteq> []" by (auto simp: rest_def)
  then have "hd (more @ rest) = CHR '' '' \<or> hd (more @ rest) = CHR 0xE2" "more @ rest \<noteq> []"
    using out(2) lead by (auto simp: hd_append)
  moreover have "out ! nat fills = hd (more @ rest)" using calculation(2) by (simp add: out(1) nth_append hd_conv_nth)
  ultimately show ?thesis by (auto simp: out(1))
qed

theorem full_blocks_are_broken_witness:
  "\<exists>out. fill_text (Fin 20) 20 False (new_bar False False 0 0) = Inr out \<and> take 20 out = replicate 20 (CHR 0xE2)
     \<and> out ! 20 = CHR '' ''"
proof -
  let ?b = "new_bar False False 0 0"
  obtain out where out: "fill_text (Fin 20) 20 False ?b = Inr out" by (simp add: fill_text_def Let_def)
  have "pb_glyphs ?b = default_glyphs" "pb_width ?b = 40" by (simp_all add: new_bar_def)
  from full_blocks_are_broken [OF this _ _ out] have "take 20 out = replicate 20 (CHR 0xE2)" by simp
  moreover have "out ! 20 = CHR '' ''" using out by (auto simp: fill_text_def new_bar_def default_glyphs_def nth_append Let_def)
  ultimately show ?thesis using out by blast
qed

text \<open>\<open>reset\<close> keeps \<open>last_div_res\<close>: a bar that is used again shows nothing until it passes its old position.\<close>

lemma reset_bar_stays_silent:
  assumes "0 \<le> cur" and "cur < tot" and "cur < 2 ^ 63" and "word_of_int cur \<le> last_div_res b"
  shows "format_line t cur tot (reset_bar now now' b) = Inr ('''', reset_bar now now' b)"
  using assms by (simp add: format_line_def reset_bar_def shown_div_def)

end
