(* ===== verification/Example_Client.thy ===== *)
theory Example_Client
  imports Bats_Api Command_Line
begin

text \<open>
  The client of \<open>example/simple\<close> (\<open>bats_client_example.cc\<close>): \<open>BATSSender\<close> and \<open>main\<close>. \<open>StartSend\<close> runs in the main thread while the
  library calls \<open>ConnectionCallback\<close> from another one: the thread is a program counter, and an execution is a sequence of events
  of both. The calls of the library are appended to \<open>cl_calls\<close>; the result of \<open>SendData\<close> and the answer of
  \<open>GetIdealBufferLength\<close> are part of the events.
\<close>

section \<open>State\<close>

definition default_buffer_max_sz :: int where "default_buffer_max_sz = 150000"

definition send_data :: "octet list" where
  "send_data = replicate (nat default_buffer_max_sz) 0x0f"

datatype client_call = ClConnect string u16 | ClSend conn "octet list" bool

datatype client_pc = CP_Start | CP_Wait | CP_Retry | CP_Send | CP_Writable | CP_Call | CP_Exit

record BATSSender =
  send_quota :: u64
  cl_recv_cnt :: u64
  timeout_cnt :: u32
  cur_ideal_length :: int
  cl_connect_failed :: bool
  cl_connected :: bool
  cl_writable :: bool
  bats_connection :: "conn option"
  cl_signal :: int
  cl_pc :: client_pc
  cl_calls :: "client_call list"

definition new_client :: "int \<Rightarrow> BATSSender" where
  "new_client send_cnt = \<lparr>send_quota = word_of_int send_cnt, cl_recv_cnt = 0, timeout_cnt = 0, cur_ideal_length = 0,
     cl_connect_failed = False, cl_connected = False, cl_writable = False, bats_connection = None, cl_signal = 0, cl_pc = CP_Start,
     cl_calls = []\<rparr>"

definition cl_max_timeout_cnt :: u32 where "cl_max_timeout_cnt = 30"

definition cl_SIGINT :: int where "cl_SIGINT = 2"

section \<open>Callbacks\<close>

definition UpdateDataBlockLength :: "int \<Rightarrow> BATSSender \<Rightarrow> BATSSender res" where
  "UpdateDataBlockLength ideal s =
     rbind (guard AssertFail (0 < ideal \<and> ideal \<le> default_buffer_max_sz)) (\<lambda>_. Inr (s\<lparr>cur_ideal_length := ideal\<rparr>))"

definition client_ConnectionCallback :: "conn \<Rightarrow> int \<Rightarrow> BatsConnEvent \<Rightarrow> int \<Rightarrow> BATSSender \<Rightarrow> BATSSender res" where
  "client_ConnectionCallback cn ideal event len s =
     (case event of
        BATS_CONNECTION_FAILED \<Rightarrow> Inr (s\<lparr>cl_connect_failed := True\<rparr>)
      | BATS_CONNECTION_CLOSED \<Rightarrow> Inr (s\<lparr>cl_connected := False\<rparr>)
      | BATS_CONNECTION_SHUTDOWN_BY_PEER \<Rightarrow> Inr (s\<lparr>cl_connected := False, cl_connect_failed := True\<rparr>)
      | BATS_CONNECTION_ESTABLISHED \<Rightarrow>
          rbind (UpdateDataBlockLength ideal (s\<lparr>bats_connection := Some cn\<rparr>)) (\<lambda>s. Inr (s\<lparr>cl_connected := True\<rparr>))
      | BATS_CONNECTION_DATA_RECEIVED \<Rightarrow> Inr (s\<lparr>cl_recv_cnt := cl_recv_cnt s + 1\<rparr>)
      | BATS_CONNECTION_BUFFER_FULL \<Rightarrow> Inr (s\<lparr>cl_writable := False\<rparr>)
      | BATS_CONNECTION_WRITABLE \<Rightarrow> Inr (s\<lparr>cl_writable := True\<rparr>)
      | BATS_CONNECTION_IDEAL_BUFFER_LENGTH \<Rightarrow> UpdateDataBlockLength len s
      | _ \<Rightarrow> Inr s)"

section \<open>The main thread\<close>

definition client_StartConnect :: "BATSSender \<Rightarrow> BATSSender" where
  "client_StartConnect s = s\<lparr>cl_calls := cl_calls s @ [ClConnect ''127.0.0.1'' 12345]\<rparr>"

text \<open>The body of the first loop after its sleep.\<close>

definition client_retry :: "BATSSender \<Rightarrow> BATSSender" where
  "client_retry s =
     (let s = (if cl_connect_failed s \<and> cl_max_timeout_cnt \<le> timeout_cnt s
               then client_StartConnect (s\<lparr>timeout_cnt := 0, cl_connect_failed := False\<rparr>) else s)
      in s\<lparr>timeout_cnt := timeout_cnt s + 1\<rparr>)"

definition client_SendData :: "bool \<Rightarrow> BATSSender \<Rightarrow> BATSSender res" where
  "client_SendData ok s =
     (case bats_connection s of
        None \<Rightarrow> Inl NullDeref
      | Some cn \<Rightarrow>
        rbind (guard OutOfBounds (0 \<le> cur_ideal_length s \<and> cur_ideal_length s \<le> int (length send_data))) (\<lambda>_.
        (let s = s\<lparr>cl_calls := cl_calls s @ [ClSend cn (take (nat (cur_ideal_length s)) send_data) ok]\<rparr>
         in Inr (if ok then s\<lparr>send_quota := send_quota s - 1\<rparr> else s))))"

fun client_thread :: "bool \<Rightarrow> BATSSender \<Rightarrow> BATSSender res" where
  "client_thread ok s =
     (case cl_pc s of
        CP_Start \<Rightarrow> Inr ((client_StartConnect s)\<lparr>cl_pc := CP_Wait\<rparr>)
      | CP_Wait \<Rightarrow>
          Inr (if \<not> cl_connected s \<and> cl_signal s \<noteq> cl_SIGINT then s\<lparr>cl_pc := CP_Retry\<rparr>
               else s\<lparr>send_quota := (if send_quota s = 0 then - 1 else send_quota s), cl_pc := CP_Send\<rparr>)
      | CP_Retry \<Rightarrow> Inr ((client_retry s)\<lparr>cl_pc := CP_Wait\<rparr>)
      | CP_Send \<Rightarrow>
          Inr (s\<lparr>cl_pc := (if cl_connected s \<and> send_quota s \<noteq> 0 \<and> cl_signal s \<noteq> cl_SIGINT then CP_Writable else CP_Exit)\<rparr>)
      | CP_Writable \<Rightarrow> Inr (s\<lparr>cl_pc := (if cl_writable s then CP_Call else CP_Send)\<rparr>)
      | CP_Call \<Rightarrow> rbind (client_SendData ok s) (\<lambda>s. Inr (s\<lparr>cl_pc := CP_Send\<rparr>))
      | CP_Exit \<Rightarrow> Inr s)"

datatype client_event = CeConn conn int BatsConnEvent int | CeSignal int | CeThread bool

fun client_step :: "BATSSender \<Rightarrow> client_event \<Rightarrow> BATSSender res" where
  "client_step s (CeConn cn ideal event len) = client_ConnectionCallback cn ideal event len s"
| "client_step s (CeSignal sig) = Inr (s\<lparr>cl_signal := sig\<rparr>)"
| "client_step s (CeThread ok) = client_thread ok s"

text \<open>\<open>main\<close> up to \<open>StartConnect\<close>: the number of blocks and the transport mode are its arguments.\<close>

definition client_main :: "string list \<Rightarrow> (BatsConfiguration \<times> BATSSender) res" where
  "client_main args =
     rbind (case args of [] \<Rightarrow> Inr 0 | a # _ \<Rightarrow> stoi a) (\<lambda>send_cnt.
     rbind (if length args = 2 then stoi (args ! 1) else Inr 0) (\<lambda>mode.
     Inr (BatsConfiguration_init\<lparr>transport_mode := word_of_int mode, connection_timeout := 2000\<rparr>, new_client send_cnt)))"

section \<open>What is sent\<close>

fun accepted_blocks :: "client_call list \<Rightarrow> nat" where
  "accepted_blocks [] = 0"
| "accepted_blocks (ClSend cn b True # cs) = Suc (accepted_blocks cs)"
| "accepted_blocks (c # cs) = accepted_blocks cs"

lemma accepted_blocks_append [simp]: "accepted_blocks (xs @ ys) = accepted_blocks xs + accepted_blocks ys"
  by (induction xs rule: accepted_blocks.induct) auto

definition block_sane :: "client_call \<Rightarrow> bool" where
  "block_sane c = (case c of ClSend cn b ok \<Rightarrow> 0 < length b \<and> int (length b) \<le> default_buffer_max_sz \<and> set b \<subseteq> {0x0f} | _ \<Rightarrow> True)"

definition waiting :: "client_pc \<Rightarrow> bool" where
  "waiting pc \<longleftrightarrow> pc = CP_Start \<or> pc = CP_Wait \<or> pc = CP_Retry"

text \<open>The number of blocks that the count on the command line stands for.\<close>

definition blocks_asked :: "int \<Rightarrow> nat" where
  "blocks_asked n = (if (word_of_int n :: u64) = 0 then 2 ^ 64 - 1 else unat (word_of_int n :: u64))"

definition client_inv :: "int \<Rightarrow> BATSSender \<Rightarrow> bool" where
  "client_inv n s \<longleftrightarrow> list_all block_sane (cl_calls s)
     \<and> (bats_connection s \<noteq> None \<longrightarrow> 0 < cur_ideal_length s \<and> cur_ideal_length s \<le> default_buffer_max_sz)
     \<and> (cl_connected s \<or> cl_pc s = CP_Writable \<or> cl_pc s = CP_Call \<longrightarrow> bats_connection s \<noteq> None)
     \<and> (cl_pc s = CP_Writable \<or> cl_pc s = CP_Call \<longrightarrow> send_quota s \<noteq> 0)
     \<and> (if waiting (cl_pc s) then send_quota s = word_of_int n \<and> accepted_blocks (cl_calls s) = 0
        else unat (send_quota s) + accepted_blocks (cl_calls s) = blocks_asked n)"

lemma block_sane_take:
  assumes "0 < k" and "k \<le> default_buffer_max_sz"
  shows "block_sane (ClSend cn (take (nat k) send_data) ok)"
  using assms by (auto simp: block_sane_def send_data_def)

lemma unat_minus_one_word: "unat (- 1 :: u64) = 2 ^ 64 - 1"
  by (simp add: unsigned_minus_1_eq_mask mask_eq_exp_minus_1)

lemma unat_pred: "(w :: u64) \<noteq> 0 \<Longrightarrow> unat (w - 1) + 1 = unat w"
  by (metis Suc_eq_plus1 unat_minus_one unat_gt_0 Suc_pred' word_neq_0_conv)

lemma client_SendData_ok:
  assumes "client_inv n s" and "cl_pc s = CP_Call"
  shows "returns (client_SendData ok s) (\<lambda>t. client_inv n (t\<lparr>cl_pc := CP_Send\<rparr>))"
proof -
  obtain cn where cn: "bats_connection s = Some cn" using assms by (auto simp: client_inv_def)
  then have len: "0 < cur_ideal_length s" "cur_ideal_length s \<le> default_buffer_max_sz" using assms(1) by (auto simp: client_inv_def)
  have "send_quota s \<noteq> 0" using assms by (auto simp: client_inv_def)
  then have "unat (send_quota s - 1) + 1 = unat (send_quota s)" by (rule unat_pred)
  then show ?thesis
    using assms cn len block_sane_take [OF len, of cn ok]
    by (cases ok) (auto simp: client_SendData_def client_inv_def returns_def waiting_def send_data_def Let_def)
qed

lemma client_thread_ok: "client_inv n s \<Longrightarrow> returns (client_thread ok s) (client_inv n)"
proof (cases "cl_pc s")
  case CP_Call
  assume "client_inv n s"
  then show ?thesis using client_SendData_ok [OF _ CP_Call, of n ok] CP_Call by (auto simp: returns_def)
next
  case CP_Wait
  assume "client_inv n s"
  then show ?thesis using CP_Wait unat_minus_one_word by (auto simp: client_inv_def returns_def waiting_def blocks_asked_def)
qed (auto simp: client_inv_def returns_def waiting_def client_StartConnect_def client_retry_def block_sane_def Let_def)

lemma client_inv_cong [simp]:
  "client_inv n (s\<lparr>cl_connect_failed := v\<rparr>) = client_inv n s" "client_inv n (s\<lparr>cl_recv_cnt := w\<rparr>) = client_inv n s"
  "client_inv n (s\<lparr>cl_writable := v\<rparr>) = client_inv n s" "client_inv n (s\<lparr>cl_signal := k\<rparr>) = client_inv n s"
  by (simp_all add: client_inv_def)

lemma client_inv_closed: "client_inv n s \<Longrightarrow> client_inv n (s\<lparr>cl_connected := False\<rparr>)"
  by (simp add: client_inv_def)

lemma UpdateDataBlockLength_eq:
  "UpdateDataBlockLength ideal s = Inr t \<longleftrightarrow> 0 < ideal \<and> ideal \<le> default_buffer_max_sz \<and> t = s\<lparr>cur_ideal_length := ideal\<rparr>"
  by (auto simp: UpdateDataBlockLength_def rbind_eq_Inr)

lemma client_inv_ideal:
  "client_inv n s \<Longrightarrow> 0 < ideal \<Longrightarrow> ideal \<le> default_buffer_max_sz \<Longrightarrow> client_inv n (s\<lparr>cur_ideal_length := ideal\<rparr>)"
  by (simp add: client_inv_def)

lemma client_inv_established:
  "client_inv n s \<Longrightarrow> 0 < ideal \<Longrightarrow> ideal \<le> default_buffer_max_sz
    \<Longrightarrow> client_inv n (s\<lparr>bats_connection := Some cn, cur_ideal_length := ideal, cl_connected := True\<rparr>)"
  by (simp add: client_inv_def)

lemma client_callback_inv:
  "client_inv n s \<Longrightarrow> client_ConnectionCallback cn ideal event len s = Inr t \<Longrightarrow> client_inv n t"
  by (cases event) (auto simp: client_ConnectionCallback_def rbind_eq_Inr UpdateDataBlockLength_eq client_inv_closed client_inv_ideal
      client_inv_established)

interpretation simple_client: event_machine client_step "client_inv n" for n
proof
  show "client_inv n t" if "client_inv n s" "client_step s e = Inr t" for s e t
  proof (cases e)
    case (CeThread ok)
    then show ?thesis using returns_unique [OF client_thread_ok [OF that(1)]] that(2) by simp
  qed (use that client_callback_inv in auto)
qed

lemma new_client_inv: "client_inv n (new_client n)"
  by (simp add: new_client_def client_inv_def waiting_def)

text \<open>
  C39. The simple client sends what it was asked for and never touches a null connection: under every interleaving of its
  thread with the library's callbacks and signals, the thread's next step does not fault, every block handed to \<open>SendData\<close> is
  a non-empty part of the buffer, and once it sends, the blocks that \<open>SendData\<close> took and the quota that is left add up to the
  number on the command line (zero stands for the largest 64-bit number).
\<close>

theorem client_sends_quota:
  assumes "stoi cnt = Inr n" and "client_main (cnt # args) = Inr (cfg, s0)" and "run_events client_step es s0 = Inr s"
  shows "returns (client_step s (CeThread ok)) (\<lambda>_. True) \<and> list_all block_sane (cl_calls s)
    \<and> (\<not> waiting (cl_pc s) \<longrightarrow> unat (send_quota s) + accepted_blocks (cl_calls s) = blocks_asked n)"
proof -
  have "s0 = new_client n" using assms(1,2) by (auto simp: client_main_def rbind_eq_Inr)
  then have inv: "client_inv n s" using simple_client.run_inv [OF new_client_inv] assms(3) by blast
  then show ?thesis using returns_mono [OF client_thread_ok [OF inv]] by (auto simp: client_inv_def)
qed

definition example_events :: "client_event list" where
  "example_events = [CeThread True, CeThread True, CeConn 4 8 BATS_CONNECTION_ESTABLISHED 0, CeConn 4 0 BATS_CONNECTION_WRITABLE 0,
     CeThread True, CeThread True, CeThread True, CeThread True, CeThread True, CeThread True, CeThread True, CeThread True, CeThread True]"

lemma length_send_data: "length send_data = 150000"
  by (simp add: send_data_def default_buffer_max_sz_def)

theorem client_sends_quota_witness:
  "\<exists>cfg s0 s. client_main [''2''] = Inr (cfg, s0) \<and> run_events client_step example_events s0 = Inr s
     \<and> cl_pc s = CP_Exit \<and> accepted_blocks (cl_calls s) = 2"
proof -
  have two: "stoi ''2'' = Inr 2" by code_simp
  obtain cfg where m: "client_main [''2''] = Inr (cfg, new_client 2)" using two by (simp add: client_main_def)
  have "\<exists>s. run_events client_step example_events (new_client 2) = Inr s \<and> cl_pc s = CP_Exit \<and> send_quota s = 0"
    by (simp add: example_events_def new_client_def client_StartConnect_def client_ConnectionCallback_def UpdateDataBlockLength_def
        client_retry_def client_SendData_def length_send_data default_buffer_max_sz_def cl_SIGINT_def Let_def)
  then obtain s where s: "run_events client_step example_events (new_client 2) = Inr s" "cl_pc s = CP_Exit" "send_quota s = 0" by blast
  have "accepted_blocks (cl_calls s) = 2"
    using client_sends_quota [OF two m s(1)] s(2,3) by (simp add: waiting_def blocks_asked_def)
  then show ?thesis using m s by blast
qed

end
