(* ===== verification/Example_Servers.thy ===== *)
theory Example_Servers
  imports Bats_Api Command_Line
begin

text \<open>
  The two servers of \<open>example/simple\<close>: \<open>bats_server_example.cc\<close>, and \<open>bats_server_c_example.c\<close>, which uses the C interface of the library
  (\<open>c_bats_api.h\<close>, \<open>c_bats_types.h\<close>). The main thread only waits; its loop is given, for every round, the events of the
  library's threads. Results of the library's calls are arguments, text on the terminal is left out, and so is the counter of the C server that is only printed.
\<close>

section \<open>The C++ server\<close>

record Server =
  srv_signal :: int
  srv_stopped :: bool
  srv_callbacks :: "conn list"

definition new_server :: Server where
  "new_server = \<lparr>srv_signal = 0, srv_stopped = False, srv_callbacks = []\<rparr>"

definition data_receive_callback :: "BatsConnEvent \<Rightarrow> Server \<Rightarrow> Server" where
  "data_receive_callback event s =
     (if event = BATS_CONNECTION_CLOSED \<or> event = BATS_CONNECTION_SHUTDOWN_BY_PEER then s\<lparr>srv_stopped := True\<rparr> else s)"

text \<open>\<open>own\<close>: the user context is the one that \<open>StartListen\<close> was given.\<close>

definition listener_callback :: "bool \<Rightarrow> conn \<Rightarrow> BatsListenEvent \<Rightarrow> Server \<Rightarrow> Server" where
  "listener_callback own cn event s =
     (let s = (if own then s else s\<lparr>srv_stopped := True\<rparr>)
      in if event = BATS_LISTEN_NEW_CONNECTION then s\<lparr>srv_callbacks := srv_callbacks s @ [cn]\<rparr> else s)"

datatype server_event = SeData BatsConnEvent | SeListen bool conn BatsListenEvent | SeSignal int

fun server_step :: "server_event \<Rightarrow> Server \<Rightarrow> Server" where
  "server_step (SeData event) s = data_receive_callback event s"
| "server_step (SeListen own cn event) s = listener_callback own cn event s"
| "server_step (SeSignal sig) s = s\<lparr>srv_signal := sig\<rparr>"

fun server_loop :: "server_event list list \<Rightarrow> Server \<Rightarrow> Server res" where
  "server_loop [] s = (if srv_signal s \<noteq> 2 \<and> \<not> srv_stopped s then Inl Blocked else Inr s)"
| "server_loop (evs # rounds) s =
     (if srv_signal s \<noteq> 2 \<and> \<not> srv_stopped s then server_loop rounds (fold server_step evs s) else Inr s)"

definition server_config :: "string \<Rightarrow> string \<Rightarrow> int \<Rightarrow> BatsConfiguration" where
  "server_config cert key mode = BatsConfiguration_init\<lparr>transport_mode := word_of_int mode, cert_file := cert, key_file := key\<rparr>"

text \<open>The result of \<open>main\<close>, and the configuration that the protocol was loaded with if it came that far.\<close>

definition server_main :: "(string \<Rightarrow> bool) \<Rightarrow> string list \<Rightarrow> server_event list list \<Rightarrow> (int \<times> BatsConfiguration option) res" where
  "server_main exists_file args rounds =
     (if 3 < length args \<or> length args < 2 then Inr (- 1, None)
      else if \<not> exists_file (args ! 0) then Inr (0, None)
      else if \<not> exists_file (args ! 1) then Inr (0, None)
      else
        rbind (if length args = 3 then stoi (args ! 2) else Inr 0) (\<lambda>mode.
        rbind (server_loop rounds new_server) (\<lambda>_. Inr (0, Some (server_config (args ! 0) (args ! 1) mode)))))"

section \<open>The C interface\<close>

text \<open>The enumerations of the C header by their values, in the order in which they are declared.\<close>

datatype bats_error_t =
    bats_error_none | bats_error_invalid_param | bats_error_listen_failed | bats_error_connect_failed | bats_error_accept_failed
  | bats_error_memory | bats_error_timeout | bats_error_connection_closed | bats_error_send_failed

definition conn_events :: "BatsConnEvent list" where
  "conn_events = [BATS_CONNECTION_NONE, BATS_CONNECTION_FAILED, BATS_CONNECTION_ESTABLISHED, BATS_CONNECTION_TIMEOUT,
     BATS_CONNECTION_SHUTDOWN_BY_PEER, BATS_CONNECTION_WRITABLE, BATS_CONNECTION_DATA_RECEIVED, BATS_CONNECTION_SEND_COMPLETE,
     BATS_CONNECTION_SEND_DATA_ERROR, BATS_CONNECTION_BUFFER_FULL, BATS_CONNECTION_CLOSED, BATS_CONNECTION_ERROR,
     BATS_CONNECTION_ALREADY_CONNECTED, BATS_CONNECTION_IDEAL_BUFFER_LENGTH, BATS_CONNECTION_ALL_DATA_ACKED]"

datatype bats_conn_event_t =
    bats_connection_none | bats_connection_failed | bats_connection_established | bats_connection_timeout
  | bats_connection_shutdown_by_peer | bats_connection_writable | bats_connection_data_received | bats_connection_send_complete
  | bats_connection_send_data_error | bats_connection_buffer_full | bats_connection_closed | bats_connection_error
  | bats_connection_already_connected | bats_connection_ideal_buffer_length | bats_connection_all_data_acked

definition c_conn_events :: "bats_conn_event_t list" where
  "c_conn_events = [bats_connection_none, bats_connection_failed, bats_connection_established, bats_connection_timeout,
     bats_connection_shutdown_by_peer, bats_connection_writable, bats_connection_data_received, bats_connection_send_complete,
     bats_connection_send_data_error, bats_connection_buffer_full, bats_connection_closed, bats_connection_error,
     bats_connection_already_connected, bats_connection_ideal_buffer_length, bats_connection_all_data_acked]"

datatype bats_listen_event_t =
    bats_listen_none | bats_listen_new_connection | bats_listen_failed | bats_listen_success | bats_listen_accepted_error
  | bats_listen_already_in_listen | bats_listen_stopped

datatype bats_congestion_control_t = bats_cc_none | bats_cc_bbr | bats_cc_bbrv2 | bats_cc_bbrv3 | bats_cc_gcc

fun c_cc_value :: "bats_congestion_control_t \<Rightarrow> nat" where
  "c_cc_value bats_cc_none = 0" | "c_cc_value bats_cc_bbr = 1" | "c_cc_value bats_cc_bbrv2 = 2"
| "c_cc_value bats_cc_bbrv3 = 3" | "c_cc_value bats_cc_gcc = 4"

fun cc_value :: "BATSCongestionControl \<Rightarrow> nat" where
  "cc_value CC_None = 0" | "cc_value CC_BBR = 1" | "cc_value CC_BBRv2 = 3" | "cc_value CC_BBRv3 = 4" | "cc_value CC_GCC = 5"

section \<open>The C server\<close>

datatype handle = Context | Config | Protocol

datatype c_call =
    Created handle
  | Destroyed handle
  | SetLogLevel
  | SetSignalCallback
  | SetMode int
  | SetLocalPort int
  | SetTimeout int
  | SetCC bats_congestion_control_t
  | CertFile string
  | KeyFile string
  | StartListen string int
  | SetCallback conn
  | SendBack conn "octet list"

record CServer =
  cs_signal :: int
  cs_stopped :: bool
  cs_calls :: "c_call list"

definition c_emit :: "c_call list \<Rightarrow> CServer \<Rightarrow> CServer" where
  "c_emit xs s = s\<lparr>cs_calls := cs_calls s @ xs\<rparr>"

definition bats_connection_callback :: "conn \<Rightarrow> bats_conn_event_t \<Rightarrow> octet list \<Rightarrow> CServer \<Rightarrow> CServer" where
  "bats_connection_callback cn event data s =
     (case event of
        bats_connection_data_received \<Rightarrow> c_emit [SendBack cn data] s
      | bats_connection_shutdown_by_peer \<Rightarrow> s\<lparr>cs_stopped := True\<rparr>
      | bats_connection_closed \<Rightarrow> s\<lparr>cs_stopped := True\<rparr>
      | _ \<Rightarrow> s)"

definition bats_listener_callback :: "conn \<Rightarrow> bats_listen_event_t \<Rightarrow> CServer \<Rightarrow> CServer" where
  "bats_listener_callback cn event s = (if event = bats_listen_new_connection then c_emit [SetCallback cn] s else s)"

datatype c_event = CsData conn bats_conn_event_t "octet list" | CsListen conn bats_listen_event_t | CsSignal int

fun c_step :: "c_event \<Rightarrow> CServer \<Rightarrow> CServer" where
  "c_step (CsData cn event data) s = bats_connection_callback cn event data s"
| "c_step (CsListen cn event) s = bats_listener_callback cn event s"
| "c_step (CsSignal sig) s = s\<lparr>cs_signal := sig\<rparr>"

fun c_loop :: "c_event list list \<Rightarrow> CServer \<Rightarrow> CServer res" where
  "c_loop [] s = (if cs_signal s \<noteq> 2 \<and> \<not> cs_stopped s then Inl Blocked else Inr s)"
| "c_loop (evs # rounds) s =
     (if cs_signal s \<noteq> 2 \<and> \<not> cs_stopped s then c_loop rounds (fold c_step evs s) else Inr s)"

text \<open>\<open>atoi\<close>: no digits give 0; a value that an \<open>int\<close> does not hold is undefined.\<close>

definition atoi :: "string \<Rightarrow> int res" where
  "atoi s =
     (let (sgn, t) = read_sign (dropWhile is_space s); (v, n, rest) = read_digits 10 0 0 t; x = sgn * int v
      in if x < - (2 ^ 31) \<or> 2 ^ 31 \<le> x then Inl SignedOverflow else Inr x)"

record c_results =
  ctx_ok :: bool
  cfg_ok :: bool
  proto_ok :: bool
  listen_result :: bats_error_t

definition c_main :: "c_results \<Rightarrow> string list \<Rightarrow> c_event list list \<Rightarrow> (int \<times> CServer) res" where
  "c_main r args rounds =
     (let s = \<lparr>cs_signal = 0, cs_stopped = False, cs_calls = []\<rparr> in
      if 3 < length args \<or> length args < 2 then Inr (- 1, s)
      else
        rbind (if length args = 3 then atoi (args ! 2) else Inr 0) (\<lambda>mode.
        if \<not> ctx_ok r then Inr (- 1, s)
        else
          (let s = c_emit [Created Context, SetLogLevel, SetSignalCallback] s in
           if \<not> cfg_ok r then Inr (- 1, c_emit [Destroyed Context] s)
           else
             (let s = c_emit [Created Config, SetMode mode, SetLocalPort 12345, SetTimeout 2, SetCC bats_cc_gcc,
                              CertFile (args ! 0), KeyFile (args ! 1)] s in
              if \<not> proto_ok r then Inr (- 1, c_emit [Destroyed Config, Destroyed Context] s)
              else
                (let s = c_emit [Created Protocol, StartListen ''127.0.0.1'' 12345] s in
                 if listen_result r \<noteq> bats_error_none
                 then Inr (- 1, c_emit [Destroyed Protocol, Destroyed Config, Destroyed Context] s)
                 else
                   rbind (c_loop rounds s) (\<lambda>s.
                   Inr (0, c_emit [Destroyed Protocol, Destroyed Config, Destroyed Context] s)))))))"

section \<open>Properties\<close>

text \<open>The events of the C interface have the values of the C++ events; three of the congestion controls do not.\<close>

lemma c_events_complete: "set c_conn_events = UNIV" "set conn_events = UNIV" "length c_conn_events = length conn_events"
proof -
  show "set c_conn_events = UNIV" using bats_conn_event_t.exhaust by (auto simp: c_conn_events_def)
  show "set conn_events = UNIV" using BatsConnEvent.exhaust by (auto simp: conn_events_def)
qed (simp add: c_conn_events_def conn_events_def)

lemma c_congestion_control_differs:
  "c_cc_value bats_cc_bbrv3 = cc_value CC_BBRv2" "c_cc_value bats_cc_gcc = cc_value CC_BBRv3" "cc_value x \<noteq> c_cc_value bats_cc_bbrv2"
  by (simp_all, cases x) simp_all

fun created :: "c_call list \<Rightarrow> handle list" where
  "created [] = []"
| "created (Created h # cs) = h # created cs"
| "created (c # cs) = created cs"

fun destroyed :: "c_call list \<Rightarrow> handle list" where
  "destroyed [] = []"
| "destroyed (Destroyed h # cs) = h # destroyed cs"
| "destroyed (c # cs) = destroyed cs"

fun echoed :: "c_call list \<Rightarrow> (conn \<times> octet list) list" where
  "echoed [] = []"
| "echoed (SendBack cn b # cs) = (cn, b) # echoed cs"
| "echoed (c # cs) = echoed cs"

lemma logs_append [simp]:
  "created (xs @ ys) = created xs @ created ys" "destroyed (xs @ ys) = destroyed xs @ destroyed ys" "echoed (xs @ ys) = echoed xs @ echoed ys"
proof -
  show "created (xs @ ys) = created xs @ created ys" by (induction xs rule: created.induct) auto
  show "destroyed (xs @ ys) = destroyed xs @ destroyed ys" by (induction xs rule: destroyed.induct) auto
  show "echoed (xs @ ys) = echoed xs @ echoed ys" by (induction xs rule: echoed.induct) auto
qed

text \<open>The data that the events of the given rounds deliver.\<close>

fun delivered :: "c_event list \<Rightarrow> (conn \<times> octet list) list" where
  "delivered [] = []"
| "delivered (CsData cn bats_connection_data_received b # es) = (cn, b) # delivered es"
| "delivered (e # es) = delivered es"

lemma delivered_append: "delivered (xs @ ys) = delivered xs @ delivered ys"
  by (induction xs rule: delivered.induct) auto

lemma c_step_log:
  "created (cs_calls (c_step e s)) = created (cs_calls s)" "destroyed (cs_calls (c_step e s)) = destroyed (cs_calls s)"
  "echoed (cs_calls (c_step e s)) = echoed (cs_calls s) @ delivered [e]"
proof -
  have "created (cs_calls (c_step e s)) = created (cs_calls s) \<and> destroyed (cs_calls (c_step e s)) = destroyed (cs_calls s)
    \<and> echoed (cs_calls (c_step e s)) = echoed (cs_calls s) @ delivered [e]"
  proof (cases e)
    case (CsData cn event b)
    then show ?thesis by (cases event) (simp_all add: bats_connection_callback_def c_emit_def)
  qed (simp_all add: bats_listener_callback_def c_emit_def)
  then show "created (cs_calls (c_step e s)) = created (cs_calls s)" "destroyed (cs_calls (c_step e s)) = destroyed (cs_calls s)"
    "echoed (cs_calls (c_step e s)) = echoed (cs_calls s) @ delivered [e]" by simp_all
qed

lemma c_steps_log:
  "created (cs_calls (fold c_step evs s)) = created (cs_calls s) \<and> destroyed (cs_calls (fold c_step evs s)) = destroyed (cs_calls s)
    \<and> echoed (cs_calls (fold c_step evs s)) = echoed (cs_calls s) @ delivered evs"
proof (induction evs arbitrary: s)
  case (Cons e evs)
  then show ?case using c_step_log [of e s] delivered_append [of "[e]" evs] by simp
qed simp

lemma c_loop_log:
  "c_loop rounds s = Inr t \<Longrightarrow> created (cs_calls t) = created (cs_calls s) \<and> destroyed (cs_calls t) = destroyed (cs_calls s)
    \<and> (\<exists>k. echoed (cs_calls t) = echoed (cs_calls s) @ delivered (concat (take k rounds)))"
proof (induction rounds arbitrary: s)
  case (Cons evs rounds)
  show ?case
  proof (cases "cs_signal s \<noteq> 2 \<and> \<not> cs_stopped s")
    case True
    then have "c_loop rounds (fold c_step evs s) = Inr t" using Cons.prems by simp
    from Cons.IH [OF this] obtain k where "created (cs_calls t) = created (cs_calls s)" "destroyed (cs_calls t) = destroyed (cs_calls s)"
        "echoed (cs_calls t) = (echoed (cs_calls s) @ delivered evs) @ delivered (concat (take k rounds))"
      using c_steps_log [of evs s] by auto
    then show ?thesis using delivered_append [of evs] by (auto intro!: exI [of _ "Suc k"])
  next
    case False
    then show ?thesis using Cons.prems by (auto intro: exI [of _ 0])
  qed
qed (auto split: if_splits)



end
