(* ===== verification/Spec2Isabelle.thy ===== *)
theory Spec2Isabelle
  imports Stream_Session Test_Properties File_Properties File_Ext Api_Loops Bar_Properties Example_Client Example_Servers
begin

text \<open>
  A verification development for \<open>bats_iperf\<close>, the performance test and file transfer program built on the BATS protocol
  library (\<open>src/example/iperf-bats\<close>), its command line, its progress bars, and the simple example programs
  (\<open>src/example/simple\<close>). The library itself (\<open>src/include/cpp\<close>, \<open>src/include/c\<close>) is distributed as a binary: its headers
  give the vocabulary, its calls are recorded, and what they return is an argument of the model.

  \<^bold>\<open>The program.\<close> \<open>main\<close> (\<open>iperf.cc\<close>) creates an \<open>IperfBatsApi\<close> (\<open>iperf_bats_api.cc\<close>), which parses and checks the command line. A client
  creates one test: an \<open>IperfTest\<close> (\<open>iperf_test.cc\<close>), or an \<open>IperfFileTransfer\<close> (\<open>iperf_file_transfer.cc\<close>) if there are files; both implement
  \<open>IIperfTest\<close> (\<open>iperf_test_api.h\<close>). A server listens on a control channel and creates a test for each client that asks for one. Client and
  server exchange control messages (parameters or a file request, acknowledgement, ready, summary) and open data streams. The data
  streams of a throughput test are \<open>IperfStream\<close> objects (\<open>iperf_stream.cc\<close>), each with a sending thread or a receiver that validates and
  counts blocks; those of a file transfer have a thread that sends the files of a shared queue in blocks, optionally compressed
  (\<open>iperf_compress_api.cc\<close>), with progress bars (\<open>progressbar.h\<close>). Polling loops take interval snapshots, detect the end and print summaries.

  \<^bold>\<open>Conventions.\<close> Every object is a record, every method a function from the record to the record, of type \<open>'a res\<close> if it can fault: a
  fault is an access outside a buffer, a null pointer, a failed \<open>assert\<close>, a division by zero, an undefined conversion, a signed overflow,
  \<open>exit\<close>, an uncaught exception. Calls of the library and text on the terminal are appended to a list of the record. Unsigned integers are
  words, signed ones are \<open>int\<close> with the conversions and overflows written out, floats are IEEE 754 values with rounding. Threads are program
  counters: an execution is a list of events, in any order, of the object's threads, the library's callbacks and the polls. A loop
  that waits is given the events of each of its rounds; if they are used up it is \<open>Blocked\<close>. Where the code reads the clock, the
  file system or the network interfaces, the answer is an argument.

  \<^bold>\<open>Theories.\<close>
  \<^item> \<open>Prelude\<close>: words, faults, byte buffers with bounds, the locales \<open>wire_field\<close> and \<open>event_machine\<close>; \<open>Floats\<close>: rounding and its error bound.
  \<^item> \<open>Config\<close>: \<open>iperf_common.h\<close>, \<open>iperf_common.cc\<close>: roles, protocols, configuration, report structures, printing of quantities. \<open>Wire\<close>: the packed
    headers of control messages, blocks and file meta data. \<open>Bats_Api\<close>: events and configuration of the library. \<open>Report\<close>: the report
    arithmetic of \<open>iperf_stream.cc\<close> and its wire form.
  \<^item> \<open>Iperf_Stream\<close>: \<open>IperfStream\<close>. Its invariants: \<open>Stream_Integrity\<close> (what is sent validates), \<open>Stream_Sequence\<close> (sequence numbers),
    \<open>Stream_Handshake\<close> (FIN and FIN-ACK), \<open>Stream_Lifetime\<close> (connection attempts, the end of the thread), \<open>Stream_Reports\<close> (when the receiver
    exits). \<open>Stream_Properties\<close>: the results on one stream. \<open>Stream_Accounts\<close>: what each operation counts; \<open>Stream_Numbers\<close>: how
    the blocks are numbered; \<open>Stream_Session\<close>: a sender, a receiver
    and the connection between them as a step relation, and the results on both ends together.
  \<^item> \<open>Test_Api\<close>: \<open>IIperfTest\<close>, and the contract of \<open>Stop\<close> as the locale \<open>iperf_test\<close>, interpreted for both kinds of test. \<open>Iperf_Test\<close>:
    \<open>IperfTest\<close>; \<open>Test_Messages\<close>: its control messages written and read back; \<open>Test_Properties\<close>: the results.
  \<^item> \<open>Compressor\<close>: \<open>IperfCompressor\<close>. \<open>File_Transfer\<close>: \<open>IperfFileTransfer\<close>. \<open>File_Send\<close>, \<open>File_Receive\<close>, \<open>File_Live\<close>, \<open>File_Stop\<close>: the sending thread, the
    writer, progress, and \<open>Stop\<close> with its joins; \<open>File_Properties\<close>: the results. \<open>File_Ext\<close>: the extension table of \<open>bats_file.h\<close>.
  \<^item> \<open>Command_Line\<close>: the argument loop and the validation. \<open>Iperf_Api\<close>: \<open>IperfBatsApi\<close> and \<open>main\<close>. \<open>Api_Ids\<close>, \<open>Api_Table\<close>: ids never change, the
    table of tests as the locale \<open>test_table\<close>; \<open>Api_Properties\<close>, \<open>Api_Loops\<close>: initialisation, stopping, messages, polling.
  \<^item> \<open>Progress_Bar\<close>, \<open>Bar_Properties\<close>: \<open>progressbar.h\<close>. \<open>Example_Client\<close>, \<open>Example_Servers\<close>: the simple programs.

  \<^bold>\<open>What is shown.\<close>
  \<^item> Streams: every block that is sent, under any interleaving, validates at the receiver; accepted sequence numbers increase; FIN and FIN-ACK end
    both sides; the destructor joins the sending thread; connection attempts are bounded; snapshots partition the traffic; reports survive the wire.
    Faults: stopping during a send, a timeout of an accepted stream, a report before the first snapshot.
  \<^item> Sessions: in every reachable state what the sender counted is what the receiver counted, what is on the way and what was lost; the loss in the
    receiver's summary is the number of missing blocks; no block is taken for a corrupted one, so that only the numbering can end the
    receiver, and with an ordered protocol not while the sender sends without an error. Faults: a FIN that overtakes the summary, a first block that is given up.
  \<^item> Tests: parameters and summaries cross the control channel; a summary fits up to 33 streams; with parallel streams the receiver is never done.
  \<^item> Files: over a reliable ordered connection all queued files arrive byte for byte and the sender's thread ends; requests are
    answered according to the free space; the queue equals its specification; \<open>Stop\<close> joins all threads and is final. Faults: files of 2 GiB,
    empty files, a connection that closes, a receiver that is done too early.
  \<^item> Program: the command line is parsed as its options mean and checked; a checked client creates its test, the table of tests is
    well formed at all times, the first message of a client creates its test at the server, a disconnected one is removed, \<open>StopAll\<close> is
    final, a late message faults; a client that gets no answer returns.
  \<^item> Bars: the ring buffers are the window of the last 75 samples; every accepted file has its bar on both sides. Examples: the client
    sends what it was asked for; the C server releases its handles on every path and echoes.

  \<^bold>\<open>Parameters.\<close> Not in the repository, hence arguments: the sequence recorder, ring comparison, flow shaper and concurrent queue of
  \<open>src/util\<close>, the density compression library, the operating system. What a result needs of them is a named hypothesis: \<open>is_fifo\<close> for the
  queue, \<open>density_ok\<close> for the compression; each has an instance in the results' examples.

  \<^bold>\<open>Bounds.\<close> The wait for the streams of a client has 10001 rounds and the wait for its reports 15, as in the code; a thread that is joined needs at
  most six (streams) or five (files) steps; a finished test is released after twelve rounds. The queue of files is assumed to hold 100.

  \<^bold>\<open>Not modelled.\<close> Log messages (spdlog) and \<open>std::cerr\<close>; the destructors other than that of \<open>IperfStream\<close> (they are empty or never
  run: \<open>IperfBatsApi\<close> is kept alive by its signal callback, which holds a reference to it); the functions of the C interface, which the binary library implements; \<open>seq_recorder_test.cc\<close>, a test of
  \<open>src/util\<close>; races on fields that are not atomic, which are undefined in C++.
\<close>

section \<open>A run of the program\<close>

fun idle :: "('r, 'f, 'q) any_test \<Rightarrow> bool" where
  "idle (Gen t) \<longleftrightarrow> test_streams t = [] \<and> num_streams (t_config t) \<noteq> 0"
| "idle (Ft x) \<longleftrightarrow> x_streams x = [] \<and> t_state x \<noteq> TEST_DONE \<and> num_streams (t_config x) \<noteq> 0"

lemma idle_keeps:
  "idle (with_sid n t) = idle t" "idle (snd (any_Start E t)) = idle t" "idle (snd (any_IsStreamReady t)) = idle t"
  by (cases t; simp add: StartTest_def file_Start_def IsStreamReady_def Let_def)+

lemma idle_not_ready: "idle t \<Longrightarrow> \<not> fst (any_IsStreamReady t)"
  by (cases t) (simp_all add: IsStreamReady_def file_IsStreamReady_def Let_def)

lemma idle_new: "num_streams c \<noteq> 0 \<Longrightarrow> idle (sender_test E ck n name c)"
  by (simp add: sender_test_def new_test_def new_test_id_def new_transfer_def new_transfer_id_def new_IIperfTest_def IIperfTest.defs
      IperfTest.defs IperfFileTransfer.defs SetResolution_def SetBoundInf_def SetPrinter_def case_prod_beta)

text \<open>A table with one idle test, before any signal.\<close>

definition one_idle :: "u32 \<Rightarrow> ('r, 'f, 'q) IperfBatsApi \<Rightarrow> bool" where
  "one_idle k a \<longleftrightarrow> (\<exists>t. test_tbl a = [(k, t)] \<and> idle t) \<and> stop_signal_value a \<noteq> SIGINT"

lemma one_idle_call:
  assumes "one_idle k a" and "\<And>t. idle t \<Longrightarrow> idle (snd (f t))"
  shows "returns (call_test E k (\<lambda>t. Inr (f t)) a) (\<lambda>(x, b). (\<exists>t. idle t \<and> x = fst (f t)) \<and> one_idle k b \<and> a_role b = a_role a)"
proof -
  obtain t where t: "test_tbl a = [(k, t)]" "idle t" "stop_signal_value a \<noteq> SIGINT" using assms(1) by (auto simp: one_idle_def)
  have "idle (with_sid (a_next_stream a) t)" using t(2) by (simp add: idle_keeps)
  then show ?thesis
    using t assms(2) by (intro returns_call_test [of a k t])
      (auto simp: returns_def called_def one_idle_def tbl_update_def case_prod_beta)
qed

lemma wait_round:
  assumes "one_idle k a"
  shows "\<exists>b. one_idle k b \<and> a_role b = a_role a \<and> wait_ready E k n ([] # rounds) a
    = (if max_timeout_cnt < n + 1 then Inr (False, b) else wait_ready E k (n + 1) rounds b)"
proof -
  obtain b where b: "call_test E k (\<lambda>t. Inr (any_IsStreamReady t)) a = Inr (False, b)" "one_idle k b" "a_role b = a_role a"
    using one_idle_call [OF assms, of any_IsStreamReady E] idle_not_ready by (fastforce simp: returns_def idle_keeps)
  then have "stop_signal_value b \<noteq> SIGINT" by (simp add: one_idle_def)
  then show ?thesis using b by (subst wait_ready.simps) auto
qed

lemma wait_gives_up:
  assumes "one_idle k a" and "n + m = max_timeout_cnt"
  shows "returns (wait_ready E k n (replicate (Suc m) []) a) (\<lambda>(ready, b). \<not> ready \<and> one_idle k b \<and> a_role b = a_role a)"
  using assms
proof (induction m arbitrary: n a)
  case 0
  then show ?case using wait_round [OF 0(1), of E n "[]"] by (auto simp: returns_def)
next
  case (Suc m)
  obtain b where b: "one_idle k b" "a_role b = a_role a"
      "wait_ready E k n (replicate (Suc (Suc m)) []) a = wait_ready E k (n + 1) (replicate (Suc m) []) b"
    using wait_round [OF Suc.prems(1), of E n "replicate (Suc m) []"] Suc.prems(2) by auto
  show ?case using Suc.IH [OF b(1), of "n + 1"] b(2,3) Suc.prems(2) by simp
qed


definition example_run_in :: run_in where
  "example_run_in = \<lparr>ready_rounds = replicate 10001 [], poll_rounds = [], done_rounds = [], stop_ins = example_stops\<rparr>"


section \<open>One bar for every file\<close>

lemma queued_bar: "bar_id (queued_file E names k) = int k"
  by (simp add: queued_file_def)

lemma small_bar: "k < 10 \<Longrightarrow> unat (word_of_int (int k) :: u16) = k"
  by (simp add: unat_of_nat)

text \<open>
  C38. Every file of an accepted command line has a bar of its own on both sides: the bars of the queued files are different, the
  conversion to 16 bits keeps them, they are within the ten bars of the terminal, so that registering
  one succeeds, and the four bits of the block header carry them to the receiver.
\<close>

theorem file_bars_in_range:
  assumes "is_fifo E pend" and "client_ok ex c" and "role c = ROLE_FILE_SENDER"
    and "fs = pend (x_pending (new_transfer E now c))"
  shows "distinct (map bar_id fs) \<and> (\<forall>f \<in> set fs. \<exists>k. unat (word_of_int (bar_id f) :: u16) = k \<and> int k = bar_id f \<and> k < max_bars
    \<and> fst (register_bar t t' k label cb) \<and> file_seq (dec_bk_header (enc_bk_header (h\<lparr>file_seq := k\<rparr>))) = k)"
proof -
  have len: "length (files c) \<le> 10" using assms(2,3) by (simp add: client_ok_def)
  have "sent_names E [] = []" "pend (new_queue E) = []" using assms(1) by (simp_all add: sent_names_def is_fifo_def)
  with collect_files_spec [OF assms(1), of "[]" "files c" "new_queue E" 0] len
  have "snd ((\<lambda>(tot, q). (tot, pend q)) (collect_files E (files c) {} 0 0 (new_queue E)))
      = map (queued_file E (files c)) (sent_names E (files c))" by simp
  then have fs: "fs = map (queued_file E (files c)) (sent_names E (files c))"
    using assms(4) by (auto simp: new_transfer_def split: prod.splits)
  have "distinct (sent_names E (files c))" by (simp add: sent_names_def)
  then have d: "distinct (map bar_id fs)" by (simp add: fs comp_def queued_bar distinct_map inj_on_def)
  moreover have "\<exists>k. unat (word_of_int (bar_id f) :: u16) = k \<and> int k = bar_id f \<and> k < max_bars
    \<and> fst (register_bar t t' k label cb) \<and> file_seq (dec_bk_header (enc_bk_header (h\<lparr>file_seq := k\<rparr>))) = k" if f: "f \<in> set fs" for f
  proof -
    obtain k where k: "f = queued_file E (files c) k" "k < 10"
      using f len sent_names_bound [of _ E "files c"] by (fastforce simp: fs)
    then have "file_seq (dec_bk_header (enc_bk_header (h\<lparr>file_seq := k\<rparr>))) = k" by (subst dec_enc_bk_header) simp_all
    then show ?thesis
      using k small_bar by (intro exI [of _ k]) (simp add: queued_bar max_bars_def register_bar_def)
  qed
  ultimately show ?thesis by blast
qed

theorem file_bars_in_range_witness:
  "map bar_id (x_pending (new_transfer example_env 5 (TestConfig_init\<lparr>peer_host := ''h'', protocol := 1, role := ROLE_FILE_SENDER,
       files := [''dir/a.txt'', ''gone'', ''b'']\<rparr>))) = [0, 2]
   \<and> distinct (map bar_id (x_pending (new_transfer example_env 5 (TestConfig_init\<lparr>peer_host := ''h'', protocol := 1, role := ROLE_FILE_SENDER,
       files := [''dir/a.txt'', ''gone'', ''b'']\<rparr>))))"
proof -
  define c where "c = TestConfig_init\<lparr>peer_host := ''h'', protocol := 1, role := ROLE_FILE_SENDER, files := [''dir/a.txt'', ''gone'', ''b'']\<rparr>"
  have "client_ok (\<lambda>f. f = ''b'') c" "role c = ROLE_FILE_SENDER"
    by (simp_all add: c_def client_ok_def IsSupportedProtocol_def TestConfig_init_def)
  from file_bars_in_range [OF example_fifo this refl] have "distinct (map bar_id (x_pending (new_transfer example_env 5 c)))" by blast
  moreover have "map bar_id (x_pending (new_transfer example_env 5 c)) = [0, 2]"
    by (simp add: c_def new_transfer_def new_transfer_id_def new_IIperfTest_def IIperfTest.defs IperfFileTransfer.defs
        TestConfig_init_def example_env_def example_files_def)
  ultimately show ?thesis unfolding c_def by blast
qed

end
